(* ===== verification/Nexa_Prelude.thy ===== *)
theory Nexa_Prelude
  imports Main "HOL-Library.Sublist"
begin

section \<open>Shared notions of the NexaBot development\<close>

text \<open>
  Everything the component theories share and that is not about one component:

  \<^item> \<open>sum_bind\<close> sequences Python code that may raise but has no effect on shared state
    (\<open>Inl\<close> is a raised exception, \<open>Inr\<close> a returned value);
  \<^item> \<open>prog\<close> is the type of effectful Python code: it maps a state to an outcome and the
    state left behind, so effects that happened before an exception stay visible;
  \<^item> \<open>triple P m Q R\<close> is the partial-correctness triple over such code (\<open>Q\<close> for a
    normal return, \<open>R\<close> for an exception); all programs here are total functions, so a
    triple also says the code ends;
  \<^item> \<open>reachable\<close> and the locale \<open>lifecycle\<close> are the shared shape of the domain
    entities: an initial state, the transitions the methods allow, an invariant;
  \<^item> \<open>enum_call\<close> and the locale \<open>str_enum\<close> are Python's \<open>StrEnum\<close>: a value per
    member, and a constructor that looks a member up by its value.
\<close>

named_theorems triples \<open>Rules that establish triples about effectful programs\<close>
named_theorems enum_values \<open>The string values of the StrEnum members\<close>

subsection \<open>Code that may raise\<close>

fun sum_bind :: "'e + 'a \<Rightarrow> ('a \<Rightarrow> 'e + 'b) \<Rightarrow> 'e + 'b" where
  "sum_bind (Inl e) f = Inl e"
| "sum_bind (Inr a) f = f a"

definition sum_guard :: "bool \<Rightarrow> 'e \<Rightarrow> 'e + unit" where
  \<comment> \<open>\<open>if not ok: raise e\<close>\<close>
  "sum_guard ok e = (if ok then Inr () else Inl e)"

lemma sum_bind_Inr_iff: "sum_bind m f = Inr b \<longleftrightarrow> (\<exists>a. m = Inr a \<and> f a = Inr b)"
  by (cases m) auto

lemma sum_bind_Inl_iff:
  "sum_bind m f = Inl e \<longleftrightarrow> m = Inl e \<or> (\<exists>a. m = Inr a \<and> f a = Inl e)"
  by (cases m) auto

lemma sum_guard_simps [simp]:
  "sum_guard True e = Inr ()" "sum_guard False e = Inl e"
  by (simp_all add: sum_guard_def)

lemma sum_guard_Inr_iff: "sum_guard ok e = Inr u \<longleftrightarrow> ok"
  by (simp add: sum_guard_def)

lemma sum_guard_Inl_iff: "sum_guard ok e = Inl x \<longleftrightarrow> \<not> ok \<and> x = e"
  by (auto simp: sum_guard_def)

fun sum_map :: "('a \<Rightarrow> 'e + 'b) \<Rightarrow> 'a list \<Rightarrow> 'e + 'b list" where
  \<comment> \<open>\<open>tuple(f(x) for x in xs)\<close>: the first exception ends it\<close>
  "sum_map f [] = Inr []"
| "sum_map f (x # xs) = sum_bind (f x) (\<lambda>y. sum_bind (sum_map f xs) (\<lambda>ys. Inr (y # ys)))"

lemma sum_map_Inr_iff: "sum_map f xs = Inr ys \<longleftrightarrow> list_all2 (\<lambda>x y. f x = Inr y) xs ys"
  by (induction xs arbitrary: ys) (auto simp: sum_bind_Inr_iff list_all2_Cons1)

lemma sum_map_append:
  "sum_map f (xs @ ys) = sum_bind (sum_map f xs) (\<lambda>us. sum_bind (sum_map f ys) (\<lambda>vs. Inr (us @ vs)))"
proof (induction xs)
  case Nil
  show ?case by (cases "sum_map f ys") simp_all
next
  case (Cons x xs)
  then show ?case
    by (cases "f x"; cases "sum_map f xs"; cases "sum_map f ys") simp_all
qed

lemma sum_map_drop:
  "sum_map f xs = Inr ys \<Longrightarrow> sum_map f (drop n xs) = Inr (drop n ys)"
  by (simp add: sum_map_Inr_iff list_all2_dropI)

lemma sum_map_length: "sum_map f xs = Inr ys \<Longrightarrow> length ys = length xs"
  by (auto simp: sum_map_Inr_iff dest: list_all2_lengthD)

lemma sum_map_Inr_map: "(\<And>x. x \<in> set xs \<Longrightarrow> f x = Inr (g x)) \<Longrightarrow> sum_map f xs = Inr (map g xs)"
  by (induction xs) simp_all

lemmas sum_flow = sum_bind_Inr_iff sum_bind_Inl_iff sum_guard_Inr_iff sum_guard_Inl_iff

subsection \<open>Effectful programs\<close>

type_synonym ('s, 'e, 'a) prog = "'s \<Rightarrow> ('e + 'a) \<times> 's"

definition ret :: "'a \<Rightarrow> ('s, 'e, 'a) prog" where
  "ret a = (\<lambda>s. (Inr a, s))"

definition throw :: "'e \<Rightarrow> ('s, 'e, 'a) prog" where
  "throw e = (\<lambda>s. (Inl e, s))"

definition bnd :: "('s, 'e, 'a) prog \<Rightarrow> ('a \<Rightarrow> ('s, 'e, 'b) prog) \<Rightarrow> ('s, 'e, 'b) prog" where
  "bnd m f = (\<lambda>s. case m s of (Inl e, t) \<Rightarrow> (Inl e, t) | (Inr a, t) \<Rightarrow> f a t)"

definition try_except :: "('s, 'e, 'a) prog \<Rightarrow> ('e \<Rightarrow> ('s, 'e, 'a) prog) \<Rightarrow> ('s, 'e, 'a) prog" where
  \<comment> \<open>\<open>try: m  except ... as e: h(e)\<close>; a handler that does not match re-raises\<close>
  "try_except m h = (\<lambda>s. case m s of (Inl e, t) \<Rightarrow> h e t | (Inr a, t) \<Rightarrow> (Inr a, t))"

definition finally_do :: "('s, 'e, 'a) prog \<Rightarrow> ('s, 'e, unit) prog \<Rightarrow> ('s, 'e, 'a) prog" where
  \<comment> \<open>\<open>try: m  finally: c\<close>; an exception of the clean-up replaces the outcome of \<open>m\<close>\<close>
  "finally_do m c = (\<lambda>s. case m s of (r, t) \<Rightarrow> (case c t of (Inl e, u) \<Rightarrow> (Inl e, u) | (Inr _, u) \<Rightarrow> (r, u)))"

definition lift_sum :: "'e + 'a \<Rightarrow> ('s, 'e, 'a) prog" where
  "lift_sum r = (\<lambda>s. (r, s))"

definition gets :: "('s \<Rightarrow> 'a) \<Rightarrow> ('s, 'e, 'a) prog" where
  "gets f = (\<lambda>s. (Inr (f s), s))"

definition modify :: "('s \<Rightarrow> 's) \<Rightarrow> ('s, 'e, unit) prog" where
  "modify f = (\<lambda>s. (Inr (), f s))"

fun for_each :: "'a list \<Rightarrow> ('a \<Rightarrow> ('s, 'e, unit) prog) \<Rightarrow> ('s, 'e, unit) prog" where
  "for_each [] body = ret ()"
| "for_each (x # xs) body = bnd (body x) (\<lambda>_. for_each xs body)"

fun map_each :: "('a \<Rightarrow> ('s, 'e, 'b) prog) \<Rightarrow> 'a list \<Rightarrow> ('s, 'e, 'b list) prog" where
  "map_each f [] = ret []"
| "map_each f (x # xs) = bnd (f x) (\<lambda>y. bnd (map_each f xs) (\<lambda>ys. ret (y # ys)))"

lemma prog_apply [simp]:
  "ret a s = (Inr a, s)"
  "throw e s = (Inl e, s)"
  "lift_sum r s = (r, s)"
  "gets f s = (Inr (f s), s)"
  "modify g s = (Inr (), g s)"
  by (simp_all add: ret_def throw_def lift_sum_def gets_def modify_def)

lemma bnd_apply: "bnd m f s = (case m s of (Inl e, t) \<Rightarrow> (Inl e, t) | (Inr a, t) \<Rightarrow> f a t)"
  by (simp add: bnd_def)

lemma try_apply:
  "try_except m h s = (case m s of (Inl e, t) \<Rightarrow> h e t | (Inr a, t) \<Rightarrow> (Inr a, t))"
  by (simp add: try_except_def)

lemma bnd_ret [simp]: "bnd (ret a) f = f a"
  by (simp add: bnd_def ret_def)

lemma bnd_throw [simp]: "bnd (throw e) f = throw e"
  by (simp add: bnd_def throw_def)

lemma bnd_lift_Inr [simp]: "bnd (lift_sum (Inr a)) f = f a"
  by (simp add: bnd_def lift_sum_def)

lemma bnd_lift_Inl [simp]: "bnd (lift_sum (Inl e)) f = throw e"
  by (simp add: bnd_def lift_sum_def throw_def)

lemma bnd_assoc: "bnd (bnd m f) g = bnd m (\<lambda>a. bnd (f a) g)"
  by (auto simp: bnd_def split: prod.splits sum.splits)

lemma bnd_step_Inr: "m s = (Inr a, t) \<Longrightarrow> bnd m f s = f a t"
  by (simp add: bnd_def)

lemma bnd_step_Inl: "m s = (Inl e, t) \<Longrightarrow> bnd m f s = (Inl e, t)"
  by (simp add: bnd_def)

lemma try_step_Inr: "m s = (Inr a, t) \<Longrightarrow> try_except m h s = (Inr a, t)"
  by (simp add: try_except_def)

lemma try_step_Inl: "m s = (Inl e, t) \<Longrightarrow> try_except m h s = h e t"
  by (simp add: try_except_def)

lemma bnd_InrE:
  assumes "bnd m f s = (Inr b, u)"
  obtains a t where "m s = (Inr a, t)" "f a t = (Inr b, u)"
  using assms by (auto simp: bnd_def split: prod.splits sum.splits)

lemma bnd_InlE:
  assumes "bnd m f s = (Inl e, u)"
  obtains "m s = (Inl e, u)" | a t where "m s = (Inr a, t)" "f a t = (Inl e, u)"
  using assms by (auto simp: bnd_def split: prod.splits sum.splits)

lemmas run_steps = bnd_apply try_apply

subsection \<open>Triples\<close>

definition triple ::
  "('s \<Rightarrow> bool) \<Rightarrow> ('s, 'e, 'a) prog \<Rightarrow> ('a \<Rightarrow> 's \<Rightarrow> bool) \<Rightarrow> ('e \<Rightarrow> 's \<Rightarrow> bool) \<Rightarrow> bool" where
  "triple P m Q R \<longleftrightarrow>
     (\<forall>s. P s \<longrightarrow> (case m s of (Inr a, t) \<Rightarrow> Q a t | (Inl e, t) \<Rightarrow> R e t))"

abbreviation keeps :: "('s \<Rightarrow> bool) \<Rightarrow> ('s, 'e, 'a) prog \<Rightarrow> bool" where
  "keeps I m \<equiv> triple I m (\<lambda>_. I) (\<lambda>_. I)"

lemma tripleI:
  assumes "\<And>s a t. P s \<Longrightarrow> m s = (Inr a, t) \<Longrightarrow> Q a t"
    and "\<And>s e t. P s \<Longrightarrow> m s = (Inl e, t) \<Longrightarrow> R e t"
  shows "triple P m Q R"
  using assms by (auto simp: triple_def split: prod.splits sum.splits)

lemma triple_InrD: "triple P m Q R \<Longrightarrow> P s \<Longrightarrow> m s = (Inr a, t) \<Longrightarrow> Q a t"
  by (fastforce simp: triple_def)

lemma triple_InlD: "triple P m Q R \<Longrightarrow> P s \<Longrightarrow> m s = (Inl e, t) \<Longrightarrow> R e t"
  by (fastforce simp: triple_def)

lemma keeps_snd:
  assumes "keeps I m" and "I s"
  shows "I (snd (m s))"
proof (cases "m s")
  case (Pair r t)
  with assms show ?thesis by (cases r) (auto dest: triple_InrD triple_InlD)
qed

lemma triple_weaken:
  assumes "triple P' m Q' R'"
    and "\<And>s. P s \<Longrightarrow> P' s"
    and "\<And>a s. Q' a s \<Longrightarrow> Q a s"
    and "\<And>e s. R' e s \<Longrightarrow> R e s"
  shows "triple P m Q R"
proof (rule tripleI)
  fix s a t assume "P s" "m s = (Inr a, t)"
  then show "Q a t" using assms by (blast dest: triple_InrD)
next
  fix s e t assume "P s" "m s = (Inl e, t)"
  then show "R e t" using assms by (blast dest: triple_InlD)
qed

lemma triple_conj:
  "triple P m Q R \<Longrightarrow> triple P' m Q' R' \<Longrightarrow>
     triple (\<lambda>s. P s \<and> P' s) m (\<lambda>a s. Q a s \<and> Q' a s) (\<lambda>e s. R e s \<and> R' e s)"
  by (fastforce simp: triple_def split: prod.splits sum.splits)

lemma triple_bnd:
  assumes "triple P m M R" and "\<And>a. triple (M a) (f a) Q R"
  shows "triple P (bnd m f) Q R"
proof (rule tripleI)
  fix s b u assume "P s" "bnd m f s = (Inr b, u)"
  then show "Q b u" using assms by (elim bnd_InrE) (blast dest: triple_InrD)
next
  fix s e u assume "P s" "bnd m f s = (Inl e, u)"
  then show "R e u" using assms by (elim bnd_InlE) (blast dest: triple_InrD triple_InlD)+
qed

lemma keeps_bnd [triples]:
  "keeps I m \<Longrightarrow> (\<And>a. keeps I (f a)) \<Longrightarrow> keeps I (bnd m f)"
  by (rule triple_bnd)

lemma triple_try:
  assumes "triple P m Q M" and "\<And>e. triple (M e) (h e) Q R"
  shows "triple P (try_except m h) Q R"
proof (rule tripleI)
  fix s a t assume "P s" "try_except m h s = (Inr a, t)"
  then show "Q a t"
    using assms by (auto simp: try_except_def split: prod.splits sum.splits
        dest: triple_InrD triple_InlD)
next
  fix s e t assume "P s" "try_except m h s = (Inl e, t)"
  then show "R e t"
    using assms by (auto simp: try_except_def split: prod.splits sum.splits
        dest: triple_InrD triple_InlD)
qed

lemma keeps_try [triples]:
  "keeps I m \<Longrightarrow> (\<And>e. keeps I (h e)) \<Longrightarrow> keeps I (try_except m h)"
  by (rule triple_try)

lemma keeps_basic [triples]:
  "keeps I (ret a)" "keeps I (throw e)" "keeps I (lift_sum r)" "keeps I (gets f)"
  by (auto simp: triple_def split: sum.splits)

lemma keeps_modify [triples]: "(\<And>s. I s \<Longrightarrow> I (f s)) \<Longrightarrow> keeps I (modify f)"
  by (auto simp: triple_def)

lemma keeps_for_each [triples]:
  "(\<And>x. x \<in> set xs \<Longrightarrow> keeps I (body x)) \<Longrightarrow> keeps I (for_each xs body)"
  by (induction xs) (auto intro!: triples)

lemma for_each_cong [fundef_cong]:
  "xs = ys \<Longrightarrow> (\<And>x. x \<in> set ys \<Longrightarrow> f x = g x) \<Longrightarrow> for_each xs f = for_each ys g"
  by (induction xs arbitrary: ys) auto

subsection \<open>Reachable states and entity life cycles\<close>

inductive reachable :: "('e \<Rightarrow> bool) \<Rightarrow> ('e \<Rightarrow> 'e \<Rightarrow> bool) \<Rightarrow> 'e \<Rightarrow> bool"
  for initial step where
  reach_initial: "initial e \<Longrightarrow> reachable initial step e"
| reach_step: "reachable initial step e \<Longrightarrow> step e e' \<Longrightarrow> reachable initial step e'"

lemma reachable_star:
  "reachable initial step e \<Longrightarrow> step\<^sup>*\<^sup>* e e' \<Longrightarrow> reachable initial step e'"
  by (rotate_tac 1, induction rule: rtranclp_induct) (auto intro: reach_step)

locale lifecycle =
  fixes initial :: "'e \<Rightarrow> bool" and step :: "'e \<Rightarrow> 'e \<Rightarrow> bool" and inv :: "'e \<Rightarrow> bool"
  assumes inv_initial: "initial e \<Longrightarrow> inv e"
    and inv_step: "inv e \<Longrightarrow> step e e' \<Longrightarrow> inv e'"
begin

lemma reachable_inv: "reachable initial step e \<Longrightarrow> inv e"
  by (induction rule: reachable.induct) (blast intro: inv_initial inv_step)+

lemma star_inv: "step\<^sup>*\<^sup>* e e' \<Longrightarrow> inv e \<Longrightarrow> inv e'"
  by (induction rule: rtranclp_induct) (blast intro: inv_step)+

end

text \<open>A life cycle with final states: nothing leaves them.\<close>

locale terminating_lifecycle = lifecycle initial step inv
  for initial :: "'e \<Rightarrow> bool" and step :: "'e \<Rightarrow> 'e \<Rightarrow> bool" and inv :: "'e \<Rightarrow> bool" +
  fixes final :: "'e \<Rightarrow> bool"
  assumes final_stuck: "final e \<Longrightarrow> \<not> step e e'"
begin

lemma final_stable: "step\<^sup>*\<^sup>* e e' \<Longrightarrow> final e \<Longrightarrow> e' = e"
  by (induction rule: rtranclp_induct) (auto simp: final_stuck)

end

text \<open>
  A refinement: on states that satisfy the invariant every concrete step is no step or one
  step of the abstract machine.
\<close>

locale refinement = lifecycle initial step inv
  for initial :: "'e \<Rightarrow> bool" and step :: "'e \<Rightarrow> 'e \<Rightarrow> bool" and inv :: "'e \<Rightarrow> bool" +
  fixes abstr :: "'e \<Rightarrow> 'a" and astep :: "'a \<Rightarrow> 'a \<Rightarrow> bool"
  assumes simulates: "inv e \<Longrightarrow> step e e' \<Longrightarrow> abstr e' = abstr e \<or> astep (abstr e) (abstr e')"
begin

lemma star_simulates: "step\<^sup>*\<^sup>* e e' \<Longrightarrow> inv e \<Longrightarrow> astep\<^sup>*\<^sup>* (abstr e) (abstr e')"
proof (induction rule: rtranclp_induct)
  case (step y z)
  then have "inv y" by (blast intro: star_inv)
  with step simulates [of y z] show ?case by (metis rtranclp.rtrancl_into_rtrancl)
qed simp

end

subsection \<open>StrEnum\<close>

definition enum_find :: "'e list \<Rightarrow> ('e \<Rightarrow> string) \<Rightarrow> string \<Rightarrow> 'e option" where
  "enum_find members val s = find (\<lambda>e. val e = s) members"

locale str_enum =
  fixes members :: "'e list" and val :: "'e \<Rightarrow> string"
  assumes all_members: "e \<in> set members"
    and distinct_values: "val e = val e' \<Longrightarrow> e = e'"
begin

lemma find_value: "enum_find members val (val e) = Some e"
proof -
  have "find (\<lambda>x. val x = val e) members \<noteq> None"
    using all_members [of e] by (auto simp: find_None_iff)
  then obtain x where x: "find (\<lambda>x. val x = val e) members = Some x" by blast
  then have "val x = val e" by (auto simp: find_Some_iff)
  with x show ?thesis by (auto simp: enum_find_def dest: distinct_values)
qed

lemma value_find: "enum_find members val s = Some e \<Longrightarrow> val e = s"
  by (auto simp: enum_find_def find_Some_iff)

lemma find_iff: "enum_find members val s = Some e \<longleftrightarrow> s = val e"
  using find_value value_find by blast

lemma find_None: "enum_find members val s = None \<longleftrightarrow> s \<notin> val ` set members"
  by (auto simp: enum_find_def find_None_iff)

end

subsection \<open>Lists\<close>

text \<open>Python's \<open>xs[-n:]\<close> for a positive \<open>n\<close>: the last \<open>n\<close> elements, or all of them.\<close>

definition last_n :: "nat \<Rightarrow> 'a list \<Rightarrow> 'a list" where
  "last_n n xs = drop (length xs - n) xs"

lemma length_last_n [simp]: "length (last_n n xs) = min n (length xs)"
  by (simp add: last_n_def)

lemma last_n_all: "length xs \<le> n \<Longrightarrow> last_n n xs = xs"
  by (simp add: last_n_def)

lemma suffix_last_n: "suffix (last_n n xs) xs"
  by (simp add: last_n_def suffix_drop)

lemma last_n_append: "length ys \<ge> n \<Longrightarrow> last_n n (xs @ ys) = last_n n ys"
  by (simp add: last_n_def)

lemma last_n_suffix:
  assumes "suffix ys xs" and "n \<le> length ys"
  shows "last_n n xs = last_n n ys"
  using assms by (auto simp: suffix_def last_n_append)

lemma last_n_snoc: "0 < n \<Longrightarrow> last_n n (xs @ [x]) = last_n (n - 1) xs @ [x]"
  by (cases "length xs + 1 \<le> n") (auto simp: last_n_def)

lemma last_n_rev_take: "last_n n xs = rev (take n (rev xs))"
  by (simp add: last_n_def take_rev)

lemma set_last_n: "set (last_n n xs) \<subseteq> set xs"
  by (simp add: last_n_def set_drop_subset)

lemma find_filter_hd: "find P xs = (case filter P xs of [] \<Rightarrow> None | x # _ \<Rightarrow> Some x)"
  by (induction xs) auto

lemma filter_eq_single: "distinct xs \<Longrightarrow> x \<in> set xs \<Longrightarrow> filter (\<lambda>y. y = x) xs = [x]"
  by (induction xs) (auto simp: filter_empty_conv)

lemma find_append:
  "find P (xs @ ys) = (case find P xs of None \<Rightarrow> find P ys | Some x \<Rightarrow> Some x)"
  by (induction xs) auto

lemma map_update_id: "(\<And>x. x \<in> set xs \<Longrightarrow> \<not> p x) \<Longrightarrow> map (\<lambda>x. if p x then f x else x) xs = xs"
  by (induction xs) auto

lemma filter_map_update:
  assumes "\<And>x. p x \<Longrightarrow> q (f x) = q x"
  shows "filter q (map (\<lambda>x. if p x then f x else x) xs) =
         map (\<lambda>x. if p x then f x else x) (filter q xs)"
  by (induction xs) (auto simp: assms)

lemma insort_key_snoc_max: "k a \<le> k x \<Longrightarrow> insort_key k a (ys @ [x]) = insort_key k a ys @ [x]"
  by (induction ys) simp_all

lemma sort_key_snoc_max:
  "(\<And>y. y \<in> set xs \<Longrightarrow> k y \<le> k x) \<Longrightarrow> sort_key k (xs @ [x]) = sort_key k xs @ [x]"
  by (induction xs) (simp_all add: insort_key_snoc_max)

lemma sort_key_append_max:
  "sorted (map k ys) \<Longrightarrow> (\<And>x y. x \<in> set xs \<Longrightarrow> y \<in> set ys \<Longrightarrow> k x \<le> k y) \<Longrightarrow>
     sort_key k (xs @ ys) = sort_key k xs @ ys"
proof (induction ys rule: rev_induct)
  case (snoc y ys)
  have "sort_key k ((xs @ ys) @ [y]) = sort_key k (xs @ ys) @ [y]"
    using snoc.prems by (intro sort_key_snoc_max) (auto simp: sorted_append)
  with snoc show ?case by (auto simp: sorted_append)
qed simp

lemma for_each_filter:
  "for_each xs (\<lambda>x. if P x then f x else ret ()) = for_each (filter P xs) f"
  by (induction xs) simp_all

end
