(* ===== verification/Py_Values.thy ===== *)
theory Py_Values
  imports Nexa_Prelude "HOL-Library.Word" "HOL-Library.Char_ord" "HOL-Library.List_Lexorder"
    "HOL-Library.Product_Lexorder"
begin

section \<open>Python values used by NexaBot\<close>

text \<open>
  The language and standard-library values the source computes with.

  \<^item> \<open>str\<close> is \<open>string\<close>: each \<open>char\<close> stands for one code point in the range U+0000 to
    U+00FF, so \<open>length\<close> is Python's \<open>len\<close> on such texts.
  \<^item> \<open>pyval\<close> is what can sit in a metadata dictionary: JSON values, plus \<open>PObj\<close> for an
    object JSON cannot carry. A dictionary is an association list in insertion order.
  \<^item> \<open>datetime\<close> is a number of microseconds since the epoch, with or without a time zone
    (\<open>Utc\<close> and \<open>Naive\<close>); subtracting one kind from the other raises \<open>TypeError\<close>.
  \<^item> \<open>uuid\<close> is a UUID's 128-bit number. The String(36) columns hold its canonical text;
    \<open>uuid_str\<close> and \<open>uuid_parse\<close> are that text and its reading, and
    \<open>uuid_parse_str\<close> shows the two determine each other, which is why rows carry the
    \<open>uuid\<close> itself.
\<close>

subsection \<open>Strings\<close>

definition py_space :: "char \<Rightarrow> bool" where
  \<comment> \<open>\<open>str.isspace\<close> on U+0000 to U+00FF\<close>
  "py_space c = (let n = (of_char c :: nat) in
     9 \<le> n \<and> n \<le> 13 \<or> 28 \<le> n \<and> n \<le> 32 \<or> n = 133 \<or> n = 160)"

definition strip :: "string \<Rightarrow> string" where
  "strip s = rev (dropWhile py_space (rev (dropWhile py_space s)))"

definition blank :: "string \<Rightarrow> bool" where
  \<comment> \<open>\<open>not s.strip()\<close>\<close>
  "blank s = (strip s = [])"

fun split_ws_aux :: "string \<Rightarrow> string \<Rightarrow> string list" where
  "split_ws_aux acc [] = (if acc = [] then [] else [rev acc])"
| "split_ws_aux acc (c # cs) =
     (if py_space c then (if acc = [] then [] else [rev acc]) @ split_ws_aux [] cs
      else split_ws_aux (c # acc) cs)"

definition split_ws :: "string \<Rightarrow> string list" where
  \<comment> \<open>\<open>s.split()\<close>\<close>
  "split_ws s = split_ws_aux [] s"

lemma strip_Nil [simp]: "strip [] = []"
  by (simp add: strip_def)

lemma dropWhile_rev_dropWhile_Nil:
  "rev (dropWhile p (rev (dropWhile p s))) = [] \<longleftrightarrow> (\<forall>c \<in> set s. p c)"
proof -
  have "dropWhile p (rev (dropWhile p s)) = [] \<longleftrightarrow> (\<forall>c \<in> set (dropWhile p s). p c)"
    by (simp add: dropWhile_eq_Nil_conv)
  also have "\<dots> \<longleftrightarrow> (\<forall>c \<in> set s. p c)"
  proof (induction s)
    case (Cons c cs)
    then show ?case by (cases "p c") simp_all
  qed simp
  finally show ?thesis by (simp only: rev_is_Nil_conv)
qed

lemma blank_iff: "blank s \<longleftrightarrow> (\<forall>c \<in> set s. py_space c)"
  by (simp only: blank_def strip_def dropWhile_rev_dropWhile_Nil)

lemma length_strip: "length (strip s) \<le> length s"
proof -
  have "length (strip s) \<le> length (dropWhile py_space s)"
    unfolding strip_def by (metis length_dropWhile_le length_rev)
  also have "\<dots> \<le> length s" by (rule length_dropWhile_le)
  finally show ?thesis .
qed

lemma strip_id:
  assumes "s \<noteq> [] \<Longrightarrow> \<not> py_space (hd s)" and "s \<noteq> [] \<Longrightarrow> \<not> py_space (last s)"
  shows "strip s = s"
proof (cases s)
  case (Cons c cs)
  with assms(1) have 1: "dropWhile py_space s = s" by simp
  from assms(2) Cons have "dropWhile py_space (rev s) = rev s"
    by (cases "rev s") (auto simp: last_rev hd_rev simp flip: hd_rev)
  with 1 show ?thesis by (simp add: strip_def)
qed simp

lemma strip_ends:
  assumes "strip s \<noteq> []"
  shows "\<not> py_space (hd (strip s))" and "\<not> py_space (last (strip s))"
proof -
  let ?d = "dropWhile py_space s"
  let ?r = "dropWhile py_space (rev ?d)"
  have r: "?r \<noteq> []" using assms unfolding strip_def rev_is_Nil_conv .
  then show "\<not> py_space (last (strip s))"
    by (simp add: strip_def last_rev hd_dropWhile)
  have "?d \<noteq> []" using r by (metis dropWhile.simps(1) rev.simps(1))
  then have "\<not> py_space (hd ?d)" by (simp add: hd_dropWhile)
  moreover have "hd (strip s) = hd ?d"
  proof -
    obtain p where p: "rev ?d = p @ ?r"
      by (metis takeWhile_dropWhile_id)
    then have "?d = rev ?r @ rev p"
      by (metis rev_append rev_rev_ident)
    moreover have "rev ?r \<noteq> []" using r unfolding rev_is_Nil_conv .
    ultimately have "hd ?d = hd (rev ?r)" by (metis hd_append2)
    then show ?thesis by (simp only: strip_def)
  qed
  ultimately show "\<not> py_space (hd (strip s))" by simp
qed

lemma strip_strip [simp]: "strip (strip s) = strip s"
  by (rule strip_id) (auto dest: strip_ends)

lemma blank_strip [simp]: "blank (strip s) = blank s"
  by (simp add: blank_def)

lemma not_blank_Nil [simp]: "blank []"
  by (simp add: blank_def)

subsection \<open>Metadata values\<close>

datatype pyval =
    PNone
  | PBool bool
  | PInt int
  | PStr string
  | PList "pyval list"
  | PDict "(string \<times> pyval) list"
  | PObj string

type_synonym pydict = "(string \<times> pyval) list"

fun json_able :: "pyval \<Rightarrow> bool" where
  "json_able (PList vs) = (\<forall>v \<in> set vs. json_able v)"
| "json_able (PDict kvs) = (\<forall>kv \<in> set kvs. json_able (snd kv))"
| "json_able (PObj _) = False"
| "json_able _ = True"

definition json_dict :: "pydict \<Rightarrow> bool" where
  "json_dict d = json_able (PDict d)"

definition dict_or_empty :: "pydict option \<Rightarrow> pydict" where
  \<comment> \<open>\<open>metadata or {}\<close>\<close>
  "dict_or_empty m = (case m of None \<Rightarrow> [] | Some d \<Rightarrow> d)"

subsection \<open>Text of values: \<open>str(v)\<close> and \<open>repr(v)\<close>\<close>

fun decimal :: "nat \<Rightarrow> string" where
  "decimal n = (if n < 10 then [char_of (48 + n)] else decimal (n div 10) @ [char_of (48 + n mod 10)])"

definition py_int_str :: "int \<Rightarrow> string" where
  "py_int_str i = (if i < 0 then ''-'' @ decimal (nat (- i)) else decimal (nat i))"

definition hex2 :: "nat \<Rightarrow> string" where
  "hex2 n = [''0123456789abcdef'' ! (n div 16 mod 16), ''0123456789abcdef'' ! (n mod 16)]"

definition repr_char :: "char \<Rightarrow> char \<Rightarrow> string" where
  \<comment> \<open>one character inside a literal delimited by \<open>q\<close>\<close>
  "repr_char q c = (let n = of_char c :: nat; bs = char_of (92 :: nat) in
     if c = q \<or> n = 92 then [bs, c]
     else if n = 9 then bs # ''t''
     else if n = 10 then bs # ''n''
     else if n = 13 then bs # ''r''
     else if n < 32 \<or> 127 \<le> n \<and> n \<le> 160 \<or> n = 173 then bs # ''x'' @ hex2 n
     else [c])"

definition repr_str :: "string \<Rightarrow> string" where
  \<comment> \<open>double quotes only when the text has single quotes and no double ones\<close>
  "repr_str s = (let sq = char_of (39 :: nat); dq = char_of (34 :: nat);
                    q = (if sq \<in> set s \<and> dq \<notin> set s then dq else sq)
     in q # concat (map (repr_char q) s) @ [q])"

fun join :: "string \<Rightarrow> string list \<Rightarrow> string" where
  "join sep [] = []"
| "join sep [s] = s"
| "join sep (s # ss) = s @ sep @ join sep ss"

fun py_repr :: "pyval \<Rightarrow> string" where
  \<comment> \<open>the text of a \<open>PObj\<close> is its \<open>repr\<close>\<close>
  "py_repr PNone = ''None''"
| "py_repr (PBool b) = (if b then ''True'' else ''False'')"
| "py_repr (PInt i) = py_int_str i"
| "py_repr (PStr s) = repr_str s"
| "py_repr (PList vs) = ''['' @ join '', '' (map py_repr vs) @ '']''"
| "py_repr (PDict kvs) =
     ''{'' @ join '', '' (map (\<lambda>kv. repr_str (fst kv) @ '': '' @ py_repr (snd kv)) kvs) @ ''}''"
| "py_repr (PObj t) = t"

fun py_str :: "pyval \<Rightarrow> string" where
  "py_str (PStr s) = s"
| "py_str v = py_repr v"

lemma json_dict_simps [simp]:
  "json_dict []"
  "json_dict ((k, v) # d) \<longleftrightarrow> json_able v \<and> json_dict d"
  by (auto simp: json_dict_def)

subsection \<open>Timestamps\<close>

datatype datetime = Naive int | Utc int

fun instant :: "datetime \<Rightarrow> int" where
  "instant (Naive t) = t"
| "instant (Utc t) = t"

fun aware :: "datetime \<Rightarrow> bool" where
  "aware (Naive t) = False"
| "aware (Utc t) = True"

text \<open>The order of a timestamp column: by instant (and, to be total, naive first).\<close>

instantiation datetime :: linorder
begin

definition less_eq_datetime :: "datetime \<Rightarrow> datetime \<Rightarrow> bool" where
  "s \<le> t \<longleftrightarrow> instant s < instant t \<or> instant s = instant t \<and> (aware s \<longrightarrow> aware t)"

definition less_datetime :: "datetime \<Rightarrow> datetime \<Rightarrow> bool" where
  "s < t \<longleftrightarrow> s \<le> t \<and> \<not> t \<le> (s :: datetime)"

instance
proof
  fix x y z :: datetime
  show "x < y \<longleftrightarrow> x \<le> y \<and> \<not> y \<le> x" by (simp add: less_datetime_def)
  show "x \<le> x" by (simp add: less_eq_datetime_def)
  show "x \<le> y \<Longrightarrow> y \<le> z \<Longrightarrow> x \<le> z" by (auto simp: less_eq_datetime_def)
  show "x \<le> y \<Longrightarrow> y \<le> x \<Longrightarrow> x = y"
    by (cases x; cases y) (auto simp: less_eq_datetime_def)
  show "x \<le> y \<or> y \<le> x" by (auto simp: less_eq_datetime_def)
qed

end

lemma Utc_le_iff [simp]: "Utc s \<le> Utc t \<longleftrightarrow> s \<le> t"
  by (auto simp: less_eq_datetime_def)

lemma Utc_less_iff [simp]: "Utc s < Utc t \<longleftrightarrow> s < t"
  by (auto simp: less_datetime_def)

lemma Naive_le_iff [simp]: "Naive s \<le> Naive t \<longleftrightarrow> s \<le> t"
  by (auto simp: less_eq_datetime_def)

lemma Naive_less_iff [simp]: "Naive s < Naive t \<longleftrightarrow> s < t"
  by (auto simp: less_datetime_def)

subsection \<open>UUIDs and their text\<close>

type_synonym uuid = "128 word"

definition hex_chars :: string where
  "hex_chars = ''0123456789abcdef''"

fun hex_digits :: "nat \<Rightarrow> nat \<Rightarrow> string" where
  \<comment> \<open>the \<open>k\<close> low hexadecimal digits of \<open>n\<close>, most significant first: \<open>'%0kx' % n\<close>\<close>
  "hex_digits 0 n = []"
| "hex_digits (Suc k) n = hex_digits k (n div 16) @ [hex_chars ! (n mod 16)]"

definition uuid_str :: "uuid \<Rightarrow> string" where
  "uuid_str u = (let h = hex_digits 32 (unat u) in
     take 8 h @ ''-'' @ take 4 (drop 8 h) @ ''-'' @ take 4 (drop 12 h) @ ''-'' @
     take 4 (drop 16 h) @ ''-'' @ drop 20 h)"

definition hex_value :: "char \<Rightarrow> nat option" where
  "hex_value c = (let n = of_char c in
     if 48 \<le> n \<and> n \<le> 57 then Some (n - 48)
     else if 97 \<le> n \<and> n \<le> 102 then Some (n - 87)
     else if 65 \<le> n \<and> n \<le> 70 then Some (n - 55)
     else None)"

fun hex_read :: "nat \<Rightarrow> string \<Rightarrow> nat option" where
  "hex_read acc [] = Some acc"
| "hex_read acc (c # cs) =
     (case hex_value c of None \<Rightarrow> None | Some d \<Rightarrow> hex_read (16 * acc + d) cs)"

definition uuid_parse :: "string \<Rightarrow> uuid option" where
  \<comment> \<open>\<open>UUID(s)\<close> on texts made of hexadecimal digits and dashes; \<open>None\<close> is \<open>ValueError\<close>\<close>
  "uuid_parse s = (let h = filter (\<lambda>c. c \<noteq> CHR ''-'') s in
     if length h = 32 then map_option word_of_nat (hex_read 0 h) else None)"

lemma length_hex_digits [simp]: "length (hex_digits k n) = k"
  by (induction k arbitrary: n) auto

lemma less_16_cases:
  "(d :: nat) < 16 \<Longrightarrow> d \<in> {0, 1, 2, 3, 4, 5, 6, 7, 8, 9, 10, 11, 12, 13, 14, 15}"
  by (simp add: numeral_eq_Suc less_Suc_eq)

lemma hex_value_char: "d < 16 \<Longrightarrow> hex_value (hex_chars ! d) = Some d"
  by (drule less_16_cases) (auto simp: hex_value_def hex_chars_def)

lemma hex_char_no_dash: "d < 16 \<Longrightarrow> hex_chars ! d \<noteq> CHR ''-''"
  by (drule less_16_cases) (auto simp: hex_chars_def)

lemma hex_read_append:
  "hex_read acc (xs @ ys) = Option.bind (hex_read acc xs) (\<lambda>a. hex_read a ys)"
  by (induction xs arbitrary: acc) (auto split: option.splits)

lemma hex_read_digits: "n < 16 ^ k \<Longrightarrow> hex_read acc (hex_digits k n) = Some (acc * 16 ^ k + n)"
proof (induction k arbitrary: n acc)
  case 0
  then show ?case by simp
next
  case (Suc k)
  from Suc.prems have "n div 16 < 16 ^ k" by (simp add: less_mult_imp_div_less mult.commute)
  from Suc.IH [OF this] show ?case
    by (simp add: hex_read_append hex_value_char algebra_simps)
qed

lemma hex_digits_no_dash: "CHR ''-'' \<notin> set (hex_digits k n)"
proof (induction k arbitrary: n)
  case (Suc k)
  have "hex_chars ! (n mod 16) \<noteq> CHR ''-''" by (rule hex_char_no_dash) simp
  with Suc show ?case by simp
qed simp

lemma uuid_str_digits: "filter (\<lambda>c. c \<noteq> CHR ''-'') (uuid_str u) = hex_digits 32 (unat u)"
proof -
  let ?h = "hex_digits 32 (unat u)"
  have cut: "drop a ?h = take b (drop a ?h) @ drop (a + b) ?h" for a b
    by (metis add.commute append_take_drop_id drop_drop)
  have parts: "?h = take 8 ?h @ take 4 (drop 8 ?h) @ take 4 (drop 12 ?h) @
      take 4 (drop 16 ?h) @ drop 20 ?h"
    using cut [of 0 8] cut [of 8 4] cut [of 12 4] cut [of 16 4] by simp
  have keep: "filter (\<lambda>c. c \<noteq> CHR ''-'') xs = xs" if "set xs \<subseteq> set ?h" for xs
    using that hex_digits_no_dash [of 32 "unat u"] by (intro filter_True) blast
  have sub: "set (take a (drop b ?h)) \<subseteq> set ?h" "set (take a ?h) \<subseteq> set ?h"
    "set (drop a ?h) \<subseteq> set ?h" for a b
    by (meson in_set_takeD in_set_dropD subsetI)+
  have "filter (\<lambda>c. c \<noteq> CHR ''-'') (uuid_str u) = take 8 ?h @ take 4 (drop 8 ?h) @
      take 4 (drop 12 ?h) @ take 4 (drop 16 ?h) @ drop 20 ?h"
    by (simp add: uuid_str_def Let_def keep sub del: hex_digits.simps)
  with parts show ?thesis by simp
qed

lemma uuid_parse_str: "uuid_parse (uuid_str u) = Some u"
proof -
  have "unat u < 16 ^ 32" using unsigned_less [of u] by simp
  from hex_read_digits [OF this, of 0] show ?thesis
    by (simp add: uuid_parse_def Let_def uuid_str_digits)
qed

lemma uuid_str_inj: "uuid_str u = uuid_str v \<Longrightarrow> u = v"
  by (metis option.inject uuid_parse_str)

end
