(* ===== verification/Errors.thy ===== *)
theory Errors
  imports Py_Values
begin

section \<open>The error taxonomy (domain/common/errors.py)\<close>

text \<open>
  \<open>nexabot_error\<close> is an instance of \<open>NexaBotError\<close> or of one of its subclasses;
  \<open>err_class\<close> is the class it was built as, which is what an \<open>except\<close> clause tests.
  Each subclass constructor of the source is one definition: the category, the HTTP status
  and, for most classes, the retryable flag are fixed by the class. The default codes are
  the ones of the source's keyword arguments.

  \<open>exn\<close> is everything that can be raised through the modelled code: a domain error, a
  SQLAlchemy error of one of the three classes the source tells apart (with its text),
  \<open>TimeoutError\<close>, any other \<open>Exception\<close> (class name and text), or
  \<open>CancelledError\<close>, which in Python is a \<open>BaseException\<close> and no \<open>Exception\<close>.
\<close>

datatype error_category =
    CatValidation | CatAuthorization | CatNotFound | CatConflict | CatRateLimit
  | CatExternalService | CatTaskExecution | CatAgentExecution | CatStorage
  | CatConfiguration | CatInternal

fun category_value :: "error_category \<Rightarrow> string" where
  "category_value CatValidation = ''validation''"
| "category_value CatAuthorization = ''authorization''"
| "category_value CatNotFound = ''not_found''"
| "category_value CatConflict = ''conflict''"
| "category_value CatRateLimit = ''rate_limit''"
| "category_value CatExternalService = ''external_service''"
| "category_value CatTaskExecution = ''task_execution''"
| "category_value CatAgentExecution = ''agent_execution''"
| "category_value CatStorage = ''storage''"
| "category_value CatConfiguration = ''configuration''"
| "category_value CatInternal = ''internal''"

datatype error_class =
    ClsNexaBot | ClsValidation | ClsAuthorization | ClsNotFound | ClsConflict | ClsRateLimit
  | ClsExternalService | ClsTaskExecution | ClsAgentExecution | ClsStorage | ClsConfiguration

record nexabot_error =
  err_class :: error_class
  err_code :: string
  safe_message :: string
  category :: error_category
  retryable :: bool
  http_status :: int
  details :: pydict

definition ValidationError :: "string \<Rightarrow> string \<Rightarrow> pydict \<Rightarrow> nexabot_error" where
  "ValidationError msg c ds = \<lparr>err_class = ClsValidation, err_code = c, safe_message = msg,
     category = CatValidation, retryable = False, http_status = 400, details = ds\<rparr>"

definition AuthorizationError :: "string \<Rightarrow> string \<Rightarrow> pydict \<Rightarrow> nexabot_error" where
  "AuthorizationError msg c ds = \<lparr>err_class = ClsAuthorization, err_code = c,
     safe_message = msg, category = CatAuthorization, retryable = False, http_status = 403,
     details = ds\<rparr>"

definition NotFoundError :: "string \<Rightarrow> string \<Rightarrow> pydict \<Rightarrow> nexabot_error" where
  "NotFoundError msg c ds = \<lparr>err_class = ClsNotFound, err_code = c, safe_message = msg,
     category = CatNotFound, retryable = False, http_status = 404, details = ds\<rparr>"

definition ConflictError :: "string \<Rightarrow> string \<Rightarrow> pydict \<Rightarrow> nexabot_error" where
  "ConflictError msg c ds = \<lparr>err_class = ClsConflict, err_code = c, safe_message = msg,
     category = CatConflict, retryable = False, http_status = 409, details = ds\<rparr>"

definition RateLimitError :: "string \<Rightarrow> string \<Rightarrow> pydict \<Rightarrow> nexabot_error" where
  "RateLimitError msg c ds = \<lparr>err_class = ClsRateLimit, err_code = c, safe_message = msg,
     category = CatRateLimit, retryable = True, http_status = 429, details = ds\<rparr>"

definition ExternalServiceError :: "string \<Rightarrow> string \<Rightarrow> bool \<Rightarrow> pydict \<Rightarrow> nexabot_error" where
  "ExternalServiceError msg c rt ds = \<lparr>err_class = ClsExternalService, err_code = c,
     safe_message = msg, category = CatExternalService, retryable = rt, http_status = 502,
     details = ds\<rparr>"

definition TaskExecutionError :: "string \<Rightarrow> string \<Rightarrow> bool \<Rightarrow> pydict \<Rightarrow> nexabot_error" where
  "TaskExecutionError msg c rt ds = \<lparr>err_class = ClsTaskExecution, err_code = c,
     safe_message = msg, category = CatTaskExecution, retryable = rt, http_status = 500,
     details = ds\<rparr>"

definition AgentExecutionError :: "string \<Rightarrow> string \<Rightarrow> bool \<Rightarrow> pydict \<Rightarrow> nexabot_error" where
  "AgentExecutionError msg c rt ds = \<lparr>err_class = ClsAgentExecution, err_code = c,
     safe_message = msg, category = CatAgentExecution, retryable = rt, http_status = 500,
     details = ds\<rparr>"

definition StorageError :: "string \<Rightarrow> string \<Rightarrow> bool \<Rightarrow> pydict \<Rightarrow> nexabot_error" where
  "StorageError msg c rt ds = \<lparr>err_class = ClsStorage, err_code = c, safe_message = msg,
     category = CatStorage, retryable = rt, http_status = 500, details = ds\<rparr>"

definition ConfigurationError :: "string \<Rightarrow> string \<Rightarrow> pydict \<Rightarrow> nexabot_error" where
  "ConfigurationError msg c ds = \<lparr>err_class = ClsConfiguration, err_code = c,
     safe_message = msg, category = CatConfiguration, retryable = False, http_status = 500,
     details = ds\<rparr>"

text \<open>The default codes of the constructors whose callers in the source rely on them.\<close>

definition default_validation_code :: string where
  "default_validation_code = ''validation_error''"

lemmas error_defs = ValidationError_def AuthorizationError_def NotFoundError_def
  ConflictError_def RateLimitError_def ExternalServiceError_def TaskExecutionError_def
  AgentExecutionError_def StorageError_def ConfigurationError_def

subsection \<open>The payload that leaves the process\<close>

definition to_safe_dict :: "nexabot_error \<Rightarrow> pydict" where
  "to_safe_dict e =
     [(''error'', PDict (
        [(''code'', PStr (err_code e)),
         (''message'', PStr (safe_message e)),
         (''category'', PStr (category_value (category e))),
         (''retryable'', PBool (retryable e))]
        @ (if details e \<noteq> [] then [(''details'', PDict (details e))] else [])))]"

subsection \<open>Everything that can be raised\<close>

datatype sql_class = IntegrityE | DBAPIE | SQLAlchemyE

datatype exn =
    Nexa nexabot_error
  | Sql sql_class string
  | TimeoutExn
  | PyExn string string
  | Cancelled

fun is_exception :: "exn \<Rightarrow> bool" where
  \<comment> \<open>\<open>isinstance(exc, Exception)\<close>: \<open>except Exception\<close> lets \<open>CancelledError\<close> pass\<close>
  "is_exception Cancelled = False"
| "is_exception _ = True"

fun is_conflict :: "exn \<Rightarrow> bool" where
  \<comment> \<open>\<open>except ConflictError\<close>\<close>
  "is_conflict (Nexa e) = (err_class e = ClsConflict)"
| "is_conflict _ = False"

fun is_sqlalchemy_error :: "exn \<Rightarrow> bool" where
  \<comment> \<open>\<open>isinstance(exc, SQLAlchemyError)\<close>\<close>
  "is_sqlalchemy_error (Sql _ _) = True"
| "is_sqlalchemy_error _ = False"

fun is_integrity_error :: "exn \<Rightarrow> bool" where
  "is_integrity_error (Sql IntegrityE _) = True"
| "is_integrity_error _ = False"

fun exn_type_name :: "exn \<Rightarrow> string" where
  \<comment> \<open>\<open>type(exc).__name__\<close> of an exception outside the taxonomy\<close>
  "exn_type_name (Nexa _) = ''NexaBotError''"
| "exn_type_name (Sql IntegrityE _) = ''IntegrityError''"
| "exn_type_name (Sql DBAPIE _) = ''DBAPIError''"
| "exn_type_name (Sql SQLAlchemyE _) = ''SQLAlchemyError''"
| "exn_type_name TimeoutExn = ''TimeoutError''"
| "exn_type_name (PyExn n _) = n"
| "exn_type_name Cancelled = ''CancelledError''"

abbreviation raise_validation :: "string \<Rightarrow> string \<Rightarrow> pydict \<Rightarrow> exn" where
  "raise_validation msg c ds \<equiv> Nexa (ValidationError msg c ds)"

abbreviation raise_conflict :: "string \<Rightarrow> string \<Rightarrow> pydict \<Rightarrow> exn" where
  "raise_conflict msg c ds \<equiv> Nexa (ConflictError msg c ds)"

abbreviation raise_not_found :: "string \<Rightarrow> string \<Rightarrow> exn" where
  "raise_not_found msg c \<equiv> Nexa (NotFoundError msg c [])"

definition value_error :: "string \<Rightarrow> exn" where
  "value_error t = PyExn ''ValueError'' t"

definition enum_call :: "'e list \<Rightarrow> ('e \<Rightarrow> string) \<Rightarrow> string \<Rightarrow> exn + 'e" where
  \<comment> \<open>\<open>SomeStrEnum(s)\<close>\<close>
  "enum_call members val s =
     (case enum_find members val s of None \<Rightarrow> Inl (value_error s) | Some e \<Rightarrow> Inr e)"

definition datetime_sub :: "datetime \<Rightarrow> datetime \<Rightarrow> exn + int" where
  \<comment> \<open>\<open>s - t\<close> in microseconds\<close>
  "datetime_sub s t =
     (if aware s = aware t then Inr (instant s - instant t)
      else Inl (PyExn ''TypeError'' ''can't subtract offset-naive and offset-aware datetimes''))"

lemma datetime_sub_Utc [simp]: "datetime_sub (Utc s) (Utc t) = Inr (s - t)"
  by (simp add: datetime_sub_def)

subsection \<open>What every error of the taxonomy satisfies\<close>

fun class_status :: "error_class \<Rightarrow> int option" where
  "class_status ClsValidation = Some 400"
| "class_status ClsAuthorization = Some 403"
| "class_status ClsNotFound = Some 404"
| "class_status ClsConflict = Some 409"
| "class_status ClsRateLimit = Some 429"
| "class_status ClsExternalService = Some 502"
| "class_status ClsNexaBot = None"
| "class_status _ = Some 500"

lemma constructor_status:
  "class_status (err_class (ValidationError m c d)) = Some (http_status (ValidationError m c d))"
  "class_status (err_class (AuthorizationError m c d)) = Some (http_status (AuthorizationError m c d))"
  "class_status (err_class (NotFoundError m c d)) = Some (http_status (NotFoundError m c d))"
  "class_status (err_class (ConflictError m c d)) = Some (http_status (ConflictError m c d))"
  "class_status (err_class (RateLimitError m c d)) = Some (http_status (RateLimitError m c d))"
  "class_status (err_class (ExternalServiceError m c r d)) = Some (http_status (ExternalServiceError m c r d))"
  "class_status (err_class (TaskExecutionError m c r d)) = Some (http_status (TaskExecutionError m c r d))"
  "class_status (err_class (AgentExecutionError m c r d)) = Some (http_status (AgentExecutionError m c r d))"
  "class_status (err_class (StorageError m c r d)) = Some (http_status (StorageError m c r d))"
  "class_status (err_class (ConfigurationError m c d)) = Some (http_status (ConfigurationError m c d))"
  by (simp_all add: error_defs)

lemma constructor_class [simp]:
  "err_class (ValidationError m c d) = ClsValidation"
  "err_class (AuthorizationError m c d) = ClsAuthorization"
  "err_class (NotFoundError m c d) = ClsNotFound"
  "err_class (ConflictError m c d) = ClsConflict"
  "err_class (ExternalServiceError m c r d) = ClsExternalService"
  "err_class (AgentExecutionError m c r d) = ClsAgentExecution"
  by (simp_all add: error_defs)

lemma constructor_message [simp]:
  "safe_message (ValidationError m c d) = m"
  "safe_message (AuthorizationError m c d) = m"
  "safe_message (NotFoundError m c d) = m"
  "safe_message (ConflictError m c d) = m"
  "safe_message (ExternalServiceError m c r d) = m"
  "safe_message (AgentExecutionError m c r d) = m"
  by (simp_all add: error_defs)

end
