(* ===== verification/Schema.thy ===== *)
theory Schema
  imports Errors
begin

section \<open>The relational schema (infrastructure/database/models.py)\<close>

text \<open>
  The tables the repositories read and write, one record per ORM class, one list of rows
  per table in insertion order. String(36) identifier columns hold \<open>uuid\<close>s (see
  \<open>Py_Values\<close>), enumeration columns hold their text, as in the source. The
  \<open>created_at\<close>/\<open>updated_at\<close> columns appear where some repository reads them.

  A CHECK constraint is a predicate on a row (\<open>_check\<close>), and inserting or updating raises
  \<open>IntegrityError\<close> when a CHECK, a primary key, a unique key or (on a backend that enforces
  them, \<open>fk\<close>) a foreign key would be violated. A JSON column refuses a value JSON cannot
  carry before the statement is sent (SQLAlchemy's \<open>StatementError\<close>).

  \<open>db_change\<close> is the relation of all single changes the repositories can make, and
  \<open>valid_db\<close> what the schema declares; the locale \<open>db_invariant\<close> is the interface
  between the two: a predicate that every change keeps.
\<close>

subsection \<open>Rows\<close>

record user_row =
  ur_id :: uuid
  ur_status :: string
  ur_created_at :: datetime
  ur_updated_at :: datetime

record telegram_row =
  tr_id :: uuid
  tr_user_id :: uuid
  tr_telegram_user_id :: int
  tr_username :: "string option"
  tr_first_name :: "string option"
  tr_last_name :: "string option"

record role_row =
  rr_id :: uuid
  rr_name :: string

record permission_row =
  pr_id :: uuid
  pr_namespace :: string
  pr_action :: string

record conversation_row =
  cr_id :: uuid
  cr_owner_id :: uuid
  cr_status :: string
  cr_title :: "string option"
  cr_meta :: pydict
  cr_created_at :: datetime
  cr_updated_at :: datetime

record message_row =
  mr_id :: uuid
  mr_conversation_id :: uuid
  mr_role :: string
  mr_content :: string
  mr_meta :: pydict
  mr_created_at :: datetime

record agent_run_row =
  ar_id :: uuid
  ar_user_id :: uuid
  ar_conversation_id :: uuid
  ar_status :: string
  ar_provider :: string
  ar_model :: string
  ar_started_at :: "datetime option"
  ar_finished_at :: "datetime option"
  ar_failure_reason :: "string option"
  ar_final_response :: "string option"
  ar_usage_metadata :: pydict
  ar_max_steps :: int
  ar_max_tool_calls :: int
  ar_max_retries :: int
  ar_max_execution_seconds :: int
  ar_max_context_tokens :: int

record agent_step_row =
  sr_id :: uuid
  sr_run_id :: uuid
  sr_index :: int
  sr_type :: string
  sr_meta :: pydict
  sr_created_at :: datetime

record idempotency_row =
  ir_id :: uuid
  ir_namespace :: string
  ir_key :: string
  ir_state :: string
  ir_result :: pydict
  ir_claimed_at :: datetime
  ir_claim_token :: uuid

record db =
  tbl_users :: "user_row list"
  tbl_telegram :: "telegram_row list"
  tbl_roles :: "role_row list"
  tbl_permissions :: "permission_row list"
  tbl_user_roles :: "(uuid \<times> uuid) list"
  tbl_role_permissions :: "(uuid \<times> uuid) list"
  tbl_conversations :: "conversation_row list"
  tbl_messages :: "message_row list"
  tbl_runs :: "agent_run_row list"
  tbl_steps :: "agent_step_row list"
  tbl_idem :: "idempotency_row list"

definition empty_db :: db where
  "empty_db = \<lparr>tbl_users = [], tbl_telegram = [], tbl_roles = [], tbl_permissions = [],
     tbl_user_roles = [], tbl_role_permissions = [], tbl_conversations = [], tbl_messages = [],
     tbl_runs = [], tbl_steps = [], tbl_idem = []\<rparr>"

subsection \<open>CHECK constraints\<close>

definition user_check :: "user_row \<Rightarrow> bool" where
  "user_check r \<longleftrightarrow> ur_status r \<in> {''active'', ''banned'', ''disabled''}"

definition conversation_check :: "conversation_row \<Rightarrow> bool" where
  "conversation_check r \<longleftrightarrow> cr_status r \<in> {''active'', ''archived'', ''deleted''}"

definition message_check :: "message_row \<Rightarrow> bool" where
  "message_check r \<longleftrightarrow>
     mr_role r \<in> {''system'', ''user'', ''assistant'', ''tool''} \<and> mr_content r \<noteq> []"

definition agent_run_check :: "agent_run_row \<Rightarrow> bool" where
  "agent_run_check r \<longleftrightarrow>
     ar_status r \<in> {''pending'', ''running'', ''succeeded'', ''failed'', ''cancelled''} \<and>
     (ar_max_steps r > 0 \<and> ar_max_tool_calls r > 0 \<and> ar_max_retries r > 0 \<and>
      ar_max_execution_seconds r > 0 \<and> ar_max_context_tokens r > 0) \<and>
     (ar_status r \<notin> {''succeeded'', ''failed'', ''cancelled''} \<or> ar_finished_at r \<noteq> None) \<and>
     (ar_status r \<noteq> ''succeeded'' \<or> ar_final_response r \<noteq> None) \<and>
     (ar_status r \<noteq> ''failed'' \<or> ar_failure_reason r \<noteq> None)"

definition agent_step_check :: "agent_step_row \<Rightarrow> bool" where
  "agent_step_check r \<longleftrightarrow> sr_index r \<ge> 1"

definition idempotency_check :: "idempotency_row \<Rightarrow> bool" where
  "idempotency_check r \<longleftrightarrow> ir_state r \<in> {''started'', ''completed'', ''failed''}"

subsection \<open>Changing a table\<close>

type_synonym 'a stmt = "db \<Rightarrow> exn + 'a \<times> db"

definition integrity_error :: exn where
  "integrity_error = Sql IntegrityE ''constraint violated''"

definition not_serializable :: exn where
  "not_serializable = Sql SQLAlchemyE ''value is not JSON serializable''"

definition guarded :: "pydict \<Rightarrow> bool \<Rightarrow> db \<Rightarrow> exn + unit \<times> db" where
  \<comment> \<open>the new table contents \<open>d\<close>, unless the JSON column or a constraint refuses\<close>
  "guarded json ok d =
     (if \<not> json_dict json then Inl not_serializable
      else if \<not> ok then Inl integrity_error
      else Inr ((), d))"

definition insert_user :: "user_row \<Rightarrow> unit stmt" where
  "insert_user r d = guarded []
     (user_check r \<and> ur_id r \<notin> ur_id ` set (tbl_users d))
     (d\<lparr>tbl_users := tbl_users d @ [r]\<rparr>)"

definition insert_telegram :: "bool \<Rightarrow> telegram_row \<Rightarrow> unit stmt" where
  \<comment> \<open>unique \<open>telegram_user_id\<close>, unique \<open>user_id\<close>\<close>
  "insert_telegram fk r d = guarded []
     (tr_id r \<notin> tr_id ` set (tbl_telegram d) \<and>
      tr_telegram_user_id r \<notin> tr_telegram_user_id ` set (tbl_telegram d) \<and>
      tr_user_id r \<notin> tr_user_id ` set (tbl_telegram d) \<and>
      (fk \<longrightarrow> tr_user_id r \<in> ur_id ` set (tbl_users d)))
     (d\<lparr>tbl_telegram := tbl_telegram d @ [r]\<rparr>)"

definition insert_conversation :: "bool \<Rightarrow> conversation_row \<Rightarrow> unit stmt" where
  "insert_conversation fk r d = guarded (cr_meta r)
     (conversation_check r \<and> cr_id r \<notin> cr_id ` set (tbl_conversations d) \<and>
      (fk \<longrightarrow> cr_owner_id r \<in> ur_id ` set (tbl_users d)))
     (d\<lparr>tbl_conversations := tbl_conversations d @ [r]\<rparr>)"

definition insert_message :: "bool \<Rightarrow> message_row \<Rightarrow> unit stmt" where
  "insert_message fk r d = guarded (mr_meta r)
     (message_check r \<and> mr_id r \<notin> mr_id ` set (tbl_messages d) \<and>
      (fk \<longrightarrow> mr_conversation_id r \<in> cr_id ` set (tbl_conversations d)))
     (d\<lparr>tbl_messages := tbl_messages d @ [r]\<rparr>)"

definition insert_run :: "bool \<Rightarrow> agent_run_row \<Rightarrow> unit stmt" where
  "insert_run fk r d = guarded (ar_usage_metadata r)
     (agent_run_check r \<and> ar_id r \<notin> ar_id ` set (tbl_runs d) \<and>
      (fk \<longrightarrow> ar_user_id r \<in> ur_id ` set (tbl_users d) \<and>
             ar_conversation_id r \<in> cr_id ` set (tbl_conversations d)))
     (d\<lparr>tbl_runs := tbl_runs d @ [r]\<rparr>)"

definition insert_step :: "bool \<Rightarrow> agent_step_row \<Rightarrow> unit stmt" where
  \<comment> \<open>unique \<open>(run_id, index)\<close>\<close>
  "insert_step fk r d = guarded (sr_meta r)
     (agent_step_check r \<and> sr_id r \<notin> sr_id ` set (tbl_steps d) \<and>
      (sr_run_id r, sr_index r) \<notin> (\<lambda>s. (sr_run_id s, sr_index s)) ` set (tbl_steps d) \<and>
      (fk \<longrightarrow> sr_run_id r \<in> ar_id ` set (tbl_runs d)))
     (d\<lparr>tbl_steps := tbl_steps d @ [r]\<rparr>)"

definition insert_idem :: "idempotency_row \<Rightarrow> unit stmt" where
  \<comment> \<open>unique \<open>(namespace, key)\<close>\<close>
  "insert_idem r d = guarded (ir_result r)
     (idempotency_check r \<and> ir_id r \<notin> ir_id ` set (tbl_idem d) \<and>
      (ir_namespace r, ir_key r) \<notin> (\<lambda>s. (ir_namespace s, ir_key s)) ` set (tbl_idem d))
     (d\<lparr>tbl_idem := tbl_idem d @ [r]\<rparr>)"

definition insert_role :: "role_row \<Rightarrow> unit stmt" where
  "insert_role r d = guarded []
     (rr_id r \<notin> rr_id ` set (tbl_roles d) \<and> rr_name r \<notin> rr_name ` set (tbl_roles d))
     (d\<lparr>tbl_roles := tbl_roles d @ [r]\<rparr>)"

definition insert_permission :: "permission_row \<Rightarrow> unit stmt" where
  \<comment> \<open>unique \<open>(namespace, action)\<close>\<close>
  "insert_permission r d = guarded []
     (pr_id r \<notin> pr_id ` set (tbl_permissions d) \<and>
      (pr_namespace r, pr_action r) \<notin>
        (\<lambda>p. (pr_namespace p, pr_action p)) ` set (tbl_permissions d))
     (d\<lparr>tbl_permissions := tbl_permissions d @ [r]\<rparr>)"

definition link_user_role :: "bool \<Rightarrow> uuid \<Rightarrow> uuid \<Rightarrow> unit stmt" where
  "link_user_role fk u r d = guarded []
     ((u, r) \<notin> set (tbl_user_roles d) \<and>
      (fk \<longrightarrow> u \<in> ur_id ` set (tbl_users d) \<and> r \<in> rr_id ` set (tbl_roles d)))
     (d\<lparr>tbl_user_roles := tbl_user_roles d @ [(u, r)]\<rparr>)"

definition unlink_user_roles :: "uuid \<Rightarrow> unit stmt" where
  "unlink_user_roles u d =
     Inr ((), d\<lparr>tbl_user_roles := filter (\<lambda>(u', r). u' \<noteq> u) (tbl_user_roles d)\<rparr>)"

definition link_role_permission :: "bool \<Rightarrow> uuid \<Rightarrow> uuid \<Rightarrow> unit stmt" where
  "link_role_permission fk r p d = guarded []
     ((r, p) \<notin> set (tbl_role_permissions d) \<and>
      (fk \<longrightarrow> r \<in> rr_id ` set (tbl_roles d) \<and> p \<in> pr_id ` set (tbl_permissions d)))
     (d\<lparr>tbl_role_permissions := tbl_role_permissions d @ [(r, p)]\<rparr>)"

definition update_where :: "('r \<Rightarrow> bool) \<Rightarrow> ('r \<Rightarrow> 'r) \<Rightarrow> 'r list \<Rightarrow> 'r list" where
  \<comment> \<open>\<open>UPDATE ... SET f WHERE p\<close>\<close>
  "update_where p f rows = map (\<lambda>r. if p r then f r else r) rows"

definition update_run :: "uuid \<Rightarrow> (agent_run_row \<Rightarrow> agent_run_row) \<Rightarrow> pydict \<Rightarrow> unit stmt" where
  \<comment> \<open>the UPDATE by primary key the session emits for a changed agent run; \<open>json\<close> is the
    new usage metadata\<close>
  "update_run i f json d =
     (let rows = update_where (\<lambda>r. ar_id r = i) f (tbl_runs d) in
      guarded json (\<forall>r \<in> set rows. agent_run_check r) (d\<lparr>tbl_runs := rows\<rparr>))"

definition update_conversation ::
  "uuid \<Rightarrow> (conversation_row \<Rightarrow> conversation_row) \<Rightarrow> pydict \<Rightarrow> unit stmt" where
  "update_conversation i f json d =
     (let rows = update_where (\<lambda>r. cr_id r = i) f (tbl_conversations d) in
      guarded json (\<forall>r \<in> set rows. conversation_check r) (d\<lparr>tbl_conversations := rows\<rparr>))"

definition update_user :: "uuid \<Rightarrow> (user_row \<Rightarrow> user_row) \<Rightarrow> unit stmt" where
  "update_user i f d =
     (let rows = update_where (\<lambda>r. ur_id r = i) f (tbl_users d) in
      guarded [] (\<forall>r \<in> set rows. user_check r) (d\<lparr>tbl_users := rows\<rparr>))"

definition update_telegram :: "uuid \<Rightarrow> (telegram_row \<Rightarrow> telegram_row) \<Rightarrow> unit stmt" where
  "update_telegram i f d =
     (let rows = update_where (\<lambda>r. tr_id r = i) f (tbl_telegram d) in
      guarded [] (distinct (map tr_telegram_user_id rows)) (d\<lparr>tbl_telegram := rows\<rparr>))"

definition update_idem ::
  "(idempotency_row \<Rightarrow> bool) \<Rightarrow> (idempotency_row \<Rightarrow> idempotency_row) \<Rightarrow> pydict \<Rightarrow> nat stmt" where
  \<comment> \<open>a conditional UPDATE; its value is the \<open>rowcount\<close>\<close>
  "update_idem p f json d =
     (let rows = update_where p f (tbl_idem d) in
      if \<not> json_dict json then Inl not_serializable
      else if \<not> (\<forall>r \<in> set rows. idempotency_check r) then Inl integrity_error
      else Inr (length (filter p (tbl_idem d)), d\<lparr>tbl_idem := rows\<rparr>))"

definition query :: "(db \<Rightarrow> 'a) \<Rightarrow> 'a stmt" where
  \<comment> \<open>a SELECT\<close>
  "query q d = Inr (q d, d)"

definition scalar_one_or_none :: "'a list \<Rightarrow> exn + 'a option" where
  \<comment> \<open>\<open>Result.scalar_one_or_none()\<close>: more than one row raises \<open>MultipleResultsFound\<close>\<close>
  "scalar_one_or_none rows =
     (case rows of [] \<Rightarrow> Inr None | [r] \<Rightarrow> Inr (Some r)
      | _ \<Rightarrow> Inl (Sql SQLAlchemyE ''Multiple rows were found when one or none was required''))"

lemma guarded_Inr_iff: "guarded json ok d = Inr x \<longleftrightarrow> json_dict json \<and> ok \<and> x = ((), d)"
  by (auto simp: guarded_def)

lemmas insert_defs = insert_user_def insert_telegram_def insert_conversation_def
  insert_message_def insert_run_def insert_step_def insert_idem_def insert_role_def
  insert_permission_def link_user_role_def unlink_user_roles_def link_role_permission_def

lemma update_where_all: "(\<And>r. r \<in> set rows \<Longrightarrow> Q r \<Longrightarrow> Q (f r)) \<Longrightarrow>
  (\<forall>r \<in> set rows. Q r) \<Longrightarrow> (\<forall>r \<in> set (update_where p f rows). Q r)"
  by (auto simp: update_where_def)

lemma update_where_key:
  "(\<And>r. k (f r) = k r) \<Longrightarrow> map k (update_where p f rows) = map k rows"
  by (simp add: update_where_def)

lemma update_where_id: "(\<And>r. r \<in> set rows \<Longrightarrow> \<not> p r) \<Longrightarrow> update_where p f rows = rows"
  unfolding update_where_def by (rule map_update_id)

lemma find_update_where:
  "(\<And>r. p (f r) = p r) \<Longrightarrow> find p (update_where p f rows) = map_option f (find p rows)"
  by (induction rows) (auto simp: update_where_def)

lemma find_update_where_other:
  "(\<And>r. p r \<Longrightarrow> \<not> q r) \<Longrightarrow> (\<And>r. p r \<Longrightarrow> \<not> q (f r)) \<Longrightarrow> find q (update_where p f rows) = find q rows"
  by (induction rows) (auto simp: update_where_def)

subsection \<open>What the schema declares\<close>

definition keys_distinct :: "db \<Rightarrow> bool" where
  "keys_distinct d \<longleftrightarrow>
     distinct (map ur_id (tbl_users d)) \<and>
     distinct (map cr_id (tbl_conversations d)) \<and>
     distinct (map mr_id (tbl_messages d)) \<and>
     distinct (map ar_id (tbl_runs d)) \<and>
     distinct (map sr_id (tbl_steps d)) \<and>
     distinct (map (\<lambda>s. (sr_run_id s, sr_index s)) (tbl_steps d)) \<and>
     distinct (map tr_telegram_user_id (tbl_telegram d)) \<and>
     distinct (map tr_user_id (tbl_telegram d)) \<and>
     distinct (map rr_id (tbl_roles d)) \<and>
     distinct (map rr_name (tbl_roles d)) \<and>
     distinct (map (\<lambda>p. (pr_namespace p, pr_action p)) (tbl_permissions d)) \<and>
     distinct (tbl_user_roles d) \<and>
     distinct (tbl_role_permissions d) \<and>
     distinct (map ir_id (tbl_idem d)) \<and>
     distinct (map (\<lambda>r. (ir_namespace r, ir_key r)) (tbl_idem d))"

definition checks_hold :: "db \<Rightarrow> bool" where
  "checks_hold d \<longleftrightarrow>
     (\<forall>r \<in> set (tbl_users d). user_check r) \<and>
     (\<forall>r \<in> set (tbl_conversations d). conversation_check r) \<and>
     (\<forall>r \<in> set (tbl_messages d). message_check r) \<and>
     (\<forall>r \<in> set (tbl_runs d). agent_run_check r) \<and>
     (\<forall>r \<in> set (tbl_steps d). agent_step_check r) \<and>
     (\<forall>r \<in> set (tbl_idem d). idempotency_check r)"

definition valid_db :: "db \<Rightarrow> bool" where
  "valid_db d \<longleftrightarrow> keys_distinct d \<and> checks_hold d"

lemma valid_empty: "valid_db empty_db"
  by (simp add: valid_db_def keys_distinct_def checks_hold_def empty_db_def)

subsection \<open>Every change the repositories make\<close>

definition started :: string where "started = ''started''"

inductive db_change :: "bool \<Rightarrow> db \<Rightarrow> db \<Rightarrow> bool" for fk where
  ch_insert_user: "insert_user r d = Inr ((), d') \<Longrightarrow> db_change fk d d'"
| ch_update_user: "update_user i f d = Inr ((), d') \<Longrightarrow> (\<And>r. ur_id (f r) = ur_id r) \<Longrightarrow>
     db_change fk d d'"
| ch_insert_telegram: "insert_telegram fk r d = Inr ((), d') \<Longrightarrow> db_change fk d d'"
| ch_update_telegram: "update_telegram i f d = Inr ((), d') \<Longrightarrow>
     (\<And>r. tr_user_id (f r) = tr_user_id r) \<Longrightarrow> db_change fk d d'"
| ch_insert_role: "insert_role rr d = Inr ((), d') \<Longrightarrow> db_change fk d d'"
| ch_insert_permission: "insert_permission pr d = Inr ((), d') \<Longrightarrow> db_change fk d d'"
| ch_link_user_role: "link_user_role fk u i d = Inr ((), d') \<Longrightarrow> db_change fk d d'"
| ch_unlink_user_roles: "unlink_user_roles u d = Inr ((), d') \<Longrightarrow> db_change fk d d'"
| ch_link_role_permission: "link_role_permission fk i q d = Inr ((), d') \<Longrightarrow> db_change fk d d'"
| ch_insert_conversation: "insert_conversation fk r d = Inr ((), d') \<Longrightarrow> db_change fk d d'"
| ch_update_conversation: "update_conversation i f json d = Inr ((), d') \<Longrightarrow>
     (\<And>r. cr_id (f r) = cr_id r) \<Longrightarrow> (\<And>r. cr_owner_id (f r) = cr_owner_id r) \<Longrightarrow>
     db_change fk d d'"
| ch_insert_message: "insert_message fk r d = Inr ((), d') \<Longrightarrow> db_change fk d d'"
| ch_insert_run: "insert_run fk r d = Inr ((), d') \<Longrightarrow> db_change fk d d'"
| ch_update_run: "update_run i f json d = Inr ((), d') \<Longrightarrow> (\<And>r. ar_id (f r) = ar_id r) \<Longrightarrow>
     db_change fk d d'"
| ch_insert_step: "insert_step fk r d = Inr ((), d') \<Longrightarrow> db_change fk d d'"
| ch_insert_idem: "insert_idem r d = Inr ((), d') \<Longrightarrow> db_change fk d d'"
| ch_update_idem: "update_idem (\<lambda>r. p r \<and> ir_state r = started) f json d = Inr (n, d') \<Longrightarrow>
     (\<And>r. ir_id (f r) = ir_id r \<and> ir_namespace (f r) = ir_namespace r \<and> ir_key (f r) = ir_key r) \<Longrightarrow>
     db_change fk d d'"

inductive_cases db_changeE: "db_change fk d d'"

lemma valid_insert:
  "insert_user r d = Inr ((), d') \<Longrightarrow> valid_db d \<Longrightarrow> valid_db d'"
  "insert_telegram fk tr d = Inr ((), d') \<Longrightarrow> valid_db d \<Longrightarrow> valid_db d'"
  "insert_conversation fk cr d = Inr ((), d') \<Longrightarrow> valid_db d \<Longrightarrow> valid_db d'"
  "insert_message fk mr d = Inr ((), d') \<Longrightarrow> valid_db d \<Longrightarrow> valid_db d'"
  "insert_run fk ar d = Inr ((), d') \<Longrightarrow> valid_db d \<Longrightarrow> valid_db d'"
  "insert_step fk sr d = Inr ((), d') \<Longrightarrow> valid_db d \<Longrightarrow> valid_db d'"
  "insert_idem ir d = Inr ((), d') \<Longrightarrow> valid_db d \<Longrightarrow> valid_db d'"
  "insert_role rr d = Inr ((), d') \<Longrightarrow> valid_db d \<Longrightarrow> valid_db d'"
  "insert_permission pr d = Inr ((), d') \<Longrightarrow> valid_db d \<Longrightarrow> valid_db d'"
  "link_user_role fk u i d = Inr ((), d') \<Longrightarrow> valid_db d \<Longrightarrow> valid_db d'"
  "unlink_user_roles u d = Inr ((), d') \<Longrightarrow> valid_db d \<Longrightarrow> valid_db d'"
  "link_role_permission fk i q d = Inr ((), d') \<Longrightarrow> valid_db d \<Longrightarrow> valid_db d'"
  by (auto simp: insert_defs guarded_Inr_iff valid_db_def keys_distinct_def checks_hold_def)

lemma valid_update_user:
  "update_user i f d = Inr ((), d') \<Longrightarrow> (\<And>r. ur_id (f r) = ur_id r) \<Longrightarrow> valid_db d \<Longrightarrow> valid_db d'"
  by (simp add: update_user_def Let_def guarded_Inr_iff valid_db_def keys_distinct_def
      checks_hold_def update_where_key)

lemma valid_update_telegram:
  "update_telegram i f d = Inr ((), d') \<Longrightarrow> (\<And>r. tr_user_id (f r) = tr_user_id r) \<Longrightarrow>
     valid_db d \<Longrightarrow> valid_db d'"
  by (simp add: update_telegram_def Let_def guarded_Inr_iff valid_db_def keys_distinct_def
      checks_hold_def update_where_key)

lemma valid_update_conversation:
  "update_conversation i f json d = Inr ((), d') \<Longrightarrow> (\<And>r. cr_id (f r) = cr_id r) \<Longrightarrow>
     valid_db d \<Longrightarrow> valid_db d'"
  by (simp add: update_conversation_def Let_def guarded_Inr_iff valid_db_def keys_distinct_def
      checks_hold_def update_where_key)

lemma valid_update_run:
  "update_run i f json d = Inr ((), d') \<Longrightarrow> (\<And>r. ar_id (f r) = ar_id r) \<Longrightarrow> valid_db d \<Longrightarrow> valid_db d'"
  by (simp add: update_run_def Let_def guarded_Inr_iff valid_db_def keys_distinct_def
      checks_hold_def update_where_key)

lemma update_idem_Inr_iff:
  "update_idem p f json d = Inr (n, d') \<longleftrightarrow> json_dict json \<and>
     (\<forall>r \<in> set (update_where p f (tbl_idem d)). idempotency_check r) \<and>
     n = length (filter p (tbl_idem d)) \<and> d' = d\<lparr>tbl_idem := update_where p f (tbl_idem d)\<rparr>"
  by (auto simp: update_idem_def Let_def)

lemma valid_update_idem:
  "update_idem p f json d = Inr (n, d') \<Longrightarrow>
     (\<And>r. ir_id (f r) = ir_id r \<and> ir_namespace (f r) = ir_namespace r \<and> ir_key (f r) = ir_key r) \<Longrightarrow>
     valid_db d \<Longrightarrow> valid_db d'"
  by (simp add: update_idem_Inr_iff valid_db_def keys_distinct_def checks_hold_def update_where_key)

lemma valid_db_change: "db_change fk d d' \<Longrightarrow> valid_db d \<Longrightarrow> valid_db d'"
  by (erule db_changeE)
    (blast intro: valid_insert valid_update_user valid_update_telegram
      valid_update_conversation valid_update_run
      valid_update_idem)+

text \<open>The interface between the schema and everything that reasons about stored data.\<close>

locale db_invariant =
  fixes fk :: bool and holds_in :: "db \<Rightarrow> bool"
  assumes change_keeps: "db_change fk d d' \<Longrightarrow> holds_in d \<Longrightarrow> holds_in d'"
begin

lemma changes_keep: "(db_change fk)\<^sup>*\<^sup>* d d' \<Longrightarrow> holds_in d \<Longrightarrow> holds_in d'"
  by (induction rule: rtranclp_induct) (blast intro: change_keeps)+

end

interpretation schema_valid: db_invariant fk valid_db for fk
  by unfold_locales (rule valid_db_change)

text \<open>
  A settled idempotency record is final: no change of any repository touches a row whose
  state is not \<open>started\<close>.
\<close>

definition has_settled :: "idempotency_row \<Rightarrow> db \<Rightarrow> bool" where
  "has_settled r d \<longleftrightarrow> ir_state r \<noteq> started \<and> r \<in> set (tbl_idem d)"

lemma settled_db_change: "db_change fk d d' \<Longrightarrow> has_settled r d \<Longrightarrow> has_settled r d'"
  by (erule db_changeE)
    (force simp: has_settled_def insert_defs guarded_Inr_iff update_user_def update_run_def
      update_telegram_def
      update_conversation_def Let_def update_idem_Inr_iff update_where_def)+

interpretation settled_final: db_invariant fk "has_settled r" for fk r
  by unfold_locales (rule settled_db_change)

end
