(* ===== verification/Identity.thy ===== *)
theory Identity
  imports Errors
begin

section \<open>Identity entities (domain/identity/entities.py)\<close>

text \<open>
  Users, roles, permissions and Telegram identities. The value objects validate in
  \<open>__post_init__\<close>: their constructors are functions that may raise. The methods of
  \<open>User\<close> that set \<open>updated_at\<close> take the clock reading \<open>now\<close> they use.
\<close>

datatype user_status = UserActive | UserBanned | UserDisabled

fun user_status_value :: "user_status \<Rightarrow> string" where
  "user_status_value UserActive = ''active''"
| "user_status_value UserBanned = ''banned''"
| "user_status_value UserDisabled = ''disabled''"

definition user_statuses :: "user_status list" where
  "user_statuses = [UserActive, UserBanned, UserDisabled]"

interpretation user_status_enum: str_enum user_statuses user_status_value
proof
  show "e \<in> set user_statuses" for e by (cases e) (simp_all add: user_statuses_def)
  show "user_status_value e = user_status_value e' \<Longrightarrow> e = e'" for e e'
    by (cases e; cases e') simp_all
qed

record permission =
  perm_namespace :: string
  perm_action :: string

definition mk_permission :: "string \<Rightarrow> string \<Rightarrow> exn + permission" where
  "mk_permission ns act =
     (if ns = [] \<or> act = []
      then Inl (raise_validation ''Permission namespace and action are required.''
                  default_validation_code [])
      else Inr \<lparr>perm_namespace = ns, perm_action = act\<rparr>)"

definition permission_key :: "permission \<Rightarrow> string" where
  "permission_key p = perm_namespace p @ '':'' @ perm_action p"

record role =
  role_name :: string
  role_permissions :: "permission set"

definition mk_role :: "string \<Rightarrow> permission set \<Rightarrow> exn + role" where
  "mk_role n ps =
     (if n = [] then Inl (raise_validation ''Role name is required.'' default_validation_code [])
      else Inr \<lparr>role_name = n, role_permissions = ps\<rparr>)"

record telegram_identity =
  tg_user_id :: int
  tg_username :: "string option"
  tg_first_name :: "string option"
  tg_last_name :: "string option"

definition mk_telegram_identity ::
  "int \<Rightarrow> string option \<Rightarrow> string option \<Rightarrow> string option \<Rightarrow> exn + telegram_identity" where
  "mk_telegram_identity i u f l =
     (if i \<le> 0
      then Inl (raise_validation ''Telegram user id must be positive.'' default_validation_code [])
      else Inr \<lparr>tg_user_id = i, tg_username = u, tg_first_name = f, tg_last_name = l\<rparr>)"

record user =
  user_id :: uuid
  user_status :: user_status
  user_roles :: "role set"
  user_telegram :: "telegram_identity option"
  user_created_at :: datetime
  user_updated_at :: datetime

definition new_user :: "uuid \<Rightarrow> datetime \<Rightarrow> datetime \<Rightarrow> user" where
  \<comment> \<open>\<open>User(id=...)\<close>: the two timestamps are two readings of the clock\<close>
  "new_user i created updated = \<lparr>user_id = i, user_status = UserActive, user_roles = {},
     user_telegram = None, user_created_at = created, user_updated_at = updated\<rparr>"

definition has_permission :: "user \<Rightarrow> permission \<Rightarrow> bool" where
  "has_permission u p \<longleftrightarrow> (\<exists>r \<in> user_roles u. p \<in> role_permissions r)"

definition assign_roles :: "role set \<Rightarrow> datetime \<Rightarrow> user \<Rightarrow> user" where
  "assign_roles rs now u = u\<lparr>user_roles := rs, user_updated_at := now\<rparr>"

definition attach_telegram_identity :: "telegram_identity \<Rightarrow> datetime \<Rightarrow> user \<Rightarrow> user" where
  "attach_telegram_identity t now u = u\<lparr>user_telegram := Some t, user_updated_at := now\<rparr>"

definition ban :: "datetime \<Rightarrow> user \<Rightarrow> exn + user" where
  "ban now u =
     (if user_status u = UserBanned
      then Inl (raise_conflict ''User is already banned.'' ''user_already_banned'' [])
      else Inr (u\<lparr>user_status := UserBanned, user_updated_at := now\<rparr>))"

definition unban :: "datetime \<Rightarrow> user \<Rightarrow> exn + user" where
  "unban now u =
     (if user_status u \<noteq> UserBanned
      then Inl (raise_conflict ''Only banned users can be unbanned.'' ''user_not_banned'' [])
      else Inr (u\<lparr>user_status := UserActive, user_updated_at := now\<rparr>))"

definition user_ensure_active :: "user \<Rightarrow> exn + unit" where
  "user_ensure_active u =
     sum_guard (user_status u = UserActive)
       (raise_conflict ''User is not active.'' ''user_not_active''
          [(''status'', PStr (user_status_value (user_status u)))])"

subsection \<open>What the entity promises\<close>

inductive user_step :: "user \<Rightarrow> user \<Rightarrow> bool" where
  step_ban: "ban now u = Inr u' \<Longrightarrow> user_step u u'"
| step_unban: "unban now u = Inr u' \<Longrightarrow> user_step u u'"
| step_assign: "user_step u (assign_roles rs now u)"
| step_attach: "user_step u (attach_telegram_identity t now u)"

definition is_new_user :: "user \<Rightarrow> bool" where
  "is_new_user u \<longleftrightarrow> user_status u = UserActive"

text \<open>
  Disabling is outside the entity's methods: a user built \<open>ACTIVE\<close> is only ever active or
  banned, whatever methods are called on it.
\<close>

interpretation user_cycle: lifecycle is_new_user user_step "\<lambda>u. user_status u \<noteq> UserDisabled"
proof
  show "is_new_user u \<Longrightarrow> user_status u \<noteq> UserDisabled" for u
    by (simp add: is_new_user_def)
  show "user_status u \<noteq> UserDisabled \<Longrightarrow> user_step u u' \<Longrightarrow> user_status u' \<noteq> UserDisabled" for u u'
    by (erule user_step.cases)
      (auto simp: ban_def unban_def assign_roles_def attach_telegram_identity_def
        split: if_splits)
qed

lemma ban_Inr_iff:
  "ban now u = Inr u' \<longleftrightarrow>
     user_status u \<noteq> UserBanned \<and> u' = u\<lparr>user_status := UserBanned, user_updated_at := now\<rparr>"
  by (auto simp: ban_def)

lemma unban_Inr_iff:
  "unban now u = Inr u' \<longleftrightarrow>
     user_status u = UserBanned \<and> u' = u\<lparr>user_status := UserActive, user_updated_at := now\<rparr>"
  by (auto simp: unban_def)

lemma user_ensure_active_iff: "user_ensure_active u = Inr x \<longleftrightarrow> user_status u = UserActive"
  by (simp add: user_ensure_active_def sum_guard_Inr_iff)

lemma banned_not_active: "ban now u = Inr u' \<Longrightarrow> user_ensure_active u' \<noteq> Inr x"
  by (auto simp: ban_Inr_iff user_ensure_active_iff)

lemma permission_key_inj:
  assumes "CHR '':'' \<notin> set (perm_namespace p)" and "CHR '':'' \<notin> set (perm_namespace q)"
    and "permission_key p = permission_key q"
  shows "p = q"
proof -
  have split: "takeWhile (\<lambda>c. c \<noteq> CHR '':'') (permission_key r) = perm_namespace r \<and>
      dropWhile (\<lambda>c. c \<noteq> CHR '':'') (permission_key r) = '':'' @ perm_action r"
    if "CHR '':'' \<notin> set (perm_namespace r)" for r :: permission
  proof -
    have "takeWhile (\<lambda>c. c \<noteq> CHR '':'') (perm_namespace r) = perm_namespace r"
      "dropWhile (\<lambda>c. c \<noteq> CHR '':'') (perm_namespace r) = []"
      using that by (auto simp: takeWhile_eq_all_conv dropWhile_eq_Nil_conv)
    then show ?thesis
      by (simp add: permission_key_def takeWhile_append dropWhile_append)
  qed
  from split [OF assms(1)] split [OF assms(2)] assms(3)
  have "perm_namespace p = perm_namespace q" "perm_action p = perm_action q" by auto
  then show ?thesis by simp
qed

end
