(* ===== verification/Llm_Gateway.thy ===== *)
theory Llm_Gateway
  imports Errors
begin

section \<open>The LLM gateway port and its stub adapter (ports/llm/gateway.py, infrastructure/llm/stub_gateway.py)\<close>

text \<open>
  The port's value types, and the stub adapter with the state it keeps between calls: the
  scripted replies still to give and the requests it has seen. A float is the pair of an integer and
  the power of two that divides it: 0.2 is the double nearest to one fifth.
\<close>

datatype llm_role = LLMSystem | LLMUser | LLMAssistant | LLMTool

fun llm_role_value :: "llm_role \<Rightarrow> string" where
  "llm_role_value LLMSystem = ''system''"
| "llm_role_value LLMUser = ''user''"
| "llm_role_value LLMAssistant = ''assistant''"
| "llm_role_value LLMTool = ''tool''"

definition llm_roles :: "llm_role list" where
  "llm_roles = [LLMSystem, LLMUser, LLMAssistant, LLMTool]"

interpretation llm_role_enum: str_enum llm_roles llm_role_value
proof
  show "e \<in> set llm_roles" for e by (cases e) (simp_all add: llm_roles_def)
  show "llm_role_value e = llm_role_value e' \<Longrightarrow> e = e'" for e e' by (cases e; cases e') simp_all
qed

type_synonym py_float = "int \<times> nat"

definition default_temperature :: py_float where
  \<comment> \<open>0.2\<close>
  "default_temperature = (3602879701896397, 54)"

record llm_message =
  lm_role :: llm_role
  lm_content :: string
  lm_name :: "string option"

record llm_tool_spec =
  spec_name :: string
  spec_description :: string
  spec_input_schema :: pydict

record llm_request =
  req_provider :: string
  req_model :: string
  req_messages :: "llm_message list"
  req_tools :: "llm_tool_spec list"
  req_temperature :: py_float
  req_max_output_tokens :: "int option"
  req_metadata :: pydict

record llm_tool_call =
  call_id :: string
  call_name :: string
  call_arguments :: pydict

record llm_usage =
  input_tokens :: int
  output_tokens :: int
  total_tokens :: int

record llm_response =
  resp_content :: "string option"
  resp_tool_calls :: "llm_tool_call list"
  resp_usage :: llm_usage
  resp_provider_metadata :: pydict

record stub_gateway =
  default_response :: "llm_response option"
  response_factory :: "(llm_request \<Rightarrow> llm_response) option"
  scripted_responses :: "(exn + llm_response) list"
  fail_with :: "exn option"
  stub_calls :: "llm_request list"

definition new_stub :: stub_gateway where
  "new_stub = \<lparr>default_response = None, response_factory = None, scripted_responses = [],
     fail_with = None, stub_calls = []\<rparr>"

definition last_user_message :: "llm_request \<Rightarrow> string" where
  "last_user_message req =
     (case find (\<lambda>m. lm_role m = LLMUser) (rev (req_messages req)) of
        Some m \<Rightarrow> lm_content m | None \<Rightarrow> [])"

definition echo_response :: "llm_request \<Rightarrow> llm_response" where
  "echo_response req =
     (let lum = last_user_message req;
          content = (if lum \<noteq> [] then ''Echo: '' @ lum else ''Acknowledged.'');
          itoks = int (length (split_ws lum));
          otoks = int (length (split_ws content))
      in \<lparr>resp_content = Some content, resp_tool_calls = [],
          resp_usage = \<lparr>input_tokens = itoks, output_tokens = otoks, total_tokens = itoks + otoks\<rparr>,
          resp_provider_metadata = [(''stub'', PBool True)]\<rparr>)"

definition stub_complete :: "llm_request \<Rightarrow> stub_gateway \<Rightarrow> (exn + llm_response) \<times> stub_gateway" where
  "stub_complete req g0 =
     (let g = g0\<lparr>stub_calls := stub_calls g0 @ [req]\<rparr> in
      case scripted_responses g of
        item # rest \<Rightarrow> (item, g\<lparr>scripted_responses := rest\<rparr>)
      | [] \<Rightarrow> (case fail_with g of Some e \<Rightarrow> (Inl e, g)
      | None \<Rightarrow> (case response_factory g of Some f \<Rightarrow> (Inr (f req), g)
      | None \<Rightarrow> (case default_response g of Some r \<Rightarrow> (Inr r, g)
      | None \<Rightarrow> (Inr (echo_response req), g)))))"

subsection \<open>What the stub guarantees\<close>

fun stub_run :: "llm_request list \<Rightarrow> stub_gateway \<Rightarrow> (exn + llm_response) list \<times> stub_gateway" where
  \<comment> \<open>a sequence of calls\<close>
  "stub_run [] g = ([], g)"
| "stub_run (q # qs) g =
     (let (r, g1) = stub_complete q g; (rs, g2) = stub_run qs g1 in (r # rs, g2))"

lemma stub_complete_records: "stub_calls (snd (stub_complete req g)) = stub_calls g @ [req]"
  by (simp add: stub_complete_def Let_def split: list.splits option.splits)

lemma stub_run_records: "stub_calls (snd (stub_run qs g)) = stub_calls g @ qs"
proof (induction qs arbitrary: g)
  case (Cons q qs)
  from Cons [of "snd (stub_complete q g)"] show ?case
    by (simp add: split_def Let_def stub_complete_records)
qed simp

lemma stub_scripted:
  "scripted_responses g = map Inr rs @ rest \<Longrightarrow> length qs = length rs \<Longrightarrow>
     fst (stub_run qs g) = map Inr rs"
proof (induction qs arbitrary: g rs)
  case (Cons q qs)
  then obtain r rs' where rs: "rs = r # rs'" by (cases rs) auto
  have "scripted_responses (snd (stub_complete q g)) = map Inr rs' @ rest"
    and "fst (stub_complete q g) = Inr r"
    using Cons.prems(1) by (simp_all add: stub_complete_def Let_def rs)
  with Cons.IH [of "snd (stub_complete q g)" rs'] Cons.prems(2) rs show ?case
    by (simp add: split_def Let_def)
qed simp

lemma split_ws_aux_nonempty: "\<not> blank s \<or> acc \<noteq> [] \<Longrightarrow> split_ws_aux acc s \<noteq> []"
  by (induction acc s rule: split_ws_aux.induct) (auto simp: blank_iff)

lemma echo_total_positive: "0 < total_tokens (resp_usage (echo_response req))"
proof -
  have "split_ws (if last_user_message req \<noteq> [] then ''Echo: '' @ last_user_message req
      else ''Acknowledged.'') \<noteq> []"
    unfolding split_ws_def
    by (intro split_ws_aux_nonempty disjI1) (auto simp: blank_iff py_space_def)
  then show ?thesis
    by (simp add: echo_response_def Let_def split: if_splits)
      (metis length_greater_0_conv of_nat_0_less_iff of_nat_0_le_iff add_pos_nonneg add.commute)+
qed

lemma echo_not_blank:
  "resp_content (echo_response req) = Some c \<Longrightarrow> \<not> blank c"
  by (auto simp: echo_response_def Let_def blank_iff py_space_def split: if_splits)

end
