(* ===== verification/Unit_Of_Work.thy ===== *)
theory Unit_Of_Work
  imports Schema Identity Llm_Gateway
begin

section \<open>Sessions, transactions and the unit of work (infrastructure/database)\<close>

text \<open>
  What runs outside the repository (the database driver, other workers, the clock, the
  UUID generator, the model provider) is the record \<open>env\<close>, an argument of every program:

  \<^item> \<open>clock E i\<close> and \<open>uuids E i\<close> are the i-th readings of \<open>utc_now()\<close> and \<open>uuid4()\<close>;
  \<^item> \<open>fault E i\<close> is the exception the driver raises at the i-th database round trip, if any;
  \<^item> \<open>others E i\<close> is what the transactions other workers committed just before the i-th
    round trip did to the database; a transaction sees it (read committed);
  \<^item> \<open>commit_landed E i\<close> says, for a COMMIT that raised, whether the server had applied it
    (the acknowledgement was lost);
  \<^item> \<open>backend_dt E\<close> is what the backend makes of a stored timestamp (SQLite drops the zone);
  \<^item> \<open>fk_on E\<close> says whether the backend enforces foreign keys;
  \<^item> \<open>role_order E\<close> and \<open>permission_order E\<close> are the orders in which a \<open>frozenset\<close> is iterated;
  \<^item> \<open>llm E i q\<close> is the outcome of the i-th provider call and the time it takes.

  \<open>world\<close> is the state: the committed database, the open transaction's view of it, the
  session's identity map (the rows it has loaded, as they were or as they were set), how often each source was read, the provider calls made (with whether a transaction was
  open then) and the log lines written. A round trip is \<open>sql E f\<close>: the other workers'
  changes become visible, then the driver raises or the statement \<open>f\<close> runs on the view.
  \<open>uow E body\<close> is \<open>async with uow_factory() as uow: body\<close>.
\<close>

record env =
  clock :: "nat \<Rightarrow> int"
  uuids :: "nat \<Rightarrow> uuid"
  fault :: "nat \<Rightarrow> exn option"
  others :: "nat \<Rightarrow> db \<Rightarrow> db"
  commit_landed :: "nat \<Rightarrow> bool"
  backend_dt :: "datetime \<Rightarrow> datetime"
  fk_on :: bool
  role_order :: "role set \<Rightarrow> role list"
  permission_order :: "permission set \<Rightarrow> permission list"
  llm :: "nat \<Rightarrow> llm_request \<Rightarrow> (exn + llm_response) \<times> int"

record world =
  committed :: db
  view :: db
  idmap :: db
  tx_open :: bool
  sql_count :: nat
  clock_count :: nat
  uuid_count :: nat
  llm_calls :: "(llm_request \<times> bool) list"
  log_lines :: "string list"

type_synonym ('z, 'a) io = "('z world_scheme, exn, 'a) prog"

subsection \<open>Effects\<close>

definition utc_now :: "env \<Rightarrow> ('z, datetime) io" where
  "utc_now E w = (Inr (Utc (clock E (clock_count w))), w\<lparr>clock_count := Suc (clock_count w)\<rparr>)"

definition uuid4 :: "env \<Rightarrow> ('z, uuid) io" where
  "uuid4 E w = (Inr (uuids E (uuid_count w)), w\<lparr>uuid_count := Suc (uuid_count w)\<rparr>)"

definition call_method ::
  "env \<Rightarrow> nat \<Rightarrow> nat \<Rightarrow> ((nat \<Rightarrow> uuid) \<Rightarrow> (nat \<Rightarrow> datetime) \<Rightarrow> exn + 'a) \<Rightarrow> ('z, 'a) io" where
  \<comment> \<open>a method of an entity that draws \<open>nu\<close> identifiers and reads the clock \<open>nc\<close> times; one
    that raises leaves its readings to the next\<close>
  "call_method E nu nc f w =
     (case f (\<lambda>i. uuids E (uuid_count w + i)) (\<lambda>i. Utc (clock E (clock_count w + i))) of
        Inl e \<Rightarrow> (Inl e, w)
      | Inr a \<Rightarrow> (Inr a, w\<lparr>uuid_count := uuid_count w + nu, clock_count := clock_count w + nc\<rparr>))"

definition log_event :: "string \<Rightarrow> ('z, unit) io" where
  "log_event line = modify (\<lambda>w. w\<lparr>log_lines := log_lines w @ [line]\<rparr>)"

definition ensure_utc :: "datetime \<Rightarrow> datetime" where
  "ensure_utc t = (case t of Naive x \<Rightarrow> Utc x | Utc x \<Rightarrow> Utc x)"

definition ensure_utc_optional :: "datetime option \<Rightarrow> datetime option" where
  "ensure_utc_optional t = (case t of None \<Rightarrow> None | Some x \<Rightarrow> Some (ensure_utc x))"

definition sql :: "env \<Rightarrow> 'a stmt \<Rightarrow> ('z, 'a) io" where
  "sql E f w =
     (let i = sql_count w;
          w' = w\<lparr>committed := others E i (committed w), view := others E i (view w),
                 sql_count := Suc i\<rparr>
      in case fault E i of
           Some e \<Rightarrow> (Inl e, w')
         | None \<Rightarrow> (case f (view w') of
               Inl e \<Rightarrow> (Inl e, w')
             | Inr (a, d) \<Rightarrow> (Inr a, w'\<lparr>view := d\<rparr>)))"

definition sql_select :: "env \<Rightarrow> (db \<Rightarrow> 'a) \<Rightarrow> ('z, 'a) io" where
  "sql_select E q = sql E (query q)"

definition remember ::
  "(('r list \<Rightarrow> 'r list) \<Rightarrow> db \<Rightarrow> db) \<Rightarrow> ('r list \<Rightarrow> 'r list) \<Rightarrow> ('z, unit) io" where
  \<comment> \<open>a change of the session's identity map, in the table \<open>upd\<close> writes\<close>
  "remember upd f = modify (\<lambda>w. w\<lparr>idmap := upd f (idmap w)\<rparr>)"

definition session_get ::
  "env \<Rightarrow> (db \<Rightarrow> 'r list) \<Rightarrow> (('r list \<Rightarrow> 'r list) \<Rightarrow> db \<Rightarrow> db) \<Rightarrow> ('r \<Rightarrow> bool) \<Rightarrow>
   ('z, 'r option) io" where
  \<comment> \<open>\<open>session.get(Model, key)\<close>: the identity map first, then a SELECT by primary key\<close>
  "session_get E tbl upd p =
     bnd (gets (\<lambda>w. find p (tbl (idmap w)))) (\<lambda>cached.
     case cached of
       Some r \<Rightarrow> ret (Some r)
     | None \<Rightarrow>
         bnd (sql_select E (\<lambda>d. find p (tbl d))) (\<lambda>row.
         case row of
           None \<Rightarrow> ret None
         | Some r \<Rightarrow> bnd (remember upd (\<lambda>rows. rows @ [r])) (\<lambda>_. ret (Some r))))"

definition changed_or :: "'a \<Rightarrow> 'a \<Rightarrow> 'a \<Rightarrow> 'a" where
  \<comment> \<open>the UPDATE of a loaded object names only the columns whose value changed\<close>
  "changed_or loaded new stored = (if new = loaded then stored else new)"

definition one_or_none :: "'a list \<Rightarrow> ('z, 'a option) io" where
  "one_or_none rows = lift_sum (scalar_one_or_none rows)"

subsection \<open>translate_database_errors (infrastructure/database/errors.py)\<close>

fun translate_database_error :: "string \<Rightarrow> exn \<Rightarrow> exn" where
  "translate_database_error op (Sql IntegrityE t) =
     raise_conflict ''The requested change conflicts with existing data.''
       ''database_conflict'' [(''operation'', PStr op)]"
| "translate_database_error op (Sql DBAPIE t) =
     Nexa (ExternalServiceError ''The database is currently unavailable.''
       ''database_unavailable'' True [(''operation'', PStr op)])"
| "translate_database_error op (Sql SQLAlchemyE t) =
     Nexa (ExternalServiceError ''The database rejected the operation.''
       ''database_error'' False [(''operation'', PStr op)])"
| "translate_database_error op e = e"

definition translate_database_errors :: "string \<Rightarrow> ('z, 'a) io \<Rightarrow> ('z, 'a) io" where
  "translate_database_errors op m = try_except m (\<lambda>e. throw (translate_database_error op e))"

subsection \<open>The unit of work (infrastructure/database/unit_of_work.py)\<close>

definition try_finally :: "('s, 'e, 'a) prog \<Rightarrow> ('s \<Rightarrow> 's) \<Rightarrow> ('s, 'e, 'a) prog" where
  \<comment> \<open>\<open>try: m finally: cleanup\<close> with a cleanup that does not raise\<close>
  "try_finally m cleanup s = (case m s of (r, t) \<Rightarrow> (r, cleanup t))"

definition open_session :: "'z world_scheme \<Rightarrow> 'z world_scheme" where
  "open_session w = w\<lparr>view := committed w, idmap := empty_db, tx_open := True\<rparr>"

definition close_session :: "'z world_scheme \<Rightarrow> 'z world_scheme" where
  "close_session w = w\<lparr>tx_open := False\<rparr>"

definition commit_session :: "env \<Rightarrow> ('z, unit) io" where
  "commit_session E w =
     (let i = sql_count w; c = others E i (committed w); v = others E i (view w);
          w' = w\<lparr>view := v, sql_count := Suc i\<rparr>
      in case fault E i of
           None \<Rightarrow> (Inr (), w'\<lparr>committed := v\<rparr>)
         | Some e \<Rightarrow> (Inl e, w'\<lparr>committed := (if commit_landed E i then v else c)\<rparr>))"

definition rollback_session :: "env \<Rightarrow> ('z, unit) io" where
  "rollback_session E w =
     (let i = sql_count w; c = others E i (committed w);
          w' = w\<lparr>committed := c, view := c, sql_count := Suc i\<rparr>
      in case fault E i of None \<Rightarrow> (Inr (), w') | Some e \<Rightarrow> (Inl e, w'))"

definition rollback_quietly :: "env \<Rightarrow> ('z, unit) io" where
  "rollback_quietly E =
     try_except (rollback_session E)
       (\<lambda>e. if is_sqlalchemy_error e then log_event ''unit_of_work.rollback_failed'' else throw e)"

definition uow_exit :: "env \<Rightarrow> exn option \<Rightarrow> ('z, unit) io" where
  \<comment> \<open>\<open>__aexit__\<close>; returning normally means the exception, if any, goes on\<close>
  "uow_exit E exc =
     bnd (try_finally
           (case exc of
              None \<Rightarrow> translate_database_errors ''commit'' (commit_session E)
            | Some e \<Rightarrow> rollback_quietly E)
           close_session) (\<lambda>_.
     case exc of
       Some e \<Rightarrow> if is_sqlalchemy_error e
                 then translate_database_errors ''transaction'' (throw e) else ret ()
     | None \<Rightarrow> ret ())"

definition uow :: "env \<Rightarrow> ('z, 'a) io \<Rightarrow> ('z, 'a) io" where
  "uow E body w =
     (case body (open_session w) of
        (Inr a, w1) \<Rightarrow> bnd (uow_exit E None) (\<lambda>_. ret a) w1
      | (Inl e, w1) \<Rightarrow> bnd (uow_exit E (Some e)) (\<lambda>_. throw e) w1)"

subsection \<open>Environments without surprises\<close>

definition reliable :: "env \<Rightarrow> bool" where
  \<comment> \<open>no fault and no other worker\<close>
  "reliable E \<longleftrightarrow> (\<forall>i. fault E i = None) \<and> (\<forall>i d. others E i d = d)"

definition peers :: "env \<Rightarrow> bool" where
  \<comment> \<open>the other workers run this program too\<close>
  "peers E \<longleftrightarrow> (\<forall>i d. (db_change (fk_on E))\<^sup>*\<^sup>* d (others E i d))"

definition backend_ok :: "env \<Rightarrow> bool" where
  \<comment> \<open>a backend keeps the instant of an aware timestamp, with or without its zone\<close>
  "backend_ok E \<longleftrightarrow> (\<forall>t. backend_dt E (Utc t) = Utc t \<or> backend_dt E (Utc t) = Naive t)"

lemma ensure_utc_simps [simp]: "ensure_utc (Utc t) = Utc t" "ensure_utc (Naive t) = Utc t"
  by (simp_all add: ensure_utc_def)

lemma ensure_utc_optional_simps [simp]:
  "ensure_utc_optional None = None" "ensure_utc_optional (Some t) = Some (ensure_utc t)"
  by (simp_all add: ensure_utc_optional_def)

lemma aware_ensure_utc [simp]: "aware (ensure_utc t)"
  by (cases t) simp_all

lemma instant_ensure_utc [simp]: "instant (ensure_utc t) = instant t"
  by (cases t) simp_all

lemma session_get_key:
  "session_get E tbl upd p w = (Inr (Some r), w') \<Longrightarrow> p r"
  by (auto simp: session_get_def sql_select_def sql_def query_def Let_def remember_def find_Some_iff
      elim!: bnd_InrE split: option.splits)

lemma backend_round_trip: "backend_ok E \<Longrightarrow> ensure_utc (backend_dt E (Utc t)) = Utc t"
  by (metis backend_ok_def ensure_utc_simps)

lemma reliable_sql:
  assumes "reliable E"
  shows "sql E f w =
    (let w' = w\<lparr>sql_count := Suc (sql_count w)\<rparr> in
     case f (view w) of Inl e \<Rightarrow> (Inl e, w') | Inr (a, d) \<Rightarrow> (Inr a, w'\<lparr>view := d\<rparr>))"
  using assms by (simp add: sql_def reliable_def Let_def)

lemma reliable_select:
  "reliable E \<Longrightarrow> sql_select E q w = (Inr (q (view w)), w\<lparr>sql_count := Suc (sql_count w)\<rparr>)"
  by (simp add: sql_select_def reliable_sql query_def Let_def)

lemma reliable_uow:
  assumes "reliable E"
  shows "uow E body w =
    (case body (open_session w) of
       (Inr a, w1) \<Rightarrow> (Inr a, w1\<lparr>committed := view w1, sql_count := Suc (sql_count w1), tx_open := False\<rparr>)
     | (Inl e, w1) \<Rightarrow>
         (Inl (translate_database_error ''transaction'' e),
          w1\<lparr>view := committed w1, sql_count := Suc (sql_count w1), tx_open := False\<rparr>))"
proof -
  have f: "fault E i = None" and o: "others E i d = d" for i d
    using assms by (simp_all add: reliable_def)
  show ?thesis
  proof (cases "body (open_session w)")
    case (Pair r w1)
    show ?thesis
    proof (cases r)
      case (Inl e)
      then show ?thesis
        by (cases "(''transaction'', e)" rule: translate_database_error.cases)
          (simp_all add: Pair uow_def uow_exit_def rollback_quietly_def rollback_session_def
            translate_database_errors_def try_finally_def bnd_def try_except_def f o Let_def
            close_session_def throw_def ret_def)
    next
      case (Inr a)
      then show ?thesis
        by (simp add: Pair uow_def uow_exit_def commit_session_def translate_database_errors_def
            try_finally_def bnd_def try_except_def f o Let_def close_session_def ret_def)
    qed
  qed
qed

subsection \<open>No SQLAlchemy error leaves a unit of work\<close>

lemma translate_not_sql: "\<not> is_sqlalchemy_error (translate_database_error op e)"
  by (cases "(op, e)" rule: translate_database_error.cases) simp_all

lemma translate_other: "\<not> is_sqlalchemy_error e \<Longrightarrow> translate_database_error op e = e"
  by (cases "(op, e)" rule: translate_database_error.cases) simp_all

lemma commit_part_not_sql:
  "translate_database_errors op m w = (Inl e, w') \<Longrightarrow> \<not> is_sqlalchemy_error e"
  by (auto simp: translate_database_errors_def try_except_def translate_not_sql
      split: prod.splits sum.splits)

lemma rollback_quietly_not_sql:
  "rollback_quietly E w = (Inl e, w') \<Longrightarrow> \<not> is_sqlalchemy_error e"
  by (auto simp: rollback_quietly_def try_except_def log_event_def
      split: prod.splits sum.splits if_splits)

lemma uow_exit_not_sql:
  assumes "uow_exit E exc w = (Inl e, w')"
  shows "\<not> is_sqlalchemy_error e"
proof (cases exc)
  case None
  with assms show ?thesis
    by (auto simp: uow_exit_def bnd_def try_finally_def split: prod.splits sum.splits
        dest: commit_part_not_sql)
next
  case (Some x)
  with assms show ?thesis
    by (auto simp: uow_exit_def bnd_def try_finally_def split: prod.splits sum.splits if_splits
        dest: commit_part_not_sql rollback_quietly_not_sql)
qed

lemma uow_exit_Some_sql:
  "is_sqlalchemy_error x \<Longrightarrow> uow_exit E (Some x) w = (r, w') \<Longrightarrow> \<exists>e. r = Inl e"
  by (auto simp: uow_exit_def bnd_def try_finally_def translate_database_errors_def
      try_except_def split: prod.splits sum.splits)

lemma uow_not_sql:
  assumes "uow E body w = (Inl e, w')"
  shows "\<not> is_sqlalchemy_error e"
proof (cases "body (open_session w)")
  case (Pair r w1)
  show ?thesis
  proof (cases r)
    case (Inr a)
    with Pair assms show ?thesis
      by (auto simp: uow_def bnd_def split: prod.splits sum.splits dest: uow_exit_not_sql)
  next
    case (Inl x)
    with Pair assms show ?thesis
      by (auto simp: uow_def bnd_def throw_def split: prod.splits sum.splits
          dest: uow_exit_not_sql uow_exit_Some_sql)
  qed
qed

subsection \<open>What only a commit can do\<close>

text \<open>
  \<open>others_run E i j d\<close> is the database after the other workers' changes before the round
  trips \<open>i..<j\<close>. A program is \<open>tx_local\<close> when the committed database changes only by them
  and the transaction, the provider calls and the counters' order are respected: that is so
  for everything between opening a session and its commit.
\<close>

definition others_run :: "env \<Rightarrow> nat \<Rightarrow> nat \<Rightarrow> db \<Rightarrow> db" where
  "others_run E i j d = fold (others E) [i..<j] d"

lemma others_run_same [simp]: "others_run E i i d = d"
  by (simp add: others_run_def)

lemma others_run_Suc: "i \<le> j \<Longrightarrow> others_run E i (Suc j) d = others E j (others_run E i j d)"
  by (simp add: others_run_def)

lemma others_run_trans:
  "i \<le> j \<Longrightarrow> j \<le> k \<Longrightarrow> others_run E j k (others_run E i j d) = others_run E i k d"
proof -
  assume "i \<le> j" "j \<le> k"
  then have "[i..<k] = [i..<j] @ [j..<k]" by (metis upt_add_eq_append le_add_diff_inverse)
  then show ?thesis by (simp add: others_run_def)
qed

lemma others_run_reliable: "reliable E \<Longrightarrow> others_run E i j d = d"
proof -
  assume "reliable E"
  then have "fold (others E) xs d = d" for xs
    by (induction xs) (simp_all add: reliable_def)
  then show ?thesis by (simp add: others_run_def)
qed

definition tx_local :: "env \<Rightarrow> ('z, 'a) io \<Rightarrow> bool" where
  "tx_local E m \<longleftrightarrow> (\<forall>w. let w' = snd (m w) in
     sql_count w \<le> sql_count w' \<and>
     committed w' = others_run E (sql_count w) (sql_count w') (committed w) \<and>
     tx_open w' = tx_open w \<and> llm_calls w' = llm_calls w)"

named_theorems tx_locals \<open>Programs that leave the committed database alone\<close>

lemma tx_localD:
  "tx_local E m \<Longrightarrow> m w = (r, w') \<Longrightarrow> sql_count w \<le> sql_count w' \<and>
     committed w' = others_run E (sql_count w) (sql_count w') (committed w) \<and>
     tx_open w' = tx_open w \<and> llm_calls w' = llm_calls w"
  by (metis tx_local_def snd_conv)

lemma tx_local_pure [tx_locals]:
  "tx_local E (ret a)" "tx_local E (throw e)" "tx_local E (lift_sum r)" "tx_local E (gets f)"
  "tx_local E (utc_now E)" "tx_local E (uuid4 E)" "tx_local E (log_event s)"
  "tx_local E (one_or_none rows)" "tx_local E (call_method E nu nc g)"
  by (simp_all add: tx_local_def utc_now_def uuid4_def log_event_def one_or_none_def call_method_def
      split: sum.splits)

lemma tx_local_sql [tx_locals]: "tx_local E (sql E f)"
  by (simp add: tx_local_def sql_def Let_def others_run_Suc split: option.splits sum.splits prod.splits)

lemma tx_local_select [tx_locals]: "tx_local E (sql_select E q)"
  by (simp add: sql_select_def tx_local_sql)

lemma tx_local_remember [tx_locals]: "tx_local E (remember upd f)"
  by (simp add: tx_local_def remember_def)

lemma tx_local_bnd [tx_locals]:
  assumes "tx_local E m" and "\<And>a. tx_local E (f a)"
  shows "tx_local E (bnd m f)"
  unfolding tx_local_def Let_def
proof
  fix w
  obtain r t where m: "m w = (r, t)" by fastforce
  note mt = tx_localD [OF assms(1) m]
  show "sql_count w \<le> sql_count (snd (bnd m f w)) \<and>
      committed (snd (bnd m f w)) =
        others_run E (sql_count w) (sql_count (snd (bnd m f w))) (committed w) \<and>
      tx_open (snd (bnd m f w)) = tx_open w \<and> llm_calls (snd (bnd m f w)) = llm_calls w"
  proof (cases r)
    case (Inl e)
    with m mt show ?thesis by (simp add: bnd_def)
  next
    case (Inr a)
    obtain r' u where f: "f a t = (r', u)" by fastforce
    from tx_localD [OF assms(2) f] mt m f Inr show ?thesis
      by (auto simp: bnd_def others_run_trans)
  qed
qed

lemma tx_local_try [tx_locals]:
  assumes "tx_local E m" and "\<And>e. tx_local E (h e)"
  shows "tx_local E (try_except m h)"
  unfolding tx_local_def Let_def
proof
  fix w
  obtain r t where m: "m w = (r, t)" by fastforce
  note mt = tx_localD [OF assms(1) m]
  show "sql_count w \<le> sql_count (snd (try_except m h w)) \<and>
      committed (snd (try_except m h w)) =
        others_run E (sql_count w) (sql_count (snd (try_except m h w))) (committed w) \<and>
      tx_open (snd (try_except m h w)) = tx_open w \<and>
      llm_calls (snd (try_except m h w)) = llm_calls w"
  proof (cases r)
    case (Inr a)
    with m mt show ?thesis by (simp add: try_except_def)
  next
    case (Inl e)
    obtain r' u where h: "h e t = (r', u)" by fastforce
    from tx_localD [OF assms(2) h] mt m h Inl show ?thesis
      by (auto simp: try_except_def others_run_trans)
  qed
qed

lemma tx_local_for_each [tx_locals]:
  "(\<And>x. x \<in> set xs \<Longrightarrow> tx_local E (body x)) \<Longrightarrow> tx_local E (for_each xs body)"
  by (induction xs) (auto intro!: tx_locals)

lemma tx_local_map_each [tx_locals]:
  "(\<And>x. tx_local E (f x)) \<Longrightarrow> tx_local E (map_each f xs)"
  by (induction xs) (auto intro!: tx_locals)

lemma tx_local_option [tx_locals]:
  "tx_local E m \<Longrightarrow> (\<And>x. tx_local E (f x)) \<Longrightarrow> tx_local E (case v of None \<Rightarrow> m | Some x \<Rightarrow> f x)"
  by (cases v) auto

lemma tx_local_if [tx_locals]:
  "tx_local E m \<Longrightarrow> tx_local E n \<Longrightarrow> tx_local E (if b then m else n)"
  by simp

lemma tx_local_session_get [tx_locals]: "tx_local E (session_get E tbl upd p)"
  unfolding session_get_def by (intro tx_locals)

lemma tx_local_rollback [tx_locals]: "tx_local E (rollback_session E)"
  by (simp add: tx_local_def rollback_session_def Let_def others_run_Suc split: option.splits)

lemma tx_local_rollback_quietly: "tx_local E (rollback_quietly E)"
  unfolding rollback_quietly_def by (intro tx_locals)

text \<open>
  The outcome of a unit of work on the committed database: a body that raises leaves it to
  the other workers; a body that returns has its whole view committed, or (commit raised)
  either all of it or nothing of it.
\<close>

lemma uow_body_raises:
  assumes "tx_local E body" and "body (open_session w) = (Inl e, w1)"
    and "uow E body w = (r, w')"
  shows "committed w' = others_run E (sql_count w) (sql_count w') (committed w)"
    and "sql_count w \<le> sql_count w'" and "\<exists>x. r = Inl x"
    and "tx_open w' = False" and "llm_calls w' = llm_calls w"
proof -
  obtain r2 w2 where q: "rollback_quietly E w1 = (r2, w2)" by fastforce
  have w': "w' = close_session w2"
    using assms(2,3) q
    by (auto simp: uow_def uow_exit_def bnd_def try_finally_def translate_database_errors_def
        try_except_def split: sum.splits if_splits)
  have b: "sql_count w \<le> sql_count w1"
    "committed w1 = others_run E (sql_count w) (sql_count w1) (committed w)"
    "llm_calls w1 = llm_calls w"
    using tx_localD [OF assms(1,2)] by (simp_all add: open_session_def)
  have c: "sql_count w1 \<le> sql_count w2"
    "committed w2 = others_run E (sql_count w1) (sql_count w2) (committed w1)"
    "llm_calls w2 = llm_calls w1"
    using tx_localD [OF tx_local_rollback_quietly q] by simp_all
  show "committed w' = others_run E (sql_count w) (sql_count w') (committed w)"
    using b c by (simp add: w' close_session_def others_run_trans)
  show "sql_count w \<le> sql_count w'" using b c by (simp add: w' close_session_def)
  show "tx_open w' = False" by (simp add: w' close_session_def)
  show "llm_calls w' = llm_calls w" using b c by (simp add: w' close_session_def)
  show "\<exists>x. r = Inl x"
    using assms(2,3) q
    by (auto simp: uow_def uow_exit_def bnd_def try_finally_def translate_database_errors_def
        try_except_def split: sum.splits if_splits)
qed

lemma uow_body_returns:
  assumes "tx_local E body" and "body (open_session w) = (Inr a, w1)"
    and "uow E body w = (r, w')"
  defines "i \<equiv> sql_count w1"
  shows "r = Inr a \<and> fault E i = None \<and> committed w' = others E i (view w1) \<or>
     (\<exists>e. r = Inl (translate_database_error ''commit'' e) \<and> fault E i = Some e \<and>
       (if commit_landed E i then committed w' = others E i (view w1)
        else committed w' = others_run E (sql_count w) (sql_count w') (committed w)))"
    and "sql_count w' = Suc i" and "sql_count w \<le> i"
    and "tx_open w' = False" and "llm_calls w' = llm_calls w"
proof -
  have b: "sql_count w \<le> i"
    "committed w1 = others_run E (sql_count w) i (committed w)" "llm_calls w1 = llm_calls w"
    using tx_localD [OF assms(1,2)] by (simp_all add: open_session_def i_def)
  show "r = Inr a \<and> fault E i = None \<and> committed w' = others E i (view w1) \<or>
     (\<exists>e. r = Inl (translate_database_error ''commit'' e) \<and> fault E i = Some e \<and>
       (if commit_landed E i then committed w' = others E i (view w1)
        else committed w' = others_run E (sql_count w) (sql_count w') (committed w)))"
    using assms(2,3) b
    by (cases "fault E i")
      (auto simp: uow_def uow_exit_def bnd_def try_finally_def translate_database_errors_def
        try_except_def commit_session_def Let_def close_session_def i_def others_run_Suc)
  show "sql_count w' = Suc i" "tx_open w' = False" "llm_calls w' = llm_calls w"
    using assms(2,3) b
    by (cases "fault E i",
        auto simp: uow_def uow_exit_def bnd_def try_finally_def translate_database_errors_def
        try_except_def commit_session_def Let_def close_session_def i_def)+
  show "sql_count w \<le> i" by (rule b)
qed

subsection \<open>Programs that change the database lawfully\<close>

text \<open>
  \<open>lawful\<close>: given peers that run this program, whatever property every \<open>db_change\<close> keeps
  is kept of the committed database and of the transaction's view. Every repository
  operation is lawful, so each \<open>db_invariant\<close> holds at every state a use case leaves.
\<close>

definition holds_throughout :: "(db \<Rightarrow> bool) \<Rightarrow> 'z world_scheme \<Rightarrow> bool" where
  "holds_throughout P w \<longleftrightarrow> P (committed w) \<and> P (view w)"

definition lawful :: "env \<Rightarrow> ('z, 'a) io \<Rightarrow> bool" where
  "lawful E m \<longleftrightarrow> (peers E \<longrightarrow>
     (\<forall>P. (\<forall>d d'. db_change (fk_on E) d d' \<longrightarrow> P d \<longrightarrow> P d') \<longrightarrow> keeps (holds_throughout P) m))"

definition lawful_stmt :: "bool \<Rightarrow> 'a stmt \<Rightarrow> bool" where
  "lawful_stmt fk f \<longleftrightarrow> (\<forall>d a d'. f d = Inr (a, d') \<longrightarrow> (db_change fk)\<^sup>*\<^sup>* d d')"

named_theorems lawfuls \<open>Programs that change the database lawfully\<close>

lemma lawfulI:
  assumes "\<And>P. peers E \<Longrightarrow> (\<And>d d'. (db_change (fk_on E))\<^sup>*\<^sup>* d d' \<Longrightarrow> P d \<Longrightarrow> P d') \<Longrightarrow>
     keeps (holds_throughout P) m"
  shows "lawful E m"
  unfolding lawful_def
proof (intro impI allI)
  fix P assume "peers E" and step: "\<forall>d d'. db_change (fk_on E) d d' \<longrightarrow> P d \<longrightarrow> P d'"
  have "P d'" if "(db_change (fk_on E))\<^sup>*\<^sup>* d d'" and "P d" for d d'
    using that by (induction rule: rtranclp_induct) (use step in blast)+
  with \<open>peers E\<close> show "keeps (holds_throughout P) m" by (rule assms)
qed

lemma lawfulD:
  assumes "lawful E m" and "peers E"
    and "\<And>d d'. (db_change (fk_on E))\<^sup>*\<^sup>* d d' \<Longrightarrow> P d \<Longrightarrow> P d'"
  shows "keeps (holds_throughout P) m"
  using assms by (auto simp: lawful_def)

lemma lawful_pure [lawfuls]:
  "lawful E (ret a)" "lawful E (throw e)" "lawful E (lift_sum r)" "lawful E (gets f)"
  "lawful E (utc_now E)" "lawful E (uuid4 E)" "lawful E (log_event s)"
  "lawful E (one_or_none rows)" "lawful E (remember upd g)" "lawful E (call_method E nu nc h)"
  by (auto intro!: lawfulI tripleI simp: utc_now_def uuid4_def log_event_def one_or_none_def
      remember_def holds_throughout_def call_method_def split: sum.splits)

lemma lawful_bnd [lawfuls]: "lawful E m \<Longrightarrow> (\<And>a. lawful E (f a)) \<Longrightarrow> lawful E (bnd m f)"
  unfolding lawful_def by (blast intro: keeps_bnd)

lemma lawful_try [lawfuls]: "lawful E m \<Longrightarrow> (\<And>e. lawful E (h e)) \<Longrightarrow> lawful E (try_except m h)"
  unfolding lawful_def by (blast intro: keeps_try)

lemma lawful_for_each [lawfuls]:
  "(\<And>x. x \<in> set xs \<Longrightarrow> lawful E (body x)) \<Longrightarrow> lawful E (for_each xs body)"
  by (induction xs) (auto intro!: lawfuls)

lemma lawful_map_each [lawfuls]: "(\<And>x. lawful E (f x)) \<Longrightarrow> lawful E (map_each f xs)"
  by (induction xs) (auto intro!: lawfuls)

lemma lawful_option [lawfuls]:
  "lawful E m \<Longrightarrow> (\<And>x. lawful E (f x)) \<Longrightarrow> lawful E (case v of None \<Rightarrow> m | Some x \<Rightarrow> f x)"
  by (cases v) auto

lemma lawful_if [lawfuls]: "lawful E m \<Longrightarrow> lawful E n \<Longrightarrow> lawful E (if b then m else n)"
  by simp

lemma lawful_pair [lawfuls]: "(\<And>x y. lawful E (f x y)) \<Longrightarrow> lawful E (case p of (x, y) \<Rightarrow> f x y)"
  by (cases p) auto

lemma others_star: "peers E \<Longrightarrow> (db_change (fk_on E))\<^sup>*\<^sup>* d (others E i d)"
  by (simp add: peers_def)

lemma lawful_sql [lawfuls]:
  assumes "lawful_stmt (fk_on E) f"
  shows "lawful E (sql E f)"
proof (rule lawfulI)
  fix P assume pe: "peers E"
    and step: "\<And>d d'. (db_change (fk_on E))\<^sup>*\<^sup>* d d' \<Longrightarrow> P d \<Longrightarrow> P d'"
  have o: "P (others E i d)" if "P d" for i d using step [OF others_star [OF pe] that] .
  have f: "P d'" if "f d = Inr (a, d')" "P d" for a d d'
    using assms that(1) step [OF _ that(2)] by (auto simp: lawful_stmt_def)
  show "keeps (holds_throughout P) (sql E f)"
    by (auto simp: triple_def sql_def Let_def holds_throughout_def o split: option.splits sum.splits
        dest!: f [OF _ o])
qed

lemma lawful_inserts [lawfuls]:
  "lawful_stmt fk (insert_user ur)" "lawful_stmt fk (insert_telegram fk tr)"
  "lawful_stmt fk (insert_conversation fk cr)" "lawful_stmt fk (insert_message fk mr)"
  "lawful_stmt fk (insert_run fk ar)" "lawful_stmt fk (insert_step fk sr)"
  "lawful_stmt fk (insert_idem ir)" "lawful_stmt fk (insert_role rr)"
  "lawful_stmt fk (insert_permission pr)" "lawful_stmt fk (link_user_role fk u i)"
  "lawful_stmt fk (unlink_user_roles u)" "lawful_stmt fk (link_role_permission fk i q)"
  unfolding lawful_stmt_def by (auto intro!: r_into_rtranclp intro: db_change.intros)

lemma lawful_updates [lawfuls]:
  "(\<And>r. ur_id (uf r) = ur_id r) \<Longrightarrow> lawful_stmt fk (update_user i uf)"
  "(\<And>r. tr_user_id (tf r) = tr_user_id r) \<Longrightarrow> lawful_stmt fk (update_telegram i tf)"
  "(\<And>r. cr_id (cf r) = cr_id r) \<Longrightarrow> (\<And>r. cr_owner_id (cf r) = cr_owner_id r) \<Longrightarrow>
     lawful_stmt fk (update_conversation i cf json)"
  "(\<And>r. ar_id (af r) = ar_id r) \<Longrightarrow> lawful_stmt fk (update_run i af json)"
  "(\<And>r. ir_id (f r) = ir_id r \<and> ir_namespace (f r) = ir_namespace r \<and> ir_key (f r) = ir_key r) \<Longrightarrow>
     lawful_stmt fk (update_idem (\<lambda>r. p r \<and> ir_state r = started) f json)"
  unfolding lawful_stmt_def by (auto intro!: r_into_rtranclp intro: db_change.intros)

lemma lawful_select [lawfuls]: "lawful E (sql_select E q)"
  unfolding sql_select_def by (rule lawful_sql) (simp add: lawful_stmt_def query_def)

lemma lawful_session_get [lawfuls]: "lawful E (session_get E tbl upd p)"
  unfolding session_get_def by (intro lawfuls)

lemma lawful_rollback_commit [lawfuls]:
  "lawful E (rollback_session E)" "lawful E (commit_session E)"
proof -
  have keep: "keeps (holds_throughout P) (rollback_session E :: ('z, unit) io) \<and>
      keeps (holds_throughout P) (commit_session E :: ('z, unit) io)"
    if pe: "peers E" and step: "\<And>d d'. (db_change (fk_on E))\<^sup>*\<^sup>* d d' \<Longrightarrow> P d \<Longrightarrow> P d'" for P
  proof -
    have "P (others E i d)" if "P d" for i d using step [OF others_star [OF pe] that] .
    then show ?thesis
      by (auto simp: triple_def rollback_session_def commit_session_def Let_def
          holds_throughout_def split: option.splits)
  qed
  show "lawful E (rollback_session E :: ('z, unit) io)"
    by (rule lawfulI) (use keep in blast)
  show "lawful E (commit_session E :: ('z, unit) io)"
    by (rule lawfulI) (use keep in blast)
qed

lemma lawful_finally [lawfuls]: "lawful E m \<Longrightarrow> lawful E (try_finally m close_session)"
  by (auto simp: lawful_def triple_def try_finally_def close_session_def holds_throughout_def
      split: prod.splits sum.splits)

lemma lawful_exit: "lawful E (uow_exit E exc)"
  unfolding uow_exit_def rollback_quietly_def translate_database_errors_def
  by (cases exc) (auto intro!: lawfuls)

lemma lawful_uow [lawfuls]:
  fixes body :: "('z, 'a) io"
  assumes "lawful E body"
  shows "lawful E (uow E body)"
proof (rule lawfulI)
  fix P :: "db \<Rightarrow> bool" assume pe: "peers E"
    and step: "\<And>d d'. (db_change (fk_on E))\<^sup>*\<^sup>* d d' \<Longrightarrow> P d \<Longrightarrow> P d'"
  have body: "keeps (holds_throughout P) body"
    using lawfulD [OF assms pe, of P] step by blast
  have exit: "keeps (holds_throughout P) (uow_exit E exc :: ('z, unit) io)" for exc
    using lawfulD [OF lawful_exit pe, of P] step by blast
  show "keeps (holds_throughout P) (uow E body)"
  proof (rule tripleI)
    fix w :: "'z world_scheme" and a t
    assume "holds_throughout P w"
    then have w: "holds_throughout P (open_session w)"
      by (simp add: holds_throughout_def open_session_def)
    assume "uow E body w = (Inr a, t)"
    then show "holds_throughout P t"
      using keeps_snd [OF body w]
      by (auto simp: uow_def split: prod.splits sum.splits elim!: bnd_InrE
          dest: triple_InrD [OF exit])
  next
    fix w :: "'z world_scheme" and e t
    assume "holds_throughout P w"
    then have w: "holds_throughout P (open_session w)"
      by (simp add: holds_throughout_def open_session_def)
    assume "uow E body w = (Inl e, t)"
    then show "holds_throughout P t"
      using keeps_snd [OF body w]
      by (auto simp: uow_def split: prod.splits sum.splits elim!: bnd_InlE
          dest: triple_InrD [OF exit] triple_InlD [OF exit])
  qed
qed

lemma reliable_peers: "reliable E \<Longrightarrow> peers E"
  by (simp add: reliable_def peers_def)

lemma lawful_valid:
  assumes "lawful E m" and "peers E" and "valid_db (committed w)" and "valid_db (view w)"
  shows "valid_db (committed (snd (m w))) \<and> valid_db (view (snd (m w)))"
proof -
  have "keeps (holds_throughout valid_db) m"
    using assms(1,2) by (rule lawfulD) (rule schema_valid.changes_keep)
  from keeps_snd [OF this, of w] assms(3,4) show ?thesis by (simp add: holds_throughout_def)
qed

lemma uow_reliable_Inr:
  assumes "reliable E" and "uow E body w = (Inr a, w')"
  shows "\<exists>w1. body (open_session w) = (Inr a, w1) \<and>
    w' = w1\<lparr>committed := view w1, sql_count := Suc (sql_count w1), tx_open := False\<rparr>"
  using assms(2) by (auto simp: reliable_uow [OF assms(1)] split: prod.splits sum.splits)

lemma uow_reliable_Inl:
  assumes "reliable E" and "tx_local E body" and "uow E body w = (Inl e, w')"
  shows "\<exists>x w1. body (open_session w) = (Inl x, w1) \<and> e = translate_database_error ''transaction'' x \<and>
    w' = w1\<lparr>view := committed w, sql_count := Suc (sql_count w1), tx_open := False\<rparr> \<and>
    committed w1 = committed w"
  using assms(3)
  by (auto simp: reliable_uow [OF assms(1)] others_run_reliable [OF assms(1)] open_session_def
      split: prod.splits sum.splits dest!: tx_localD [OF assms(2)])

definition idle :: "'z world_scheme \<Rightarrow> bool" where
  \<comment> \<open>between units of work; the view of a closed session is not read\<close>
  "idle w \<longleftrightarrow> \<not> tx_open w \<and> view w = committed w"

subsection \<open>A concrete environment\<close>

definition quiet_env :: env where
  \<comment> \<open>no fault, no other worker, a clock that ticks every millisecond, an echoing model\<close>
  "quiet_env = \<lparr>clock = (\<lambda>i. 1000 * int i), uuids = (\<lambda>i. word_of_nat (100 + i)),
     fault = (\<lambda>_. None), others = (\<lambda>_ d. d), commit_landed = (\<lambda>_. False),
     backend_dt = (\<lambda>t. t), fk_on = True,
     role_order = (\<lambda>S. if S = {} then [] else [the_elem S]),
     permission_order = (\<lambda>S. if S = {} then [] else [the_elem S]),
     llm = (\<lambda>_ q. (Inr (echo_response q), 500))\<rparr>"

definition world_of :: "db \<Rightarrow> world" where
  "world_of d = \<lparr>committed = d, view = d, idmap = empty_db, tx_open = False, sql_count = 0,
     clock_count = 0, uuid_count = 0, llm_calls = [], log_lines = []\<rparr>"

lemma quiet_reliable: "reliable quiet_env"
  by (simp add: reliable_def quiet_env_def)

lemma quiet_peers: "peers quiet_env"
  by (simp add: peers_def quiet_env_def)

lemma quiet_backend: "backend_ok quiet_env"
  by (simp add: backend_ok_def quiet_env_def)

lemma world_of_simps [simp]:
  "committed (world_of d) = d" "view (world_of d) = d" "idmap (world_of d) = empty_db"
  "uuid_count (world_of d) = 0" "clock_count (world_of d) = 0" "sql_count (world_of d) = 0"
  "tx_open (world_of d) = False" "llm_calls (world_of d) = []" "log_lines (world_of d) = []"
  by (simp_all add: world_of_def)

end
