(* ===== verification/User_Repo.thy ===== *)
theory User_Repo
  imports Unit_Of_Work
begin

section \<open>The user repository (infrastructure/database/repositories/identity.py)\<close>

text \<open>
  Users with their Telegram identity, roles and permissions. Roles and permissions are
  created when a user carrying them is stored; storing a user replaces the user's role
  assignments and only ever adds permissions to a role.
\<close>

subsection \<open>Reading\<close>

definition roles_of_user :: "uuid \<Rightarrow> db \<Rightarrow> role_row list" where
  \<comment> \<open>\<open>roles JOIN user_roles\<close>\<close>
  "roles_of_user u d = filter (\<lambda>r. (u, rr_id r) \<in> set (tbl_user_roles d)) (tbl_roles d)"

definition permissions_of_role :: "uuid \<Rightarrow> db \<Rightarrow> permission_row list" where
  \<comment> \<open>\<open>permissions JOIN role_permissions\<close>\<close>
  "permissions_of_role r d =
     filter (\<lambda>p. (r, pr_id p) \<in> set (tbl_role_permissions d)) (tbl_permissions d)"

definition load_role :: "env \<Rightarrow> role_row \<Rightarrow> ('z, role) io" where
  "load_role E row =
     bnd (sql_select E (permissions_of_role (rr_id row))) (\<lambda>prows.
     bnd (lift_sum (sum_map (\<lambda>p. mk_permission (pr_namespace p) (pr_action p)) prows)) (\<lambda>ps.
     lift_sum (mk_role (rr_name row) (set ps))))"

definition load_roles :: "env \<Rightarrow> uuid \<Rightarrow> ('z, role set) io" where
  "load_roles E u =
     bnd (sql_select E (roles_of_user u)) (\<lambda>rows.
     bnd (map_each (load_role E) rows) (\<lambda>rs. ret (set rs)))"

definition telegram_to_domain :: "telegram_row option \<Rightarrow> exn + telegram_identity option" where
  "telegram_to_domain row =
     (case row of
        None \<Rightarrow> Inr None
      | Some t \<Rightarrow> sum_bind (mk_telegram_identity (tr_telegram_user_id t) (tr_username t)
                            (tr_first_name t) (tr_last_name t)) (\<lambda>i. Inr (Some i)))"

definition user_to_domain :: "env \<Rightarrow> user_row \<Rightarrow> ('z, user) io" where
  "user_to_domain E row =
     bnd (sql_select E (\<lambda>d. filter (\<lambda>t. tr_user_id t = ur_id row) (tbl_telegram d))) (\<lambda>trows.
     bnd (one_or_none trows) (\<lambda>trow.
     bnd (load_roles E (ur_id row)) (\<lambda>roles.
     bnd (lift_sum (enum_call user_statuses user_status_value (ur_status row))) (\<lambda>st.
     bnd (lift_sum (telegram_to_domain trow)) (\<lambda>tg.
     ret \<lparr>user_id = ur_id row, user_status = st, user_roles = roles, user_telegram = tg,
          user_created_at = ensure_utc (backend_dt E (ur_created_at row)),
          user_updated_at = ensure_utc (backend_dt E (ur_updated_at row))\<rparr>)))))"

definition get_user_row :: "env \<Rightarrow> uuid \<Rightarrow> ('z, user_row option) io" where
  "get_user_row E u = session_get E tbl_users tbl_users_update (\<lambda>r. ur_id r = u)"

definition users_get :: "env \<Rightarrow> uuid \<Rightarrow> ('z, user option) io" where
  "users_get E u =
     bnd (get_user_row E u) (\<lambda>row.
     case row of
       None \<Rightarrow> ret None
     | Some r \<Rightarrow> bnd (user_to_domain E r) (\<lambda>x. ret (Some x)))"

definition get_by_telegram_identity :: "env \<Rightarrow> int \<Rightarrow> ('z, user option) io" where
  "get_by_telegram_identity E tid =
     bnd (sql_select E (\<lambda>d. filter (\<lambda>t. tr_telegram_user_id t = tid) (tbl_telegram d))) (\<lambda>rows.
     bnd (one_or_none rows) (\<lambda>identity_row.
     case identity_row of
       None \<Rightarrow> ret None
     | Some t \<Rightarrow> users_get E (tr_user_id t)))"

subsection \<open>Writing\<close>

definition attach_identity :: "env \<Rightarrow> uuid \<Rightarrow> telegram_identity \<Rightarrow> ('z, unit) io" where
  "attach_identity E u i =
     bnd (sql_select E (\<lambda>d. filter (\<lambda>t. tr_user_id t = u) (tbl_telegram d))) (\<lambda>rows.
     bnd (one_or_none rows) (\<lambda>existing.
     case existing of
       None \<Rightarrow>
         bnd (uuid4 E) (\<lambda>new_id.
         sql E (insert_telegram (fk_on E) \<lparr>tr_id = new_id, tr_user_id = u,
           tr_telegram_user_id = tg_user_id i, tr_username = tg_username i,
           tr_first_name = tg_first_name i, tr_last_name = tg_last_name i\<rparr>))
     | Some t \<Rightarrow>
         let new = t\<lparr>tr_telegram_user_id := tg_user_id i, tr_username := tg_username i,
                     tr_first_name := tg_first_name i, tr_last_name := tg_last_name i\<rparr>
         in if new = t then ret ()
            else sql E (update_telegram (tr_id t) (\<lambda>r. r\<lparr>
              tr_telegram_user_id :=
                changed_or (tr_telegram_user_id t) (tr_telegram_user_id new) (tr_telegram_user_id r),
              tr_username := changed_or (tr_username t) (tr_username new) (tr_username r),
              tr_first_name := changed_or (tr_first_name t) (tr_first_name new) (tr_first_name r),
              tr_last_name := changed_or (tr_last_name t) (tr_last_name new) (tr_last_name r)\<rparr>))))"

definition get_or_create_permission :: "env \<Rightarrow> permission \<Rightarrow> ('z, uuid) io" where
  "get_or_create_permission E p =
     bnd (sql_select E (\<lambda>d. filter (\<lambda>r. pr_namespace r = perm_namespace p \<and>
            pr_action r = perm_action p) (tbl_permissions d))) (\<lambda>rows.
     bnd (one_or_none rows) (\<lambda>row.
     case row of
       Some r \<Rightarrow> ret (pr_id r)
     | None \<Rightarrow>
         bnd (uuid4 E) (\<lambda>i.
         bnd (sql E (insert_permission \<lparr>pr_id = i, pr_namespace = perm_namespace p,
                pr_action = perm_action p\<rparr>)) (\<lambda>_. ret i))))"

definition get_or_create_role :: "env \<Rightarrow> role \<Rightarrow> ('z, uuid) io" where
  "get_or_create_role E r =
     bnd (sql_select E (\<lambda>d. filter (\<lambda>x. rr_name x = role_name r) (tbl_roles d))) (\<lambda>rows.
     bnd (one_or_none rows) (\<lambda>row.
     bnd (case row of
            Some x \<Rightarrow> ret (rr_id x)
          | None \<Rightarrow>
              bnd (uuid4 E) (\<lambda>i.
              bnd (sql E (insert_role \<lparr>rr_id = i, rr_name = role_name r\<rparr>)) (\<lambda>_. ret i))) (\<lambda>rid.
     bnd (sql_select E (\<lambda>d. map snd (filter (\<lambda>(x, p). x = rid) (tbl_role_permissions d)))) (\<lambda>assigned.
     bnd (for_each (permission_order E (role_permissions r)) (\<lambda>p.
            bnd (get_or_create_permission E p) (\<lambda>pid.
            if pid \<notin> set assigned then sql E (link_role_permission (fk_on E) rid pid) else ret ())))
         (\<lambda>_. ret rid)))))"

definition sync_roles :: "env \<Rightarrow> uuid \<Rightarrow> role set \<Rightarrow> ('z, unit) io" where
  "sync_roles E u rs =
     bnd (sql E (unlink_user_roles u)) (\<lambda>_.
     for_each (role_order E rs) (\<lambda>r.
       bnd (get_or_create_role E r) (\<lambda>rid. sql E (link_user_role (fk_on E) u rid))))"

definition users_add :: "env \<Rightarrow> user \<Rightarrow> ('z, unit) io" where
  \<comment> \<open>the row's timestamps are the column defaults, not the entity's\<close>
  "users_add E u =
     bnd (utc_now E) (\<lambda>created.
     bnd (utc_now E) (\<lambda>updated.
     let row = \<lparr>ur_id = user_id u, ur_status = user_status_value (user_status u),
                ur_created_at = created, ur_updated_at = updated\<rparr> in
     bnd (sql E (insert_user row)) (\<lambda>_.
     bnd (remember tbl_users_update (\<lambda>rows. rows @ [row])) (\<lambda>_.
     bnd (sync_roles E (user_id u) (user_roles u)) (\<lambda>_.
     case user_telegram u of
       None \<Rightarrow> ret ()
     | Some i \<Rightarrow> attach_identity E (user_id u) i)))))"

definition users_save :: "env \<Rightarrow> user \<Rightarrow> ('z, unit) io" where
  "users_save E u =
     bnd (get_user_row E (user_id u)) (\<lambda>row.
     case row of
       None \<Rightarrow> throw (raise_not_found ''User not found.'' ''user_not_found'')
     | Some r \<Rightarrow>
         let st = user_status_value (user_status u) in
         bnd (if st = ur_status r then ret ()
              else
                bnd (utc_now E) (\<lambda>now.
                bnd (sql E (update_user (user_id u)
                       (\<lambda>x. x\<lparr>ur_status := st, ur_updated_at := now\<rparr>))) (\<lambda>_.
                remember tbl_users_update (update_where (\<lambda>x. ur_id x = user_id u)
                  (\<lambda>x. x\<lparr>ur_status := st, ur_updated_at := now\<rparr>))))) (\<lambda>_.
         bnd (sync_roles E (user_id u) (user_roles u)) (\<lambda>_.
         case user_telegram u of
           None \<Rightarrow> ret ()
         | Some i \<Rightarrow> attach_identity E (user_id u) i)))"

lemma lawful_user_reads [lawfuls]:
  "lawful E (load_role E row)" "lawful E (load_roles E u)" "lawful E (user_to_domain E urow)"
  unfolding load_roles_def user_to_domain_def load_role_def by (intro lawfuls)+

lemma lawful_user_gets [lawfuls]:
  "lawful E (users_get E u)" "lawful E (get_by_telegram_identity E tid)" "lawful E (get_user_row E u)"
  unfolding get_by_telegram_identity_def users_get_def get_user_row_def by (intro lawfuls)+

lemma lawful_user_writes [lawfuls]:
  "lawful E (attach_identity E u i)" "lawful E (get_or_create_permission E p)"
  "lawful E (get_or_create_role E r)"
  unfolding attach_identity_def get_or_create_role_def get_or_create_permission_def Let_def
  by (intro lawfuls; simp)+

lemma lawful_sync_roles [lawfuls]: "lawful E (sync_roles E u rs)"
  unfolding sync_roles_def by (intro lawfuls)

lemma lawful_users [lawfuls]: "lawful E (users_add E u)" "lawful E (users_save E u)"
  unfolding users_add_def users_save_def Let_def by (intro lawfuls; simp)+

lemma tx_local_user_reads [tx_locals]:
  "tx_local E (users_get E u)" "tx_local E (get_by_telegram_identity E tid)"
  unfolding get_by_telegram_identity_def users_get_def get_user_row_def user_to_domain_def
    load_roles_def load_role_def
  by (intro tx_locals)+

end
