(* ===== verification/Conversations.thy ===== *)
theory Conversations
  imports Errors
begin

section \<open>Conversation entities (domain/conversations/entities.py)\<close>

text \<open>
  \<open>Message\<close> and \<open>Conversation\<close>. A conversation may hold only the tail of its history:
  \<open>conv_history_window\<close> says how long a tail is known to be there. \<open>represents\<close> relates
  the loaded aggregate to the full history and is what makes \<open>recent_messages\<close> correct.
\<close>

datatype conversation_status = ConvActive | ConvArchived | ConvDeleted

fun conversation_status_value :: "conversation_status \<Rightarrow> string" where
  "conversation_status_value ConvActive = ''active''"
| "conversation_status_value ConvArchived = ''archived''"
| "conversation_status_value ConvDeleted = ''deleted''"

definition conversation_statuses :: "conversation_status list" where
  "conversation_statuses = [ConvActive, ConvArchived, ConvDeleted]"

interpretation conversation_status_enum:
  str_enum conversation_statuses conversation_status_value
proof
  show "e \<in> set conversation_statuses" for e
    by (cases e) (simp_all add: conversation_statuses_def)
  show "conversation_status_value e = conversation_status_value e' \<Longrightarrow> e = e'" for e e'
    by (cases e; cases e') simp_all
qed

datatype message_role = RoleSystem | RoleUser | RoleAssistant | RoleTool

fun message_role_value :: "message_role \<Rightarrow> string" where
  "message_role_value RoleSystem = ''system''"
| "message_role_value RoleUser = ''user''"
| "message_role_value RoleAssistant = ''assistant''"
| "message_role_value RoleTool = ''tool''"

definition message_roles :: "message_role list" where
  "message_roles = [RoleSystem, RoleUser, RoleAssistant, RoleTool]"

interpretation message_role_enum: str_enum message_roles message_role_value
proof
  show "e \<in> set message_roles" for e by (cases e) (simp_all add: message_roles_def)
  show "message_role_value e = message_role_value e' \<Longrightarrow> e = e'" for e e'
    by (cases e; cases e') simp_all
qed

record message =
  msg_id :: uuid
  msg_conversation_id :: uuid
  msg_role :: message_role
  msg_content :: string
  msg_metadata :: pydict
  msg_created_at :: datetime

definition mk_message ::
  "uuid \<Rightarrow> uuid \<Rightarrow> message_role \<Rightarrow> string \<Rightarrow> pydict \<Rightarrow> datetime \<Rightarrow> exn + message" where
  \<comment> \<open>the dataclass constructor with its \<open>__post_init__\<close>\<close>
  "mk_message i c r body meta now =
     (if blank body
      then Inl (raise_validation ''Message content is required.'' default_validation_code [])
      else Inr \<lparr>msg_id = i, msg_conversation_id = c, msg_role = r, msg_content = body,
                 msg_metadata = meta, msg_created_at = now\<rparr>)"

record conversation =
  conv_id :: uuid
  conv_owner_id :: uuid
  conv_status :: conversation_status
  conv_title :: "string option"
  conv_messages :: "message list"
  conv_metadata :: pydict
  conv_created_at :: datetime
  conv_updated_at :: datetime
  conv_history_window :: "int option"

definition new_conversation ::
  "uuid \<Rightarrow> uuid \<Rightarrow> string option \<Rightarrow> datetime \<Rightarrow> datetime \<Rightarrow> conversation" where
  \<comment> \<open>\<open>Conversation(id=..., owner_id=..., title=...)\<close> with the defaults of the dataclass\<close>
  "new_conversation i owner title created updated =
     \<lparr>conv_id = i, conv_owner_id = owner, conv_status = ConvActive, conv_title = title,
      conv_messages = [], conv_metadata = [], conv_created_at = created,
      conv_updated_at = updated, conv_history_window = None\<rparr>"

definition conv_ensure_active :: "conversation \<Rightarrow> exn + unit" where
  "conv_ensure_active c =
     sum_guard (conv_status c = ConvActive)
       (raise_conflict ''Conversation is not active.'' ''conversation_not_active''
          [(''status'', PStr (conversation_status_value (conv_status c)))])"

definition append_message ::
  "message_role \<Rightarrow> string \<Rightarrow> pydict option \<Rightarrow> uuid \<Rightarrow> datetime \<Rightarrow> datetime \<Rightarrow>
   conversation \<Rightarrow> exn + message \<times> conversation" where
  \<comment> \<open>\<open>mid\<close> is the fresh message id, \<open>created\<close> and \<open>now\<close> the two clock readings\<close>
  "append_message r body meta mid created now c =
     sum_bind (conv_ensure_active c) (\<lambda>_.
     sum_bind (mk_message mid (conv_id c) r body (dict_or_empty meta) created) (\<lambda>m.
     Inr (m, c\<lparr>conv_messages := conv_messages c @ [m],
               conv_history_window := map_option (\<lambda>w. w + 1) (conv_history_window c),
               conv_updated_at := now\<rparr>)))"

definition recent_messages :: "int \<Rightarrow> conversation \<Rightarrow> exn + message list" where
  "recent_messages limit c =
     (if limit \<le> 0
      then Inl (raise_validation ''Recent message limit must be positive.''
                  default_validation_code [])
      else case conv_history_window c of
        Some w \<Rightarrow>
          if limit > w
          then Inl (raise_validation
                 ''Requested more history than was loaded for this conversation.''
                 ''conversation_history_not_loaded''
                 [(''requested'', PInt limit), (''loaded'', PInt w)])
          else Inr (last_n (nat limit) (conv_messages c))
      | None \<Rightarrow> Inr (last_n (nat limit) (conv_messages c)))"

definition archive :: "datetime \<Rightarrow> conversation \<Rightarrow> exn + conversation" where
  "archive now c =
     sum_bind (conv_ensure_active c) (\<lambda>_.
     Inr (c\<lparr>conv_status := ConvArchived, conv_updated_at := now\<rparr>))"

definition delete_conversation :: "datetime \<Rightarrow> conversation \<Rightarrow> exn + conversation" where
  "delete_conversation now c =
     (if conv_status c = ConvDeleted
      then Inl (raise_conflict ''Conversation is already deleted.''
                  ''conversation_already_deleted'' [])
      else Inr (c\<lparr>conv_status := ConvDeleted, conv_updated_at := now\<rparr>))"

subsection \<open>Inversion facts\<close>

lemma conv_ensure_active_iff: "conv_ensure_active c = Inr u \<longleftrightarrow> conv_status c = ConvActive"
  by (simp add: conv_ensure_active_def sum_guard_Inr_iff)

lemma mk_message_Inr_iff:
  "mk_message i c r body meta now = Inr m \<longleftrightarrow> \<not> blank body \<and>
     m = \<lparr>msg_id = i, msg_conversation_id = c, msg_role = r, msg_content = body,
          msg_metadata = meta, msg_created_at = now\<rparr>"
  by (auto simp: mk_message_def)

lemma append_message_Inr_iff:
  "append_message r body meta mid created now c = Inr (m, c') \<longleftrightarrow>
     conv_status c = ConvActive \<and> \<not> blank body \<and>
     m = \<lparr>msg_id = mid, msg_conversation_id = conv_id c, msg_role = r, msg_content = body,
          msg_metadata = dict_or_empty meta, msg_created_at = created\<rparr> \<and>
     c' = c\<lparr>conv_messages := conv_messages c @ [m],
            conv_history_window := map_option (\<lambda>w. w + 1) (conv_history_window c),
            conv_updated_at := now\<rparr>"
  by (auto simp: append_message_def sum_flow conv_ensure_active_iff mk_message_Inr_iff)

lemma archive_Inr_iff:
  "archive now c = Inr c' \<longleftrightarrow> conv_status c = ConvActive \<and>
     c' = c\<lparr>conv_status := ConvArchived, conv_updated_at := now\<rparr>"
  by (auto simp: archive_def sum_flow conv_ensure_active_iff)

lemma delete_conversation_Inr_iff:
  "delete_conversation now c = Inr c' \<longleftrightarrow> conv_status c \<noteq> ConvDeleted \<and>
     c' = c\<lparr>conv_status := ConvDeleted, conv_updated_at := now\<rparr>"
  by (auto simp: delete_conversation_def)

subsection \<open>The loaded window against the full history\<close>

definition represents :: "message list \<Rightarrow> conversation \<Rightarrow> bool" where
  \<comment> \<open>\<open>c\<close> is a loaded view of a conversation whose whole history is \<open>full\<close>\<close>
  "represents full c \<longleftrightarrow>
     (case conv_history_window c of
        None \<Rightarrow> conv_messages c = full
      | Some w \<Rightarrow> 0 \<le> w \<and> suffix (conv_messages c) full \<and> nat w \<le> length (conv_messages c))"

lemma represents_append:
  assumes "represents full c"
    and "append_message r body meta mid created now c = Inr (m, c')"
  shows "represents (full @ [m]) c'"
  using assms
  by (auto simp: represents_def append_message_Inr_iff suffix_def nat_add_distrib
      split: option.splits)

lemma represents_recent:
  assumes "represents full c" and "recent_messages limit c = Inr ms"
  shows "0 < limit" and "ms = last_n (nat limit) full"
proof -
  show pos: "0 < limit" using assms(2) by (simp add: recent_messages_def split: if_splits)
  show "ms = last_n (nat limit) full"
  proof (cases "conv_history_window c")
    case None
    with assms pos show ?thesis by (simp add: represents_def recent_messages_def)
  next
    case (Some w)
    with assms pos have le: "limit \<le> w" and ms: "ms = last_n (nat limit) (conv_messages c)"
      by (auto simp: recent_messages_def split: if_splits)
    from assms(1) Some have "suffix (conv_messages c) full" "nat w \<le> length (conv_messages c)"
      by (auto simp: represents_def)
    with le ms show ?thesis by (metis last_n_suffix nat_mono order_trans)
  qed
qed

lemma recent_messages_window:
  "0 < limit \<Longrightarrow> (\<And>w. conv_history_window c = Some w \<Longrightarrow> limit \<le> w) \<Longrightarrow>
     recent_messages limit c = Inr (last_n (nat limit) (conv_messages c))"
  by (auto simp: recent_messages_def split: option.splits)

subsection \<open>Life cycle\<close>

inductive conv_step :: "conversation \<Rightarrow> conversation \<Rightarrow> bool" where
  step_append: "append_message r body meta mid created now c = Inr (m, c') \<Longrightarrow> conv_step c c'"
| step_archive: "archive now c = Inr c' \<Longrightarrow> conv_step c c'"
| step_delete: "delete_conversation now c = Inr c' \<Longrightarrow> conv_step c c'"

inductive_cases conv_stepE: "conv_step c c'"

definition is_new_conversation :: "conversation \<Rightarrow> bool" where
  "is_new_conversation c \<longleftrightarrow>
     conv_status c = ConvActive \<and> conv_messages c = [] \<and> conv_history_window c = None"

definition conv_wf :: "conversation \<Rightarrow> bool" where
  \<comment> \<open>every message is a valid message of this conversation\<close>
  "conv_wf c \<longleftrightarrow> (\<forall>m \<in> set (conv_messages c).
     \<not> blank (msg_content m) \<and> msg_conversation_id m = conv_id c)"

interpretation conv_cycle:
  terminating_lifecycle is_new_conversation conv_step conv_wf "\<lambda>c. conv_status c = ConvDeleted"
proof
  show "is_new_conversation c \<Longrightarrow> conv_wf c" for c
    by (simp add: is_new_conversation_def conv_wf_def)
  show "conv_wf c \<Longrightarrow> conv_step c c' \<Longrightarrow> conv_wf c'" for c c'
    by (erule conv_stepE)
      (auto simp: conv_wf_def append_message_Inr_iff archive_Inr_iff delete_conversation_Inr_iff)
  show "conv_status c = ConvDeleted \<Longrightarrow> \<not> conv_step c c'" for c c'
    by (auto elim!: conv_stepE
        simp: append_message_Inr_iff archive_Inr_iff delete_conversation_Inr_iff)
qed

end
