(* ===== verification/Conversation_Repo.thy ===== *)
theory Conversation_Repo
  imports Conversations Unit_Of_Work
begin

section \<open>The conversation repository (infrastructure/database/repositories/conversations.py)\<close>

text \<open>
  The port's page-size check and the SQLAlchemy repository. A SELECT ordered by
  \<open>(created_at, id)\<close> compares the stored columns; identifier texts compare as the
  numbers they spell, so the order is the one of \<open>(datetime, uuid)\<close>. \<open>save\<close> puts the
  UPDATE at the call; the session sends it with the flush of the commit, which is the next
  statement of every use case.

  \<open>stored_history\<close> is the whole history of a conversation as the tables hold it. The
  lemmas relate what the repository returns to it: a loaded conversation \<open>represents\<close>
  that history, whatever its length and the window asked for.
\<close>

definition default_message_window :: int where "default_message_window = 50"

definition max_message_window :: int where "max_message_window = 500"

definition validate_message_window :: "int \<Rightarrow> exn + int" where
  "validate_message_window limit =
     (if limit \<le> 0
      then Inl (raise_validation ''Message window must be positive.'' ''message_window_invalid''
                  [(''requested'', PInt limit)])
      else if limit > max_message_window
      then Inl (raise_validation ''Message window exceeds the maximum page size.''
                  ''message_window_too_large''
                  [(''requested'', PInt limit), (''maximum'', PInt max_message_window)])
      else Inr limit)"

lemma validate_message_window_iff:
  "validate_message_window n = Inr m \<longleftrightarrow> 0 < n \<and> n \<le> max_message_window \<and> m = n"
  by (auto simp: validate_message_window_def)

subsection \<open>Rows and entities\<close>

definition message_to_domain :: "env \<Rightarrow> message_row \<Rightarrow> exn + message" where
  "message_to_domain E row =
     sum_bind (enum_call message_roles message_role_value (mr_role row)) (\<lambda>role.
     mk_message (mr_id row) (mr_conversation_id row) role (mr_content row) (mr_meta row)
       (ensure_utc (backend_dt E (mr_created_at row))))"

definition message_row_of :: "message \<Rightarrow> message_row" where
  "message_row_of m = \<lparr>mr_id = msg_id m, mr_conversation_id = msg_conversation_id m,
     mr_role = message_role_value (msg_role m), mr_content = msg_content m,
     mr_meta = msg_metadata m, mr_created_at = msg_created_at m\<rparr>"

definition conversation_row_of :: "conversation \<Rightarrow> conversation_row" where
  "conversation_row_of c = \<lparr>cr_id = conv_id c, cr_owner_id = conv_owner_id c,
     cr_status = conversation_status_value (conv_status c), cr_title = conv_title c,
     cr_meta = conv_metadata c, cr_created_at = conv_created_at c,
     cr_updated_at = conv_updated_at c\<rparr>"

definition message_sort_key :: "message_row \<Rightarrow> datetime \<times> uuid" where
  "message_sort_key r = (mr_created_at r, mr_id r)"

definition newest_rows :: "uuid \<Rightarrow> int \<Rightarrow> db \<Rightarrow> message_row list" where
  \<comment> \<open>the SELECT: newest first, at most \<open>limit\<close> rows\<close>
  "newest_rows cid limit d =
     take (nat limit) (rev (sort_key message_sort_key
       (filter (\<lambda>r. mr_conversation_id r = cid) (tbl_messages d))))"

subsection \<open>The operations\<close>

definition load_messages :: "env \<Rightarrow> uuid \<Rightarrow> int \<Rightarrow> ('z, message list) io" where
  "load_messages E cid limit =
     bnd (sql_select E (newest_rows cid limit)) (\<lambda>rows.
     lift_sum (sum_map (message_to_domain E) (rev rows)))"

definition conversation_to_domain ::
  "env \<Rightarrow> int \<Rightarrow> conversation_row \<Rightarrow> ('z, conversation) io" where
  "conversation_to_domain E message_limit row =
     bnd (lift_sum (validate_message_window message_limit)) (\<lambda>limit.
     bnd (load_messages E (cr_id row) limit) (\<lambda>messages.
     bnd (lift_sum (enum_call conversation_statuses conversation_status_value (cr_status row))) (\<lambda>st.
     ret \<lparr>conv_id = cr_id row, conv_owner_id = cr_owner_id row, conv_status = st,
          conv_title = cr_title row, conv_messages = messages, conv_metadata = cr_meta row,
          conv_created_at = ensure_utc (backend_dt E (cr_created_at row)),
          conv_updated_at = ensure_utc (backend_dt E (cr_updated_at row)),
          conv_history_window =
            (if int (length messages) = limit then Some limit else None)\<rparr>)))"

definition get_conversation_row :: "env \<Rightarrow> uuid \<Rightarrow> ('z, conversation_row option) io" where
  "get_conversation_row E cid =
     session_get E tbl_conversations tbl_conversations_update (\<lambda>r. cr_id r = cid)"

definition conversations_get :: "env \<Rightarrow> uuid \<Rightarrow> int \<Rightarrow> ('z, conversation option) io" where
  "conversations_get E cid message_limit =
     bnd (get_conversation_row E cid) (\<lambda>row.
     case row of
       None \<Rightarrow> ret None
     | Some r \<Rightarrow> bnd (conversation_to_domain E message_limit r) (\<lambda>c. ret (Some c)))"

definition newest_active :: "uuid \<Rightarrow> db \<Rightarrow> conversation_row list" where
  \<comment> \<open>\<open>ORDER BY created_at DESC LIMIT 1\<close>; the statement leaves the order of ties open, here
    the row inserted last comes first\<close>
  "newest_active uid d =
     take 1 (rev (sort_key cr_created_at (filter (\<lambda>r. cr_owner_id r = uid \<and>
       cr_status r = conversation_status_value ConvActive) (tbl_conversations d))))"

definition get_active_for_user :: "env \<Rightarrow> uuid \<Rightarrow> int \<Rightarrow> ('z, conversation option) io" where
  "get_active_for_user E uid message_limit =
     bnd (sql_select E (newest_active uid)) (\<lambda>rows.
     bnd (one_or_none rows) (\<lambda>row.
     case row of
       None \<Rightarrow> ret None
     | Some r \<Rightarrow>
         bnd (remember tbl_conversations_update (\<lambda>rs. rs @ [r])) (\<lambda>_.
         bnd (conversation_to_domain E message_limit r) (\<lambda>c. ret (Some c)))))"

definition conversations_append_message :: "env \<Rightarrow> message \<Rightarrow> ('z, unit) io" where
  "conversations_append_message E m = sql E (insert_message (fk_on E) (message_row_of m))"

definition conversations_add :: "env \<Rightarrow> conversation \<Rightarrow> ('z, unit) io" where
  "conversations_add E c =
     bnd (sql E (insert_conversation (fk_on E) (conversation_row_of c))) (\<lambda>_.
     bnd (remember tbl_conversations_update (\<lambda>rs. rs @ [conversation_row_of c])) (\<lambda>_.
     for_each (conv_messages c) (conversations_append_message E)))"

definition conversation_update ::
  "conversation_row \<Rightarrow> conversation_row \<Rightarrow> conversation_row \<Rightarrow> conversation_row" where
  "conversation_update loaded new r = r\<lparr>
     cr_status := changed_or (cr_status loaded) (cr_status new) (cr_status r),
     cr_title := changed_or (cr_title loaded) (cr_title new) (cr_title r),
     cr_meta := changed_or (cr_meta loaded) (cr_meta new) (cr_meta r),
     cr_updated_at := cr_updated_at new\<rparr>"

definition conversations_save :: "env \<Rightarrow> conversation \<Rightarrow> ('z, unit) io" where
  "conversations_save E c =
     bnd (get_conversation_row E (conv_id c)) (\<lambda>row.
     case row of
       None \<Rightarrow> throw (raise_not_found ''Conversation not found.'' ''conversation_not_found'')
     | Some r \<Rightarrow>
         let new = r\<lparr>cr_status := conversation_status_value (conv_status c),
                     cr_title := conv_title c, cr_meta := conv_metadata c,
                     cr_updated_at := conv_updated_at c\<rparr>
         in if new = r then ret ()
            else \<comment> \<open>\<open>onupdate\<close> stamps the row when the entity's own stamp did not change\<close>
              bnd (if cr_updated_at new = cr_updated_at r then utc_now E
                   else ret (cr_updated_at new)) (\<lambda>t.
              bnd (sql E (update_conversation (conv_id c)
                     (conversation_update r (new\<lparr>cr_updated_at := t\<rparr>)) (cr_meta new))) (\<lambda>_.
              remember tbl_conversations_update
                (update_where (\<lambda>x. cr_id x = conv_id c) (\<lambda>_. new\<lparr>cr_updated_at := t\<rparr>)))))"

definition conversations_recent_messages :: "env \<Rightarrow> uuid \<Rightarrow> int \<Rightarrow> ('z, message list) io" where
  "conversations_recent_messages E cid limit =
     bnd (lift_sum (validate_message_window limit)) (\<lambda>n. load_messages E cid n)"

subsection \<open>What the operations keep\<close>

lemma lawful_load_messages [lawfuls]: "lawful E (load_messages E cid n)"
  unfolding load_messages_def by (intro lawfuls)

lemma lawful_conversation_to_domain [lawfuls]: "lawful E (conversation_to_domain E n row)"
  unfolding conversation_to_domain_def by (intro lawfuls)

lemma lawful_conversations_get [lawfuls]: "lawful E (conversations_get E cid n)"
  unfolding conversations_get_def get_conversation_row_def by (intro lawfuls)

lemma lawful_get_active [lawfuls]: "lawful E (get_active_for_user E uid n)"
  unfolding get_active_for_user_def by (intro lawfuls)

lemma lawful_conversations_append [lawfuls]: "lawful E (conversations_append_message E m)"
  unfolding conversations_append_message_def by (intro lawfuls)

lemma lawful_conversations_add [lawfuls]: "lawful E (conversations_add E c)"
  unfolding conversations_add_def by (intro lawfuls)

lemma lawful_conversations_save [lawfuls]: "lawful E (conversations_save E c)"
  unfolding conversations_save_def get_conversation_row_def Let_def
  by (intro lawfuls) (simp_all add: conversation_update_def)

lemma lawful_recent_messages [lawfuls]: "lawful E (conversations_recent_messages E cid n)"
  unfolding conversations_recent_messages_def by (intro lawfuls)

lemma tx_local_conversations [tx_locals]:
  "tx_local E (load_messages E cid n)" "tx_local E (conversation_to_domain E n row)"
  "tx_local E (conversations_get E cid n)" "tx_local E (conversations_append_message E m)"
  unfolding load_messages_def conversation_to_domain_def conversations_get_def
    get_conversation_row_def conversations_append_message_def
  by (intro tx_locals)+

subsection \<open>The stored history\<close>

definition conversation_rows :: "uuid \<Rightarrow> db \<Rightarrow> message_row list" where
  "conversation_rows cid d = filter (\<lambda>r. mr_conversation_id r = cid) (tbl_messages d)"

definition stored_history :: "env \<Rightarrow> uuid \<Rightarrow> db \<Rightarrow> exn + message list" where
  "stored_history E cid d =
     sum_map (message_to_domain E) (sort_key message_sort_key (conversation_rows cid d))"

lemma newest_rows_rev: "rev (newest_rows cid n d) =
    last_n (nat n) (sort_key message_sort_key (conversation_rows cid d))"
  by (simp add: newest_rows_def conversation_rows_def last_n_rev_take)

lemma load_messages_history:
  assumes "load_messages E cid n w = (Inr ms, w')"
    and "stored_history E cid (view w') = Inr full"
  shows "ms = last_n (nat n) full"
proof -
  let ?rows = "sort_key message_sort_key (conversation_rows cid (view w'))"
  have "sum_map (message_to_domain E) (last_n (nat n) ?rows) = Inr ms"
    using assms(1) by (auto simp: load_messages_def sql_select_def sql_def query_def Let_def
        newest_rows_rev elim!: bnd_InrE split: option.splits sum.splits)
  moreover have "sum_map (message_to_domain E) (last_n (nat n) ?rows) = Inr (last_n (nat n) full)"
    using assms(2) by (simp add: stored_history_def last_n_def sum_map_drop sum_map_length)
  ultimately show ?thesis by simp
qed

lemma conversation_to_domain_represents:
  assumes "conversation_to_domain E n row w = (Inr c, w')"
    and "stored_history E (cr_id row) (view w') = Inr full"
  shows "represents full c" and "conv_id c = cr_id row" and "conv_owner_id c = cr_owner_id row"
    and "conversation_status_value (conv_status c) = cr_status row"
    and "conv_messages c = last_n (nat n) full"
    and "conv_history_window c = (if int (length full) < n then None else Some n)"
proof -
  from assms(1) obtain st ms where n: "0 < n"
    and ms: "load_messages E (cr_id row) n w = (Inr ms, w')"
    and st: "enum_find conversation_statuses conversation_status_value (cr_status row) = Some st"
    and c: "c = \<lparr>conv_id = cr_id row, conv_owner_id = cr_owner_id row, conv_status = st,
          conv_title = cr_title row, conv_messages = ms, conv_metadata = cr_meta row,
          conv_created_at = ensure_utc (backend_dt E (cr_created_at row)),
          conv_updated_at = ensure_utc (backend_dt E (cr_updated_at row)),
          conv_history_window = (if int (length ms) = n then Some n else None)\<rparr>"
    by (auto simp: conversation_to_domain_def validate_message_window_iff enum_call_def
        elim!: bnd_InrE split: option.splits)
  note m = load_messages_history [OF ms assms(2)]
  show "conv_messages c = last_n (nat n) full" "conv_id c = cr_id row"
    "conv_owner_id c = cr_owner_id row" by (simp_all add: c m)
  show "conversation_status_value (conv_status c) = cr_status row"
    using conversation_status_enum.value_find [OF st] by (simp add: c)
  show "conv_history_window c = (if int (length full) < n then None else Some n)"
    using n by (auto simp: c m)
  show "represents full c"
    using n by (auto simp: represents_def c m suffix_last_n last_n_all min_def split: if_splits)
qed

lemma conversations_get_represents:
  assumes "conversations_get E cid n w = (Inr (Some c), w')"
    and "stored_history E (conv_id c) (view w') = Inr full"
  shows "represents full c \<and> conv_messages c = last_n (nat n) full \<and>
     conv_history_window c = (if int (length full) < n then None else Some n)"
proof -
  from assms(1) obtain row w1 where r: "conversation_to_domain E n row w1 = (Inr c, w')"
    by (auto simp: conversations_get_def elim!: bnd_InrE split: option.splits)
  then have "conv_id c = cr_id row"
    by (auto simp: conversation_to_domain_def elim!: bnd_InrE)
  with assms(2) conversation_to_domain_represents [OF r] show ?thesis by simp
qed

lemma conversations_get_id:
  assumes "conversations_get E cid n w = (Inr (Some c), w')"
  shows "conv_id c = cid"
proof -
  from assms obtain row w1 w2 where "get_conversation_row E cid w = (Inr (Some row), w1)"
    and c: "conversation_to_domain E n row w2 = (Inr c, w')"
    by (auto simp: conversations_get_def elim!: bnd_InrE split: option.splits)
  then have "cr_id row = cid" unfolding get_conversation_row_def by (auto dest: session_get_key)
  moreover have "conv_id c = cr_id row"
    using c by (auto simp: conversation_to_domain_def elim!: bnd_InrE)
  ultimately show ?thesis by simp
qed

subsection \<open>Appending\<close>

lemma message_round_trip:
  assumes "backend_ok E" and "\<not> blank (msg_content m)" and "msg_created_at m = Utc t"
  shows "message_to_domain E (message_row_of m) = Inr m"
  using assms
  by (simp add: message_to_domain_def message_row_of_def enum_call_def
      message_role_enum.find_value mk_message_def backend_round_trip)

lemma insert_message_history:
  assumes "insert_message fk (message_row_of m) d = Inr ((), d')"
    and "backend_ok E" and "\<not> blank (msg_content m)" and "msg_created_at m = Utc t"
    and "\<And>r. r \<in> set (conversation_rows (msg_conversation_id m) d) \<Longrightarrow>
       message_sort_key r \<le> (Utc t, msg_id m)"
    and "stored_history E (msg_conversation_id m) d = Inr full"
  shows "stored_history E (msg_conversation_id m) d' = Inr (full @ [m])"
proof -
  let ?c = "msg_conversation_id m"
  have d': "tbl_messages d' = tbl_messages d @ [message_row_of m]"
    using assms(1) by (auto simp: insert_message_def guarded_Inr_iff)
  have rows: "conversation_rows ?c d' = conversation_rows ?c d @ [message_row_of m]"
    by (simp add: conversation_rows_def d') (simp add: message_row_of_def)
  have "sort_key message_sort_key (conversation_rows ?c d') =
      sort_key message_sort_key (conversation_rows ?c d) @ [message_row_of m]"
    unfolding rows using assms(4,5)
    by (intro sort_key_snoc_max) (simp add: message_sort_key_def message_row_of_def)
  with assms(6) message_round_trip [OF assms(2-4)] show ?thesis
    by (simp add: stored_history_def sum_map_append)
qed

lemma insert_message_other_history:
  assumes "insert_message fk (message_row_of m) d = Inr ((), d')" and "cid \<noteq> msg_conversation_id m"
  shows "stored_history E cid d' = stored_history E cid d"
proof -
  have "tbl_messages d' = tbl_messages d @ [message_row_of m]"
    using assms(1) by (auto simp: insert_message_def guarded_Inr_iff)
  then have "conversation_rows cid d' = conversation_rows cid d"
    using assms(2) by (simp add: conversation_rows_def) (simp add: message_row_of_def)
  then show ?thesis by (simp add: stored_history_def)
qed

end
