(* ===== verification/Use_Cases.thy ===== *)
theory Use_Cases
  imports User_Repo Conversation_Repo
begin

section \<open>Identity and conversation use cases (application/identity, application/conversations)\<close>

text \<open>
  Each use case runs inside its caller's unit of work on that unit's repositories.
\<close>

subsection \<open>Identity\<close>

definition register_or_update_telegram_user :: "env \<Rightarrow> telegram_identity \<Rightarrow> ('z, user) io" where
  "register_or_update_telegram_user E i =
     bnd (get_by_telegram_identity E (tg_user_id i)) (\<lambda>existing.
     case existing of
       Some u \<Rightarrow>
         bnd (call_method E 0 1 (\<lambda>_ t. Inr (attach_telegram_identity i (t 0) u))) (\<lambda>u'.
         bnd (users_save E u') (\<lambda>_. ret u'))
     | None \<Rightarrow>
         bnd (call_method E 1 3 (\<lambda>ids t.
                Inr (attach_telegram_identity i (t 2) (new_user (ids 0) (t 0) (t 1))))) (\<lambda>u.
         bnd (users_add E u) (\<lambda>_. ret u)))"

definition resolve_current_actor :: "env \<Rightarrow> int \<Rightarrow> ('z, user) io" where
  "resolve_current_actor E tid =
     bnd (get_by_telegram_identity E tid) (\<lambda>found.
     case found of
       None \<Rightarrow> throw (Nexa (AuthorizationError ''Unknown Telegram user.'' ''unknown_actor'' []))
     | Some u \<Rightarrow> bnd (lift_sum (user_ensure_active u)) (\<lambda>_. ret u))"

definition change_user ::
  "env \<Rightarrow> (datetime \<Rightarrow> user \<Rightarrow> exn + user) \<Rightarrow> uuid \<Rightarrow> ('z, user) io" where
  \<comment> \<open>load, change, save: the shape \<open>BanUser\<close> and \<open>UnbanUser\<close> share\<close>
  "change_user E f uid =
     bnd (users_get E uid) (\<lambda>found.
     case found of
       None \<Rightarrow> throw (raise_not_found ''User not found.'' ''user_not_found'')
     | Some u \<Rightarrow>
         bnd (call_method E 0 1 (\<lambda>_ t. f (t 0) u)) (\<lambda>u'.
         bnd (users_save E u') (\<lambda>_. ret u')))"

definition ban_user :: "env \<Rightarrow> uuid \<Rightarrow> ('z, user) io" where
  "ban_user E uid = change_user E ban uid"

definition unban_user :: "env \<Rightarrow> uuid \<Rightarrow> ('z, user) io" where
  "unban_user E uid = change_user E unban uid"

subsection \<open>Conversations\<close>

definition create_conversation :: "env \<Rightarrow> uuid \<Rightarrow> string option \<Rightarrow> ('z, conversation) io" where
  "create_conversation E owner title =
     bnd (call_method E 1 2 (\<lambda>ids t. Inr (new_conversation (ids 0) owner title (t 0) (t 1)))) (\<lambda>c.
     bnd (conversations_add E c) (\<lambda>_. ret c))"

definition conversation_or_raise :: "env \<Rightarrow> uuid \<Rightarrow> ('z, conversation) io" where
  "conversation_or_raise E cid =
     bnd (conversations_get E cid default_message_window) (\<lambda>found.
     case found of
       None \<Rightarrow> throw (raise_not_found ''Conversation not found.'' ''conversation_not_found'')
     | Some c \<Rightarrow> ret c)"

definition append_to_conversation ::
  "env \<Rightarrow> uuid \<Rightarrow> message_role \<Rightarrow> string \<Rightarrow> pydict option \<Rightarrow> ('z, message) io" where
  "append_to_conversation E cid r body meta =
     bnd (conversation_or_raise E cid) (\<lambda>c.
     bnd (call_method E 1 2 (\<lambda>ids t. append_message r body meta (ids 0) (t 0) (t 1) c)) (\<lambda>(m, c').
     bnd (conversations_append_message E m) (\<lambda>_. ret m)))"

definition load_recent_context :: "env \<Rightarrow> uuid \<Rightarrow> int \<Rightarrow> ('z, message list) io" where
  "load_recent_context E cid limit = conversations_recent_messages E cid limit"

definition archive_conversation :: "env \<Rightarrow> uuid \<Rightarrow> ('z, conversation) io" where
  "archive_conversation E cid =
     bnd (conversation_or_raise E cid) (\<lambda>c.
     bnd (call_method E 0 1 (\<lambda>_ t. archive (t 0) c)) (\<lambda>c'.
     bnd (conversations_save E c') (\<lambda>_. ret c')))"

definition delete_conversation_use_case :: "env \<Rightarrow> uuid \<Rightarrow> ('z, conversation) io" where
  "delete_conversation_use_case E cid =
     bnd (conversation_or_raise E cid) (\<lambda>c.
     bnd (call_method E 0 1 (\<lambda>_ t. delete_conversation (t 0) c)) (\<lambda>c'.
     bnd (conversations_save E c') (\<lambda>_. ret c')))"

lemma lawful_identity_use_cases [lawfuls]:
  "lawful E (register_or_update_telegram_user E i)" "lawful E (resolve_current_actor E tid)"
  "lawful E (ban_user E uid)" "lawful E (unban_user E uid)"
  unfolding register_or_update_telegram_user_def resolve_current_actor_def ban_user_def
    unban_user_def change_user_def
  by (intro lawfuls)+

lemma lawful_conversation_use_cases [lawfuls]:
  "lawful E (create_conversation E owner title)" "lawful E (append_to_conversation E cid r body meta)"
  "lawful E (load_recent_context E cid n)" "lawful E (archive_conversation E cid)"
  "lawful E (delete_conversation_use_case E cid)"
  unfolding create_conversation_def append_to_conversation_def load_recent_context_def
    archive_conversation_def delete_conversation_use_case_def conversation_or_raise_def
  by (intro lawfuls)+

lemma tx_local_resolve [tx_locals]: "tx_local E (resolve_current_actor E tid)"
  unfolding resolve_current_actor_def by (intro tx_locals)

end
