(* ===== verification/Agent_Runs.thy ===== *)
theory Agent_Runs
  imports Errors
begin

section \<open>The agent run state machine (domain/agent/entities.py)\<close>

text \<open>
  \<open>AgentRun\<close> with its limits and steps. Every method is a function from the run before to
  the run after, or to the exception it raises; the ids and clock readings it draws
  (\<open>new_agent_step_id()\<close>, \<open>utc_now()\<close>) are arguments. No method changes the run before
  its last check, so a raising call leaves the object as it was. \<open>run_step\<close> is the
  transition relation the methods allow, \<open>run_wf\<close> what holds in every reachable run.
\<close>

datatype agent_run_status = RunPending | RunRunning | RunSucceeded | RunFailed | RunCancelled

fun run_status_value :: "agent_run_status \<Rightarrow> string" where
  "run_status_value RunPending = ''pending''"
| "run_status_value RunRunning = ''running''"
| "run_status_value RunSucceeded = ''succeeded''"
| "run_status_value RunFailed = ''failed''"
| "run_status_value RunCancelled = ''cancelled''"

definition run_statuses :: "agent_run_status list" where
  "run_statuses = [RunPending, RunRunning, RunSucceeded, RunFailed, RunCancelled]"

interpretation run_status_enum: str_enum run_statuses run_status_value
proof
  show "e \<in> set run_statuses" for e by (cases e) (simp_all add: run_statuses_def)
  show "run_status_value e = run_status_value e' \<Longrightarrow> e = e'" for e e'
    by (cases e; cases e') simp_all
qed

datatype agent_step_type =
    StepPlanning | StepModelCall | StepToolCall | StepToolResult | StepValidation
  | StepFinalResponse | StepError

fun step_type_value :: "agent_step_type \<Rightarrow> string" where
  "step_type_value StepPlanning = ''planning''"
| "step_type_value StepModelCall = ''model_call''"
| "step_type_value StepToolCall = ''tool_call''"
| "step_type_value StepToolResult = ''tool_result''"
| "step_type_value StepValidation = ''validation''"
| "step_type_value StepFinalResponse = ''final_response''"
| "step_type_value StepError = ''error''"

definition step_types :: "agent_step_type list" where
  "step_types = [StepPlanning, StepModelCall, StepToolCall, StepToolResult, StepValidation,
     StepFinalResponse, StepError]"

interpretation step_type_enum: str_enum step_types step_type_value
proof
  show "e \<in> set step_types" for e by (cases e) (simp_all add: step_types_def)
  show "step_type_value e = step_type_value e' \<Longrightarrow> e = e'" for e e'
    by (cases e; cases e') simp_all
qed

definition terminal_step_types :: "agent_step_type set" where
  "terminal_step_types = {StepFinalResponse, StepError}"

definition terminal_run_statuses :: "agent_run_status set" where
  "terminal_run_statuses = {RunSucceeded, RunFailed, RunCancelled}"

record agent_limits =
  max_steps :: int
  max_tool_calls :: int
  max_retries :: int
  max_execution_seconds :: int
  max_context_tokens :: int

definition default_limits :: agent_limits where
  "default_limits = \<lparr>max_steps = 12, max_tool_calls = 6, max_retries = 2,
     max_execution_seconds = 60, max_context_tokens = 12000\<rparr>"

definition invalid_limits :: "agent_limits \<Rightarrow> string list" where
  "invalid_limits l = map fst (filter (\<lambda>(n, v). v \<le> 0)
     [(''max_steps'', max_steps l), (''max_tool_calls'', max_tool_calls l),
      (''max_retries'', max_retries l), (''max_execution_seconds'', max_execution_seconds l),
      (''max_context_tokens'', max_context_tokens l)])"

definition mk_agent_limits :: "agent_limits \<Rightarrow> exn + agent_limits" where
  \<comment> \<open>the constructor: \<open>__post_init__\<close> on the given field values\<close>
  "mk_agent_limits l =
     (if invalid_limits l \<noteq> []
      then Inl (raise_validation ''Agent limits must be positive.'' default_validation_code
                  [(''invalid_fields'', PList (map PStr (invalid_limits l)))])
      else Inr l)"

definition limits_positive :: "agent_limits \<Rightarrow> bool" where
  "limits_positive l \<longleftrightarrow> 0 < max_steps l \<and> 0 < max_tool_calls l \<and> 0 < max_retries l \<and>
     0 < max_execution_seconds l \<and> 0 < max_context_tokens l"

lemma mk_agent_limits_iff: "mk_agent_limits l = Inr l' \<longleftrightarrow> limits_positive l \<and> l' = l"
  by (auto simp: mk_agent_limits_def invalid_limits_def limits_positive_def)

lemma default_limits_ok: "mk_agent_limits default_limits = Inr default_limits"
  by (simp add: mk_agent_limits_iff limits_positive_def default_limits_def)

record agent_step =
  step_id :: uuid
  step_run_id :: uuid
  step_index :: int
  step_type :: agent_step_type
  step_metadata :: pydict
  step_created_at :: datetime

record agent_run =
  run_id :: uuid
  run_user_id :: uuid
  run_conversation_id :: uuid
  run_provider :: string
  run_model :: string
  run_limits :: agent_limits
  run_status :: agent_run_status
  run_steps :: "agent_step list"
  run_started_at :: "datetime option"
  run_finished_at :: "datetime option"
  run_failure_reason :: "string option"
  run_final_response :: "string option"
  run_usage_metadata :: pydict

definition new_agent_run ::
  "uuid \<Rightarrow> uuid \<Rightarrow> uuid \<Rightarrow> string \<Rightarrow> string \<Rightarrow> agent_limits \<Rightarrow> agent_run" where
  "new_agent_run i u c p m l =
     \<lparr>run_id = i, run_user_id = u, run_conversation_id = c, run_provider = p, run_model = m,
      run_limits = l, run_status = RunPending, run_steps = [], run_started_at = None,
      run_finished_at = None, run_failure_reason = None, run_final_response = None,
      run_usage_metadata = []\<rparr>"

subsection \<open>The methods\<close>

definition start_run :: "datetime \<Rightarrow> agent_run \<Rightarrow> exn + agent_run" where
  "start_run now r =
     (if run_status r \<noteq> RunPending
      then Inl (raise_conflict ''Only pending agent runs can be started.''
                  ''agent_run_not_pending'' [])
      else Inr (r\<lparr>run_status := RunRunning, run_started_at := Some now\<rparr>))"

definition ensure_running :: "agent_run \<Rightarrow> exn + unit" where
  "ensure_running r = sum_guard (run_status r = RunRunning)
     (raise_conflict ''Agent run is not running.'' ''agent_run_not_running''
        [(''status'', PStr (run_status_value (run_status r)))])"

definition tool_call_count :: "agent_run \<Rightarrow> int" where
  "tool_call_count r = int (length (filter (\<lambda>s. step_type s = StepToolCall) (run_steps r)))"

definition ensure_step_budget :: "agent_step_type \<Rightarrow> agent_run \<Rightarrow> exn + unit" where
  "ensure_step_budget ty r =
     (if ty \<in> terminal_step_types then Inr ()
      else if int (length (run_steps r)) \<ge> max_steps (run_limits r)
      then Inl (Nexa (AgentExecutionError ''Agent step limit exceeded.''
                        ''agent_step_limit_exceeded'' False []))
      else if ty = StepToolCall \<and> tool_call_count r \<ge> max_tool_calls (run_limits r)
      then Inl (Nexa (AgentExecutionError ''Agent tool call limit exceeded.''
                        ''agent_tool_limit_exceeded'' False []))
      else Inr ())"

definition record_step ::
  "agent_step_type \<Rightarrow> pydict option \<Rightarrow> uuid \<Rightarrow> datetime \<Rightarrow> agent_run \<Rightarrow> exn + agent_run" where
  "record_step ty meta sid now r =
     sum_bind (ensure_running r) (\<lambda>_.
     sum_bind (ensure_step_budget ty r) (\<lambda>_.
     Inr (r\<lparr>run_steps := run_steps r @
       [\<lparr>step_id = sid, step_run_id = run_id r, step_index = int (length (run_steps r)) + 1,
         step_type = ty, step_metadata = dict_or_empty meta, step_created_at = now\<rparr>]\<rparr>)))"

definition finish_run ::
  "string \<Rightarrow> pydict option \<Rightarrow> uuid \<Rightarrow> datetime \<Rightarrow> datetime \<Rightarrow> agent_run \<Rightarrow> exn + agent_run" where
  \<comment> \<open>\<open>sid\<close> and \<open>snow\<close> are the id and time of the recorded step, \<open>now\<close> the end time\<close>
  "finish_run resp usage sid snow now r =
     sum_bind (ensure_running r) (\<lambda>_.
     sum_bind (sum_guard (\<not> blank resp)
       (raise_validation ''Final response is required.'' default_validation_code [])) (\<lambda>_.
     sum_bind (record_step StepFinalResponse None sid snow r) (\<lambda>r'.
     Inr (r'\<lparr>run_status := RunSucceeded, run_final_response := Some resp,
             run_usage_metadata := dict_or_empty usage, run_finished_at := Some now\<rparr>))))"

definition fail_run ::
  "string \<Rightarrow> uuid \<Rightarrow> datetime \<Rightarrow> datetime \<Rightarrow> agent_run \<Rightarrow> exn + agent_run" where
  "fail_run reason sid snow now r =
     (if run_status r \<in> {RunSucceeded, RunFailed, RunCancelled}
      then Inl (raise_conflict ''Terminal agent runs cannot transition again.''
                  ''agent_run_terminal'' [])
      else sum_bind
        (if run_status r = RunRunning
         then record_step StepError (Some [(''reason'', PStr reason)]) sid snow r
         else Inr r) (\<lambda>r'.
        Inr (r'\<lparr>run_status := RunFailed, run_failure_reason := Some reason,
                run_finished_at := Some now\<rparr>)))"

subsection \<open>What each method does, branch by branch\<close>

lemma ensure_running_iff: "ensure_running r = Inr u \<longleftrightarrow> run_status r = RunRunning"
  by (simp add: ensure_running_def sum_guard_Inr_iff)

lemma start_run_Inr_iff:
  "start_run now r = Inr r' \<longleftrightarrow> run_status r = RunPending \<and>
     r' = r\<lparr>run_status := RunRunning, run_started_at := Some now\<rparr>"
  by (auto simp: start_run_def)

lemma ensure_step_budget_iff:
  "ensure_step_budget ty r = Inr u \<longleftrightarrow>
     ty \<in> terminal_step_types \<or>
     int (length (run_steps r)) < max_steps (run_limits r) \<and>
     (ty = StepToolCall \<longrightarrow> tool_call_count r < max_tool_calls (run_limits r))"
  by (auto simp: ensure_step_budget_def)

lemma record_step_Inr_iff:
  "record_step ty meta sid now r = Inr r' \<longleftrightarrow>
     run_status r = RunRunning \<and> ensure_step_budget ty r = Inr () \<and>
     r' = r\<lparr>run_steps := run_steps r @
       [\<lparr>step_id = sid, step_run_id = run_id r, step_index = int (length (run_steps r)) + 1,
         step_type = ty, step_metadata = dict_or_empty meta, step_created_at = now\<rparr>]\<rparr>"
  by (auto simp: record_step_def sum_flow ensure_running_iff)

lemma budget_exempt [simp]:
  "ensure_step_budget StepFinalResponse r = Inr ()"
  "ensure_step_budget StepError r = Inr ()"
  by (simp_all add: ensure_step_budget_def terminal_step_types_def)

lemma finish_run_Inr_iff:
  "finish_run resp usage sid snow now r = Inr r' \<longleftrightarrow>
     run_status r = RunRunning \<and> \<not> blank resp \<and>
     r' = r\<lparr>run_steps := run_steps r @
        [\<lparr>step_id = sid, step_run_id = run_id r, step_index = int (length (run_steps r)) + 1,
          step_type = StepFinalResponse, step_metadata = [], step_created_at = snow\<rparr>],
        run_status := RunSucceeded, run_final_response := Some resp,
        run_usage_metadata := dict_or_empty usage, run_finished_at := Some now\<rparr>"
  by (auto simp: finish_run_def sum_flow ensure_running_iff record_step_Inr_iff
      dict_or_empty_def [of None])

definition with_error_step :: "string \<Rightarrow> uuid \<Rightarrow> datetime \<Rightarrow> agent_run \<Rightarrow> agent_run" where
  \<comment> \<open>what \<open>fail\<close> appends to a running run\<close>
  "with_error_step reason sid snow r = r\<lparr>run_steps := run_steps r @
     [\<lparr>step_id = sid, step_run_id = run_id r, step_index = int (length (run_steps r)) + 1,
       step_type = StepError, step_metadata = [(''reason'', PStr reason)],
       step_created_at = snow\<rparr>]\<rparr>"

lemma fail_run_Inr_iff:
  "fail_run reason sid snow now r = Inr r' \<longleftrightarrow>
     run_status r \<in> {RunPending, RunRunning} \<and>
     r' = (if run_status r = RunRunning then with_error_step reason sid snow r else r)
        \<lparr>run_status := RunFailed, run_failure_reason := Some reason,
         run_finished_at := Some now\<rparr>"
  by (cases "run_status r")
    (auto simp: fail_run_def sum_flow record_step_Inr_iff dict_or_empty_def with_error_step_def)

lemma fail_run_ok:
  "run_status r \<notin> terminal_run_statuses \<Longrightarrow> \<exists>r'. fail_run reason sid snow now r = Inr r'"
  by (cases "run_status r") (simp_all add: fail_run_Inr_iff terminal_run_statuses_def)

lemmas run_method_iffs = start_run_Inr_iff record_step_Inr_iff finish_run_Inr_iff fail_run_Inr_iff

subsection \<open>Life cycle and invariant\<close>

inductive run_step :: "agent_run \<Rightarrow> agent_run \<Rightarrow> bool" where
  step_start: "start_run now r = Inr r' \<Longrightarrow> run_step r r'"
| step_record: "record_step ty meta sid now r = Inr r' \<Longrightarrow> run_step r r'"
| step_finish: "finish_run resp usage sid snow now r = Inr r' \<Longrightarrow> run_step r r'"
| step_fail: "fail_run reason sid snow now r = Inr r' \<Longrightarrow> run_step r r'"

inductive_cases run_stepE: "run_step r r'"

definition is_new_run :: "agent_run \<Rightarrow> bool" where
  "is_new_run r \<longleftrightarrow> limits_positive (run_limits r) \<and>
     (\<exists>i u c p m l. r = new_agent_run i u c p m l)"

definition work_steps :: "agent_run \<Rightarrow> agent_step list" where
  "work_steps r = filter (\<lambda>s. step_type s \<notin> terminal_step_types) (run_steps r)"

definition steps_numbered :: "agent_run \<Rightarrow> bool" where
  "steps_numbered r \<longleftrightarrow> map step_index (run_steps r) = map (\<lambda>i. int i + 1) [0..<length (run_steps r)] \<and>
     (\<forall>s \<in> set (run_steps r). step_run_id s = run_id r)"

definition within_budget :: "agent_run \<Rightarrow> bool" where
  "within_budget r \<longleftrightarrow> int (length (work_steps r)) \<le> max_steps (run_limits r) \<and>
     tool_call_count r \<le> max_tool_calls (run_limits r)"

definition times_match :: "agent_run \<Rightarrow> bool" where
  "times_match r \<longleftrightarrow>
     (run_status r = RunPending \<longrightarrow> run_started_at r = None \<and> run_steps r = []) \<and>
     (run_status r \<in> {RunRunning, RunSucceeded} \<longrightarrow> run_started_at r \<noteq> None) \<and>
     (run_status r \<in> terminal_run_statuses \<longleftrightarrow> run_finished_at r \<noteq> None) \<and>
     (run_status r = RunSucceeded \<longleftrightarrow> run_final_response r \<noteq> None) \<and>
     (run_status r = RunFailed \<longleftrightarrow> run_failure_reason r \<noteq> None) \<and>
     run_status r \<noteq> RunCancelled"

definition run_wf :: "agent_run \<Rightarrow> bool" where
  "run_wf r \<longleftrightarrow> limits_positive (run_limits r) \<and> steps_numbered r \<and> within_budget r \<and> times_match r"

lemma steps_numbered_snoc:
  "steps_numbered r \<Longrightarrow> step_index s = int (length (run_steps r)) + 1 \<Longrightarrow>
     step_run_id s = run_id r \<Longrightarrow> steps_numbered (r\<lparr>run_steps := run_steps r @ [s]\<rparr>)"
  by (simp add: steps_numbered_def)

lemma within_budget_snoc:
  assumes "within_budget r" and "ensure_step_budget ty r = Inr ()" and "step_type s = ty"
  shows "within_budget (r\<lparr>run_steps := run_steps r @ [s]\<rparr>)"
proof -
  have "int (length (work_steps r)) \<le> int (length (run_steps r))"
    by (simp add: work_steps_def)
  with assms(2) have "ty \<notin> terminal_step_types \<Longrightarrow> int (length (work_steps r)) < max_steps (run_limits r)"
    by (auto simp: ensure_step_budget_iff)
  then have "ty \<notin> terminal_step_types \<Longrightarrow> int (length (work_steps r)) + 1 \<le> max_steps (run_limits r)"
    by simp
  with assms show ?thesis
    by (auto simp: within_budget_def ensure_step_budget_iff work_steps_def tool_call_count_def
        terminal_step_types_def)
qed

lemma run_wf_start: "run_wf r \<Longrightarrow> start_run now r = Inr r' \<Longrightarrow> run_wf r'"
  by (auto simp: run_wf_def start_run_Inr_iff steps_numbered_def within_budget_def work_steps_def
      tool_call_count_def times_match_def terminal_run_statuses_def)

lemma run_wf_record:
  assumes "run_wf r" and "record_step ty meta sid now r = Inr r'"
  shows "run_wf r'"
proof -
  let ?s = "\<lparr>step_id = sid, step_run_id = run_id r, step_index = int (length (run_steps r)) + 1,
    step_type = ty, step_metadata = dict_or_empty meta, step_created_at = now\<rparr>"
  from assms(2) have st: "run_status r = RunRunning" and b: "ensure_step_budget ty r = Inr ()"
    and r': "r' = r\<lparr>run_steps := run_steps r @ [?s]\<rparr>"
    by (auto simp: record_step_Inr_iff)
  from assms(1) have "steps_numbered r" "within_budget r" by (simp_all add: run_wf_def)
  with b r' have "steps_numbered r'" "within_budget r'"
    by (simp_all add: steps_numbered_snoc within_budget_snoc [OF _ b])
  with assms(1) st r' show ?thesis
    by (simp add: run_wf_def times_match_def terminal_run_statuses_def)
qed

lemma finish_run_via_record:
  assumes "finish_run resp usage sid snow now r = Inr r'"
  obtains r1 where "record_step StepFinalResponse None sid snow r = Inr r1"
    and "r' = r1\<lparr>run_status := RunSucceeded, run_final_response := Some resp,
             run_usage_metadata := dict_or_empty usage, run_finished_at := Some now\<rparr>"
  using assms by (auto simp: finish_run_def sum_flow)

lemma run_wf_finish:
  assumes "run_wf r" and "finish_run resp usage sid snow now r = Inr r'"
  shows "run_wf r'"
proof -
  from assms(2) obtain r1 where r1: "record_step StepFinalResponse None sid snow r = Inr r1"
    and r': "r' = r1\<lparr>run_status := RunSucceeded, run_final_response := Some resp,
             run_usage_metadata := dict_or_empty usage, run_finished_at := Some now\<rparr>"
    by (rule finish_run_via_record)
  have "run_wf r1" using assms(1) r1 by (rule run_wf_record)
  moreover have "run_status r1 = RunRunning" using r1 by (auto simp: record_step_Inr_iff)
  ultimately show ?thesis
    by (auto simp: r' run_wf_def steps_numbered_def within_budget_def work_steps_def
        tool_call_count_def times_match_def terminal_run_statuses_def)
qed

lemma run_wf_fail:
  assumes "run_wf r" and "fail_run reason sid snow now r = Inr r'"
  shows "run_wf r'"
proof -
  from assms(2) obtain r1 where r1: "run_wf r1" "run_status r1 \<in> {RunPending, RunRunning}"
    and r': "r' = r1\<lparr>run_status := RunFailed, run_failure_reason := Some reason,
               run_finished_at := Some now\<rparr>"
  proof (cases "run_status r = RunRunning")
    case True
    with assms(2) obtain r1 where "record_step StepError (Some [(''reason'', PStr reason)]) sid snow r = Inr r1"
      "r' = r1\<lparr>run_status := RunFailed, run_failure_reason := Some reason, run_finished_at := Some now\<rparr>"
      by (auto simp: fail_run_def sum_flow)
    moreover from this have "run_wf r1" "run_status r1 = RunRunning"
      using assms(1) run_wf_record by (blast, auto simp: record_step_Inr_iff)
    ultimately show ?thesis by (intro that) auto
  next
    case False
    with assms show ?thesis by (intro that [of r]) (auto simp: fail_run_Inr_iff)
  qed
  then show ?thesis
    by (auto simp: run_wf_def steps_numbered_def within_budget_def work_steps_def
        tool_call_count_def times_match_def terminal_run_statuses_def)
qed

interpretation run_cycle:
  terminating_lifecycle is_new_run run_step run_wf "\<lambda>r. run_status r \<in> terminal_run_statuses"
proof
  show "is_new_run r \<Longrightarrow> run_wf r" for r
    by (auto simp: is_new_run_def new_agent_run_def run_wf_def steps_numbered_def
        within_budget_def work_steps_def tool_call_count_def times_match_def
        terminal_run_statuses_def limits_positive_def)
  show "run_wf r \<Longrightarrow> run_step r r' \<Longrightarrow> run_wf r'" for r r'
    by (erule run_stepE) (blast intro: run_wf_start run_wf_record run_wf_finish run_wf_fail)+
  show "run_status r \<in> terminal_run_statuses \<Longrightarrow> \<not> run_step r r'" for r r'
    by (auto elim!: run_stepE simp: run_method_iffs terminal_run_statuses_def)
qed

lemma run_step_identity:
  "run_step r r' \<Longrightarrow> run_id r' = run_id r \<and> run_limits r' = run_limits r \<and>
     run_user_id r' = run_user_id r \<and> run_conversation_id r' = run_conversation_id r \<and>
     run_provider r' = run_provider r \<and> run_model r' = run_model r \<and>
     prefix (run_steps r) (run_steps r')"
  by (erule run_stepE) (auto simp: run_method_iffs with_error_step_def)

subsection \<open>Properties\<close>

definition sample_run :: agent_run where
  "sample_run = new_agent_run 1 2 3 ''openai'' ''gpt'' default_limits"

definition sample_started :: agent_run where
  "sample_started = sample_run\<lparr>run_status := RunRunning, run_started_at := Some (Utc 5)\<rparr>"

lemma sample_run_new: "is_new_run sample_run"
  by (auto simp: is_new_run_def sample_run_def new_agent_run_def default_limits_def
      limits_positive_def)

lemma sample_step: "run_step sample_run sample_started"
  by (rule step_start [of "Utc 5"])
    (simp add: start_run_def sample_started_def sample_run_def new_agent_run_def)

lemma sample_reachable: "reachable is_new_run run_step sample_started"
  using sample_run_new sample_step by (blast intro: reachable.intros)

text \<open>C14: whatever sequence of methods is called on a new agent run, its steps are numbered
  from 1 without gaps, its ordinary steps and tool calls stay within the run's limits, and its
  status agrees with the times, the response and the failure reason it carries.\<close>

theorem agent_run_invariant:
  assumes "reachable is_new_run run_step r"
  shows "limits_positive (run_limits r) \<and> steps_numbered r \<and> within_budget r \<and> times_match r"
  using run_cycle.reachable_inv [OF assms] by (simp add: run_wf_def)

theorem agent_run_invariant_witness:
  "limits_positive (run_limits sample_started) \<and> steps_numbered sample_started \<and>
     within_budget sample_started \<and> times_match sample_started"
  by (rule agent_run_invariant [OF sample_reachable])

text \<open>A run that reached a terminal status never changes again: every method refuses it.\<close>

lemma terminal_run_is_final:
  assumes "run_status r \<in> terminal_run_statuses" and "run_step\<^sup>*\<^sup>* r r'"
  shows "r' = r \<and> (\<exists>e. fail_run reason sid snow now r = Inl e) \<and>
     (\<exists>e. finish_run resp usage sid snow now r = Inl e) \<and> (\<exists>e. start_run now r = Inl e)"
proof -
  have "\<exists>e. x = Inl e" if "\<And>y. x \<noteq> Inr y" for x :: "exn + agent_run"
    using that by (cases x) auto
  with assms show ?thesis
    using run_cycle.final_stable [OF assms(2,1)]
    by (auto simp: terminal_run_statuses_def run_method_iffs)
qed

lemma terminal_run_is_final_witness:
  "let r = sample_started\<lparr>run_status := RunFailed\<rparr> in \<exists>e. start_run (Utc 9) r = Inl e"
  unfolding Let_def
  using terminal_run_is_final [of "sample_started\<lparr>run_status := RunFailed\<rparr>"
      "sample_started\<lparr>run_status := RunFailed\<rparr>" _ _ _ "Utc 9"]
  by (simp add: terminal_run_statuses_def)

text \<open>Running out of steps never stops a run from being settled: \<open>finish\<close> and \<open>fail\<close>
  succeed on every running run, whatever its budget, and record exactly one more step.\<close>

lemma settlement_ignores_step_budget:
  assumes "run_status r = RunRunning" and "\<not> blank resp"
  shows "(\<exists>r'. finish_run resp usage sid snow now r = Inr r' \<and> run_status r' = RunSucceeded \<and>
      run_final_response r' = Some resp \<and> length (run_steps r') = Suc (length (run_steps r))) \<and>
    (\<exists>r'. fail_run reason sid snow now r = Inr r' \<and> run_status r' = RunFailed \<and>
      run_failure_reason r' = Some reason \<and> length (run_steps r') = Suc (length (run_steps r)))"
  using assms by (simp_all add: finish_run_Inr_iff fail_run_Inr_iff with_error_step_def)

lemma settlement_ignores_step_budget_witness:
  "\<exists>r'. fail_run ''boom'' 7 (Utc 8) (Utc 9)
     (sample_started\<lparr>run_limits := (run_limits sample_started)\<lparr>max_steps := 0\<rparr>\<rparr>) = Inr r' \<and>
     run_status r' = RunFailed"
  using settlement_ignores_step_budget
    [of "sample_started\<lparr>run_limits := (run_limits sample_started)\<lparr>max_steps := 0\<rparr>\<rparr>"
      "''x''" None 7 "Utc 8" "Utc 9" "''boom''"]
  by (auto simp: sample_started_def blank_iff py_space_def)

end
