(* ===== verification/Agent_Run_Repo.thy ===== *)
theory Agent_Run_Repo
  imports Agent_Runs Unit_Of_Work
begin

section \<open>The agent run repository (infrastructure/database/repositories/agent.py)\<close>

text \<open>
  \<open>save\<close> writes the run's own columns (the UPDATE is flushed before the query for the
  highest stored step index) and inserts the steps above that index.

  \<open>stored_run E i d\<close> is the entity the tables of \<open>d\<close> hold under \<open>i\<close>; it is the abstraction
  function of the component. The lemmas show that \<open>get\<close> returns it, that \<open>add\<close> makes it
  the added run, and that \<open>save\<close> makes it the saved run when the stored run's steps are an
  initial part of the saved run's steps, which is what the entity's methods guarantee.
\<close>

subsection \<open>Rows and entities\<close>

definition step_row_of :: "agent_step \<Rightarrow> agent_step_row" where
  "step_row_of s = \<lparr>sr_id = step_id s, sr_run_id = step_run_id s, sr_index = step_index s,
     sr_type = step_type_value (step_type s), sr_meta = step_metadata s,
     sr_created_at = step_created_at s\<rparr>"

definition run_row_of :: "agent_run \<Rightarrow> agent_run_row" where
  "run_row_of r = \<lparr>ar_id = run_id r, ar_user_id = run_user_id r,
     ar_conversation_id = run_conversation_id r, ar_status = run_status_value (run_status r),
     ar_provider = run_provider r, ar_model = run_model r, ar_started_at = run_started_at r,
     ar_finished_at = run_finished_at r, ar_failure_reason = run_failure_reason r,
     ar_final_response = run_final_response r, ar_usage_metadata = run_usage_metadata r,
     ar_max_steps = max_steps (run_limits r), ar_max_tool_calls = max_tool_calls (run_limits r),
     ar_max_retries = max_retries (run_limits r),
     ar_max_execution_seconds = max_execution_seconds (run_limits r),
     ar_max_context_tokens = max_context_tokens (run_limits r)\<rparr>"

definition step_to_domain :: "env \<Rightarrow> agent_step_row \<Rightarrow> exn + agent_step" where
  "step_to_domain E row =
     sum_bind (enum_call step_types step_type_value (sr_type row)) (\<lambda>ty.
     Inr \<lparr>step_id = sr_id row, step_run_id = sr_run_id row, step_index = sr_index row,
          step_type = ty, step_metadata = sr_meta row,
          step_created_at = ensure_utc (backend_dt E (sr_created_at row))\<rparr>)"

definition steps_of_run :: "uuid \<Rightarrow> db \<Rightarrow> agent_step_row list" where
  \<comment> \<open>the SELECT of a run's steps, by index\<close>
  "steps_of_run i d = sort_key sr_index (filter (\<lambda>s. sr_run_id s = i) (tbl_steps d))"

definition run_of_rows :: "env \<Rightarrow> agent_run_row \<Rightarrow> agent_step_row list \<Rightarrow> exn + agent_run" where
  "run_of_rows E row step_rows =
     sum_bind (sum_map (step_to_domain E) step_rows) (\<lambda>steps.
     sum_bind (mk_agent_limits \<lparr>max_steps = ar_max_steps row,
       max_tool_calls = ar_max_tool_calls row, max_retries = ar_max_retries row,
       max_execution_seconds = ar_max_execution_seconds row,
       max_context_tokens = ar_max_context_tokens row\<rparr>) (\<lambda>limits.
     sum_bind (enum_call run_statuses run_status_value (ar_status row)) (\<lambda>st.
     Inr \<lparr>run_id = ar_id row, run_user_id = ar_user_id row,
          run_conversation_id = ar_conversation_id row, run_provider = ar_provider row,
          run_model = ar_model row, run_limits = limits, run_status = st, run_steps = steps,
          run_started_at = ensure_utc_optional (map_option (backend_dt E) (ar_started_at row)),
          run_finished_at = ensure_utc_optional (map_option (backend_dt E) (ar_finished_at row)),
          run_failure_reason = ar_failure_reason row,
          run_final_response = ar_final_response row,
          run_usage_metadata = ar_usage_metadata row\<rparr>)))"

subsection \<open>The operations\<close>

definition get_run_row :: "env \<Rightarrow> uuid \<Rightarrow> ('z, agent_run_row option) io" where
  "get_run_row E i = session_get E tbl_runs tbl_runs_update (\<lambda>r. ar_id r = i)"

definition run_to_domain :: "env \<Rightarrow> agent_run_row \<Rightarrow> ('z, agent_run) io" where
  "run_to_domain E row =
     bnd (sql_select E (steps_of_run (ar_id row))) (\<lambda>step_rows.
     lift_sum (run_of_rows E row step_rows))"

definition runs_get :: "env \<Rightarrow> uuid \<Rightarrow> ('z, agent_run option) io" where
  "runs_get E i =
     bnd (get_run_row E i) (\<lambda>row.
     case row of
       None \<Rightarrow> ret None
     | Some r \<Rightarrow> bnd (run_to_domain E r) (\<lambda>run. ret (Some run)))"

definition append_step :: "env \<Rightarrow> agent_step \<Rightarrow> ('z, unit) io" where
  "append_step E s = sql E (insert_step (fk_on E) (step_row_of s))"

definition runs_add :: "env \<Rightarrow> agent_run \<Rightarrow> ('z, unit) io" where
  "runs_add E r =
     bnd (sql E (insert_run (fk_on E) (run_row_of r))) (\<lambda>_.
     bnd (remember tbl_runs_update (\<lambda>rows. rows @ [run_row_of r])) (\<lambda>_.
     for_each (run_steps r) (append_step E)))"

definition highest_index :: "uuid \<Rightarrow> db \<Rightarrow> int" where
  \<comment> \<open>\<open>coalesce(max(index), 0)\<close>\<close>
  "highest_index i d =
     (case map sr_index (filter (\<lambda>s. sr_run_id s = i) (tbl_steps d)) of
        [] \<Rightarrow> 0 | k # ks \<Rightarrow> fold max ks k)"

definition settled_row :: "agent_run \<Rightarrow> agent_run_row \<Rightarrow> agent_run_row" where
  \<comment> \<open>the attributes \<open>save\<close> sets on the loaded object\<close>
  "settled_row r row = row\<lparr>ar_status := run_status_value (run_status r),
     ar_started_at := run_started_at r, ar_finished_at := run_finished_at r,
     ar_failure_reason := run_failure_reason r, ar_final_response := run_final_response r,
     ar_usage_metadata := run_usage_metadata r\<rparr>"

definition run_update :: "agent_run_row \<Rightarrow> agent_run_row \<Rightarrow> agent_run_row \<Rightarrow> agent_run_row" where
  "run_update loaded new r = r\<lparr>
     ar_status := changed_or (ar_status loaded) (ar_status new) (ar_status r),
     ar_started_at := changed_or (ar_started_at loaded) (ar_started_at new) (ar_started_at r),
     ar_finished_at := changed_or (ar_finished_at loaded) (ar_finished_at new) (ar_finished_at r),
     ar_failure_reason :=
       changed_or (ar_failure_reason loaded) (ar_failure_reason new) (ar_failure_reason r),
     ar_final_response :=
       changed_or (ar_final_response loaded) (ar_final_response new) (ar_final_response r),
     ar_usage_metadata :=
       changed_or (ar_usage_metadata loaded) (ar_usage_metadata new) (ar_usage_metadata r)\<rparr>"

definition runs_save :: "env \<Rightarrow> agent_run \<Rightarrow> ('z, unit) io" where
  "runs_save E r =
     bnd (get_run_row E (run_id r)) (\<lambda>row.
     case row of
       None \<Rightarrow> throw (raise_not_found ''Agent run not found.'' ''agent_run_not_found'')
     | Some loaded \<Rightarrow>
         let new = settled_row r loaded in
         bnd (if new = loaded then ret ()
              else sql E (update_run (run_id r) (run_update loaded new) (ar_usage_metadata new))) (\<lambda>_.
         bnd (remember tbl_runs_update (update_where (\<lambda>x. ar_id x = run_id r) (\<lambda>_. new))) (\<lambda>_.
         bnd (sql_select E (highest_index (run_id r))) (\<lambda>highest_persisted.
         for_each (run_steps r) (\<lambda>step.
           if step_index step > highest_persisted then append_step E step else ret ())))))"

lemma lawful_agent_runs [lawfuls]:
  "lawful E (append_step E s)" "lawful E (get_run_row E i)" "lawful E (run_to_domain E row)"
  unfolding append_step_def get_run_row_def run_to_domain_def by (intro lawfuls)+

lemma lawful_runs_get [lawfuls]: "lawful E (runs_get E i)"
  unfolding runs_get_def by (intro lawfuls)

lemma lawful_runs_add [lawfuls]: "lawful E (runs_add E r)"
  unfolding runs_add_def by (intro lawfuls)

lemma lawful_runs_save [lawfuls]: "lawful E (runs_save E r)"
  unfolding runs_save_def Let_def
  by (intro lawfuls) (simp_all add: run_update_def)

lemma tx_local_agent_runs [tx_locals]:
  "tx_local E (append_step E s)" "tx_local E (get_run_row E i)" "tx_local E (run_to_domain E row)"
  unfolding append_step_def get_run_row_def run_to_domain_def by (intro tx_locals)+

lemma tx_local_runs [tx_locals]:
  "tx_local E (runs_get E i)" "tx_local E (runs_add E r)" "tx_local E (runs_save E r)"
  unfolding runs_get_def runs_add_def runs_save_def Let_def by (intro tx_locals)+

subsection \<open>What the tables hold\<close>

definition stored_run :: "env \<Rightarrow> uuid \<Rightarrow> db \<Rightarrow> exn + agent_run option" where
  "stored_run E i d =
     (case find (\<lambda>r. ar_id r = i) (tbl_runs d) of
        None \<Rightarrow> Inr None
      | Some row \<Rightarrow> sum_bind (run_of_rows E row (steps_of_run i d)) (\<lambda>r. Inr (Some r)))"

definition run_aware :: "agent_run \<Rightarrow> bool" where
  \<comment> \<open>every timestamp carries its zone, as \<open>utc_now()\<close> makes them\<close>
  "run_aware r \<longleftrightarrow> (\<forall>s \<in> set (run_steps r). aware (step_created_at s)) \<and>
     pred_option aware (run_started_at r) \<and> pred_option aware (run_finished_at r)"

definition run_json :: "agent_run \<Rightarrow> bool" where
  "run_json r \<longleftrightarrow> json_dict (run_usage_metadata r) \<and>
     (\<forall>s \<in> set (run_steps r). json_dict (step_metadata s))"

lemma aware_round_trip: "backend_ok E \<Longrightarrow> aware t \<Longrightarrow> ensure_utc (backend_dt E t) = t"
  by (cases t) (simp_all add: backend_round_trip)

lemma aware_option_round_trip:
  "backend_ok E \<Longrightarrow> pred_option aware t \<Longrightarrow> ensure_utc_optional (map_option (backend_dt E) t) = t"
  by (cases t) (simp_all add: aware_round_trip)

lemma step_round_trip:
  "backend_ok E \<Longrightarrow> aware (step_created_at s) \<Longrightarrow> step_to_domain E (step_row_of s) = Inr s"
  by (simp add: step_to_domain_def step_row_of_def enum_call_def step_type_enum.find_value
      aware_round_trip)

lemma steps_round_trip:
  "backend_ok E \<Longrightarrow> (\<And>s. s \<in> set ss \<Longrightarrow> aware (step_created_at s)) \<Longrightarrow>
     sum_map (step_to_domain E) (map step_row_of ss) = Inr ss"
  by (induction ss) (simp_all add: step_round_trip)

lemma run_rows_round_trip:
  assumes "backend_ok E" and "run_aware r" and "limits_positive (run_limits r)"
    and "sum_map (step_to_domain E) step_rows = Inr (run_steps r)"
  shows "run_of_rows E (run_row_of r) step_rows = Inr r"
proof -
  have "mk_agent_limits \<lparr>max_steps = max_steps l, max_tool_calls = max_tool_calls l,
      max_retries = max_retries l, max_execution_seconds = max_execution_seconds l,
      max_context_tokens = max_context_tokens l\<rparr> = Inr l" if "limits_positive l" for l
    using that by (cases l) (simp add: mk_agent_limits_iff)
  with assms show ?thesis
    by (simp add: run_of_rows_def run_row_of_def enum_call_def run_status_enum.find_value
        run_aware_def aware_option_round_trip)
qed

text \<open>A reachable run satisfies the CHECK constraints of its table.\<close>

lemma run_wf_check: "run_wf r \<Longrightarrow> agent_run_check (run_row_of r)"
  by (cases "run_status r")
    (auto simp: run_wf_def agent_run_check_def run_row_of_def limits_positive_def times_match_def
      terminal_run_statuses_def)

lemma steps_numbered_index:
  "steps_numbered r \<Longrightarrow> k < length (run_steps r) \<Longrightarrow> step_index (run_steps r ! k) = int k + 1"
  by (metis (no_types, lifting) steps_numbered_def add.left_neutral diff_zero length_upt nth_map
      nth_upt)

lemma steps_numbered_check: "steps_numbered r \<Longrightarrow> s \<in> set (run_steps r) \<Longrightarrow> 1 \<le> step_index s"
  by (auto simp: in_set_conv_nth steps_numbered_index)

subsection \<open>Inserting steps\<close>

definition steps_insertable :: "bool \<Rightarrow> agent_step list \<Rightarrow> db \<Rightarrow> bool" where
  "steps_insertable fk ss d \<longleftrightarrow>
     distinct (map step_id ss) \<and> distinct (map (\<lambda>s. (step_run_id s, step_index s)) ss) \<and>
     (\<forall>s \<in> set ss. 1 \<le> step_index s \<and> json_dict (step_metadata s) \<and>
        step_id s \<notin> sr_id ` set (tbl_steps d) \<and>
        (step_run_id s, step_index s) \<notin> (\<lambda>s. (sr_run_id s, sr_index s)) ` set (tbl_steps d) \<and>
        (fk \<longrightarrow> step_run_id s \<in> ar_id ` set (tbl_runs d)))"

lemma append_steps_reliable:
  assumes "reliable E"
  shows "steps_insertable (fk_on E) ss (view w) \<Longrightarrow>
     \<exists>n. for_each ss (append_step E) w =
       (Inr (), w\<lparr>sql_count := n,
          view := (view w)\<lparr>tbl_steps := tbl_steps (view w) @ map step_row_of ss\<rparr>\<rparr>)"
proof (induction ss arbitrary: w)
  case Nil
  show ?case by (intro exI [of _ "sql_count w"]) simp
next
  case (Cons s ss)
  let ?w1 = "w\<lparr>sql_count := Suc (sql_count w),
    view := (view w)\<lparr>tbl_steps := tbl_steps (view w) @ [step_row_of s]\<rparr>\<rparr>"
  have first: "append_step E s w = (Inr (), ?w1)"
    using Cons.prems
    by (simp add: append_step_def reliable_sql [OF assms] insert_step_def guarded_def
        steps_insertable_def agent_step_check_def step_row_of_def Let_def)
  have "steps_insertable (fk_on E) ss (view ?w1)"
    using Cons.prems
    by (auto simp: steps_insertable_def step_row_of_def) (metis image_eqI, metis (lifting) image_eqI)+
  from Cons.IH [OF this] show ?case
    by (auto simp: bnd_apply first)
qed

lemma steps_of_run_append:
  assumes "steps_numbered r" and "\<And>x. x \<in> set (steps_of_run (run_id r) d) \<Longrightarrow> sr_index x \<le> int k"
    and "d' = d\<lparr>tbl_steps := tbl_steps d @ map step_row_of (drop k (run_steps r))\<rparr>"
  shows "steps_of_run (run_id r) d' = steps_of_run (run_id r) d @ map step_row_of (drop k (run_steps r))"
proof -
  let ?new = "map step_row_of (drop k (run_steps r))"
  have own: "filter (\<lambda>s. sr_run_id s = run_id r) ?new = ?new"
    using assms(1) by (intro filter_True)
      (auto simp: steps_numbered_def step_row_of_def dest: in_set_dropD)
  have idx: "map sr_index ?new = map (\<lambda>i. int i + 1) [k..<length (run_steps r)]"
  proof -
    have "map sr_index ?new = drop k (map step_index (run_steps r))"
      by (simp add: drop_map step_row_of_def)
    also have "\<dots> = map (\<lambda>i. int i + 1) [k..<length (run_steps r)]"
      using assms(1) by (simp add: steps_numbered_def drop_map)
    finally show ?thesis .
  qed
  have sorted: "sorted (map sr_index ?new)"
    unfolding idx by (simp add: sorted_wrt_map sorted_wrt_iff_nth_less)
  have "int k \<le> sr_index y" if "y \<in> set ?new" for y
  proof -
    from that have "sr_index y \<in> set (map sr_index ?new)" by auto
    then show ?thesis unfolding idx by auto
  qed
  with assms(2) have "sort_key sr_index (filter (\<lambda>s. sr_run_id s = run_id r) (tbl_steps d) @ ?new) =
      steps_of_run (run_id r) d @ ?new"
    unfolding steps_of_run_def by (intro sort_key_append_max sorted) fastforce
  then show ?thesis
    unfolding assms(3) steps_of_run_def by (simp add: own)
qed

subsection \<open>get, add and save against the tables\<close>

lemma runs_get_reliable:
  assumes "reliable E" and "find (\<lambda>r. ar_id r = i) (tbl_runs (idmap w)) = None"
  shows "fst (runs_get E i w) = stored_run E i (view w)" and "view (snd (runs_get E i w)) = view w"
proof -
  have *: "fst (runs_get E i w) = stored_run E i (view w) \<and> view (snd (runs_get E i w)) = view w"
  proof (cases "find (\<lambda>r. ar_id r = i) (tbl_runs (view w))")
    case (Some row)
    then have "ar_id row = i" by (auto simp: find_Some_iff)
    with Some assms(2) show ?thesis
      by (cases "run_of_rows E row (steps_of_run i (view w))")
        (simp_all add: runs_get_def get_run_row_def session_get_def run_to_domain_def stored_run_def
          remember_def bnd_apply reliable_select [OF assms(1)])
  qed (simp add: assms(2) runs_get_def get_run_row_def session_get_def stored_run_def bnd_apply
      reliable_select [OF assms(1)])
  then show "fst (runs_get E i w) = stored_run E i (view w)"
    and "view (snd (runs_get E i w)) = view w" by simp_all
qed

definition storable :: "agent_run \<Rightarrow> bool" where
  "storable r \<longleftrightarrow> run_wf r \<and> run_aware r \<and> run_json r \<and> distinct (map step_id (run_steps r))"

definition fresh_run :: "bool \<Rightarrow> agent_run \<Rightarrow> db \<Rightarrow> bool" where
  \<comment> \<open>nothing is stored under the run's id or its step ids, and its parents exist\<close>
  "fresh_run fk r d \<longleftrightarrow> run_id r \<notin> ar_id ` set (tbl_runs d) \<and>
     run_id r \<notin> sr_run_id ` set (tbl_steps d) \<and>
     (\<forall>s \<in> set (run_steps r). step_id s \<notin> sr_id ` set (tbl_steps d)) \<and>
     (fk \<longrightarrow> run_user_id r \<in> ur_id ` set (tbl_users d) \<and>
            run_conversation_id r \<in> cr_id ` set (tbl_conversations d))"

lemma steps_numbered_distinct:
  assumes "steps_numbered r"
  shows "distinct (map (\<lambda>s. (step_run_id s, step_index s)) (run_steps r))"
proof -
  have "distinct (map step_index (run_steps r))"
    using assms by (simp add: steps_numbered_def distinct_map inj_on_def)
  then show ?thesis by (auto simp: distinct_map inj_on_def)
qed

definition added_db :: "agent_run \<Rightarrow> db \<Rightarrow> db" where
  \<comment> \<open>the tables after an add\<close>
  "added_db r d = d\<lparr>tbl_runs := tbl_runs d @ [run_row_of r],
     tbl_steps := tbl_steps d @ map step_row_of (run_steps r)\<rparr>"

lemma append_steps_success:
  assumes "reliable E"
  shows "for_each ss (append_step E) w = (Inr (), w') \<Longrightarrow>
    view w' = (view w)\<lparr>tbl_steps := tbl_steps (view w) @ map step_row_of ss\<rparr>"
proof (induction ss arbitrary: w)
  case (Cons s ss)
  then obtain w1 where w1: "append_step E s w = (Inr (), w1)"
    and rest: "for_each ss (append_step E) w1 = (Inr (), w')"
    by (auto elim!: bnd_InrE)
  from w1 have "view w1 = (view w)\<lparr>tbl_steps := tbl_steps (view w) @ [step_row_of s]\<rparr>"
    by (auto simp: append_step_def reliable_sql [OF assms] insert_step_def guarded_Inr_iff Let_def
        split: sum.splits)
  with Cons.IH [OF rest] show ?case by simp
qed simp

lemma runs_add_success:
  assumes "reliable E" and "runs_add E r w = (Inr (), w')"
  shows "view w' = added_db r (view w)" and "run_id r \<notin> ar_id ` set (tbl_runs (view w))"
proof -
  from assms(2) obtain w1 where w1: "sql E (insert_run (fk_on E) (run_row_of r)) w = (Inr (), w1)"
    and rest: "for_each (run_steps r) (append_step E)
      (w1\<lparr>idmap := tbl_runs_update (\<lambda>rows. rows @ [run_row_of r]) (idmap w1)\<rparr>) = (Inr (), w')"
    by (auto simp: runs_add_def remember_def elim!: bnd_InrE)
  from w1 have v1: "view w1 = (view w)\<lparr>tbl_runs := tbl_runs (view w) @ [run_row_of r]\<rparr>"
    and new: "ar_id (run_row_of r) \<notin> ar_id ` set (tbl_runs (view w))"
    by (auto simp: reliable_sql [OF assms(1)] insert_run_def guarded_Inr_iff Let_def split: sum.splits)
  from append_steps_success [OF assms(1) rest] v1 show "view w' = added_db r (view w)"
    by (simp add: added_db_def)
  from new show "run_id r \<notin> ar_id ` set (tbl_runs (view w))" by (simp add: run_row_of_def)
qed

lemma runs_add_reliable:
  assumes "reliable E" and "storable r" and "fresh_run (fk_on E) r (view w)"
  shows "\<exists>w'. runs_add E r w = (Inr (), w') \<and> view w' = added_db r (view w)"
proof -
  let ?w1 = "w\<lparr>sql_count := Suc (sql_count w),
    view := (view w)\<lparr>tbl_runs := tbl_runs (view w) @ [run_row_of r]\<rparr>\<rparr>"
  let ?w2 = "?w1\<lparr>idmap := tbl_runs_update (\<lambda>rows. rows @ [run_row_of r]) (idmap ?w1)\<rparr>"
  have num: "steps_numbered r" using assms(2) by (simp add: storable_def run_wf_def)
  have id: "ar_id (run_row_of r) = run_id r" "ar_user_id (run_row_of r) = run_user_id r"
    "ar_conversation_id (run_row_of r) = run_conversation_id r"
    "ar_usage_metadata (run_row_of r) = run_usage_metadata r" by (simp_all add: run_row_of_def)
  have first: "sql E (insert_run (fk_on E) (run_row_of r)) w = (Inr (), ?w1)"
    using assms run_wf_check [of r]
    by (simp add: reliable_sql insert_run_def guarded_def id storable_def run_json_def
        fresh_run_def Let_def)
  have "steps_insertable (fk_on E) (run_steps r) (view ?w2)"
    using assms(2,3) num steps_numbered_distinct [OF num] steps_numbered_check [OF num]
    by (fastforce simp: steps_insertable_def storable_def run_json_def fresh_run_def
        steps_numbered_def id)
  from append_steps_reliable [OF assms(1) this] show ?thesis
    by (auto simp: runs_add_def bnd_apply first remember_def added_db_def)
qed

lemma added_db_stored:
  assumes "backend_ok E" and "storable r" and "run_id r \<notin> ar_id ` set (tbl_runs d)"
    and "run_id r \<notin> sr_run_id ` set (tbl_steps d)"
  shows "stored_run E (run_id r) (added_db r d) = Inr (Some r)"
    and "i \<noteq> run_id r \<Longrightarrow> stored_run E i (added_db r d) = stored_run E i d"
proof -
  have num: "steps_numbered r" and lim: "limits_positive (run_limits r)"
    and aw: "run_aware r" using assms(2) by (simp_all add: storable_def run_wf_def)
  have none: "find (\<lambda>x. ar_id x = run_id r) (tbl_runs d) = None"
    "filter (\<lambda>s. sr_run_id s = run_id r) (tbl_steps d) = []"
    using assms(3,4) unfolding find_None_iff filter_empty_conv by (metis image_eqI)+
  have "steps_of_run (run_id r) (d\<lparr>tbl_steps := tbl_steps d @ map step_row_of
      (drop 0 (run_steps r))\<rparr>) = steps_of_run (run_id r) d @ map step_row_of (drop 0 (run_steps r))"
    by (rule steps_of_run_append [OF num]) (simp_all add: steps_of_run_def none)
  then have steps: "steps_of_run (run_id r) (added_db r d) = map step_row_of (run_steps r)"
    by (simp add: steps_of_run_def none added_db_def)
  have "run_of_rows E (run_row_of r) (map step_row_of (run_steps r)) = Inr r"
    using aw by (intro run_rows_round_trip assms(1) lim steps_round_trip)
      (simp_all add: run_aware_def)
  then show "stored_run E (run_id r) (added_db r d) = Inr (Some r)"
    unfolding stored_run_def steps
    by (simp add: added_db_def none find_append) (simp add: run_row_of_def)
  show "stored_run E i (added_db r d) = stored_run E i d" if "i \<noteq> run_id r"
  proof -
    have "filter (\<lambda>s. sr_run_id s = i) (map step_row_of (run_steps r)) = []"
      using num that by (auto simp: filter_empty_conv step_row_of_def steps_numbered_def)
    then have "steps_of_run i (added_db r d) = steps_of_run i d"
      by (simp add: steps_of_run_def added_db_def)
    moreover have "find (\<lambda>x. ar_id x = i) (tbl_runs (added_db r d)) = find (\<lambda>x. ar_id x = i) (tbl_runs d)"
      using that by (simp add: added_db_def find_append split: option.splits) (simp add: run_row_of_def)
    ultimately show ?thesis by (simp add: stored_run_def split: option.splits)
  qed
qed

lemma runs_add_stored:
  assumes "reliable E" and "backend_ok E" and "storable r" and "fresh_run (fk_on E) r (view w)"
  shows "\<exists>w'. runs_add E r w = (Inr (), w') \<and> stored_run E (run_id r) (view w') = Inr (Some r) \<and>
    (\<forall>i. i \<noteq> run_id r \<longrightarrow> stored_run E i (view w') = stored_run E i (view w))"
  using runs_add_reliable [OF assms(1,3,4)] added_db_stored [OF assms(2,3)] assms(4)
  by (auto simp: fresh_run_def)

definition extends :: "agent_run \<Rightarrow> agent_run \<Rightarrow> bool" where
  \<comment> \<open>\<open>r\<close> is a later state of the run \<open>r0\<close>\<close>
  "extends r0 r \<longleftrightarrow> run_id r = run_id r0 \<and> run_limits r = run_limits r0 \<and>
     run_user_id r = run_user_id r0 \<and> run_conversation_id r = run_conversation_id r0 \<and>
     run_provider r = run_provider r0 \<and> run_model r = run_model r0 \<and>
     prefix (run_steps r0) (run_steps r)"

lemma run_steps_extend: "run_step\<^sup>*\<^sup>* r0 r \<Longrightarrow> extends r0 r"
proof (induction rule: rtranclp_induct)
  case (step r r')
  then show ?case using run_step_identity [of r r'] by (auto simp: extends_def intro: prefix_order.trans)
qed (simp add: extends_def)

lemma run_of_rows_Inr:
  assumes "run_of_rows E row ss = Inr r0" and "extends r0 r"
  shows "sum_map (step_to_domain E) ss = Inr (run_steps r0)" and "settled_row r row = run_row_of r"
    and "ar_id row = run_id r"
  using assms
  by (auto simp: run_of_rows_def sum_bind_Inr_iff mk_agent_limits_iff settled_row_def
      run_row_of_def extends_def)

lemma step_to_domain_index: "step_to_domain E row = Inr s \<Longrightarrow> step_index s = sr_index row"
  by (auto simp: step_to_domain_def sum_bind_Inr_iff)

lemma steps_to_domain_index:
  "sum_map (step_to_domain E) rows = Inr ss \<Longrightarrow> map sr_index rows = map step_index ss"
  by (induction rows arbitrary: ss) (auto simp: sum_bind_Inr_iff step_to_domain_index)

lemma numbers_upto: "set (map (\<lambda>k. int k + 1) [0..<n]) = {1..int n}"
  by (induction n) auto

lemma highest_index_numbered:
  assumes "map sr_index (steps_of_run i d) = map (\<lambda>k. int k + 1) [0..<n]"
  shows "highest_index i d = int n"
proof -
  let ?ks = "map sr_index (filter (\<lambda>s. sr_run_id s = i) (tbl_steps d))"
  have "set ?ks = set (map sr_index (steps_of_run i d))" by (simp add: steps_of_run_def)
  also have "\<dots> = {1..int n}"
    unfolding assms by (rule numbers_upto)
  finally have set: "set ?ks = {1..int n}" .
  show ?thesis
  proof (cases ?ks)
    case Nil
    with set have "n = 0" by auto
    with Nil show ?thesis by (simp add: highest_index_def)
  next
    case (Cons k ks)
    then have "highest_index i d = Max (set ?ks)"
      by (simp add: highest_index_def Max.set_eq_fold [symmetric])
    moreover have "0 < n" using set Cons by (cases n) auto
    moreover from this have "Max {1..int n} = int n" by (intro Max_eqI) auto
    ultimately show ?thesis unfolding set by simp
  qed
qed

lemma new_steps_numbered:
  assumes "steps_numbered r" and "k \<le> length (run_steps r)"
  shows "filter (\<lambda>s. step_index s > int k) (run_steps r) = drop k (run_steps r)"
proof -
  let ?p = "\<lambda>s. step_index s > int k"
  have "filter ?p (take k (run_steps r)) = []"
    using assms by (auto simp: filter_empty_conv in_set_conv_nth steps_numbered_index)
  moreover have "filter ?p (drop k (run_steps r)) = drop k (run_steps r)"
    using assms by (intro filter_True) (auto simp: in_set_conv_nth steps_numbered_index)
  ultimately show ?thesis by (metis append_take_drop_id filter_append append_Nil)
qed

lemma runs_save_row:
  assumes "reliable E" and "agent_run_check (run_row_of r)" and "json_dict (run_usage_metadata r)"
    and "find (\<lambda>x. ar_id x = run_id r) (tbl_runs (view w)) = Some row"
    and "settled_row r row = run_row_of r" and "valid_db (view w)"
  shows "\<exists>n. (if settled_row r row = row then ret ()
      else sql E (update_run (run_id r) (run_update row (settled_row r row))
        (ar_usage_metadata (settled_row r row)))) w =
    (Inr (), w\<lparr>sql_count := n, view := (view w)\<lparr>tbl_runs :=
       update_where (\<lambda>x. ar_id x = run_id r) (run_update row (settled_row r row))
         (tbl_runs (view w))\<rparr>\<rparr>)"
proof -
  let ?f = "run_update row (settled_row r row)"
  have rowid: "ar_id row = run_id r" and row: "row \<in> set (tbl_runs (view w))"
    using assms(4) by (auto simp: find_Some_iff)
  have f: "?f row = settled_row r row"
    by (simp add: run_update_def settled_row_def changed_or_def)
  have "inj_on ar_id (set (tbl_runs (view w)))"
    using assms(6) by (simp add: valid_db_def keys_distinct_def distinct_map)
  then have only: "x = row" if "x \<in> set (tbl_runs (view w))" "ar_id x = run_id r" for x
    using that row rowid by (simp add: inj_on_def)
  show ?thesis
  proof (cases "settled_row r row = row")
    case True
    with f only have "update_where (\<lambda>x. ar_id x = run_id r) ?f (tbl_runs (view w)) = tbl_runs (view w)"
      unfolding update_where_def by (intro map_idI) auto
    with True show ?thesis by (intro exI [of _ "sql_count w"]) simp
  next
    case False
    have "\<forall>x \<in> set (update_where (\<lambda>x. ar_id x = run_id r) ?f (tbl_runs (view w))). agent_run_check x"
      using assms(2,5,6) f only
      by (auto simp: update_where_def valid_db_def checks_hold_def)
    moreover have "json_dict (ar_usage_metadata (settled_row r row))"
      using assms(3) by (simp add: settled_row_def)
    ultimately show ?thesis using False
      by (intro exI [of _ "Suc (sql_count w)"])
        (simp add: reliable_sql [OF assms(1)] update_run_def guarded_def Let_def)
  qed
qed

definition saved_db :: "agent_run \<Rightarrow> agent_run_row \<Rightarrow> nat \<Rightarrow> db \<Rightarrow> db" where
  \<comment> \<open>the tables after a save that found \<open>row\<close> and \<open>k\<close> stored steps\<close>
  "saved_db r row k d = d\<lparr>
     tbl_runs := update_where (\<lambda>x. ar_id x = run_id r) (run_update row (settled_row r row)) (tbl_runs d),
     tbl_steps := tbl_steps d @ map step_row_of (drop k (run_steps r))\<rparr>"

lemma numbered_rows_le:
  assumes "map sr_index (steps_of_run i d) = map (\<lambda>k. int k + 1) [0..<n]"
    and "x \<in> set (tbl_steps d)" and "sr_run_id x = i"
  shows "sr_index x \<le> int n"
proof -
  have "sr_index x \<in> set (map sr_index (steps_of_run i d))"
    using assms(2,3) by (simp add: steps_of_run_def)
  then show ?thesis unfolding assms(1) by auto
qed

lemma new_steps_insertable:
  assumes "storable r" and "k \<le> length (run_steps r)"
    and "map sr_index (steps_of_run (run_id r) d) = map (\<lambda>k. int k + 1) [0..<k]"
    and "\<And>s. s \<in> set (drop k (run_steps r)) \<Longrightarrow> step_id s \<notin> sr_id ` set (tbl_steps d)"
    and "run_id r \<in> ar_id ` set (tbl_runs d)"
  shows "steps_insertable fk (drop k (run_steps r)) d"
  unfolding steps_insertable_def
proof (intro conjI ballI)
  have num: "steps_numbered r" using assms(1) by (simp add: storable_def run_wf_def)
  show "distinct (map step_id (drop k (run_steps r)))"
    using assms(1) by (simp add: storable_def drop_map [symmetric])
  show "distinct (map (\<lambda>s. (step_run_id s, step_index s)) (drop k (run_steps r)))"
    using steps_numbered_distinct [OF num] by (simp add: drop_map [symmetric])
  fix s assume s: "s \<in> set (drop k (run_steps r))"
  then have mem: "s \<in> set (run_steps r)" by (rule in_set_dropD)
  show "1 \<le> step_index s" by (rule steps_numbered_check [OF num mem])
  show "json_dict (step_metadata s)" using assms(1) mem by (simp add: storable_def run_json_def)
  show "step_id s \<notin> sr_id ` set (tbl_steps d)" by (rule assms(4) [OF s])
  have own: "step_run_id s = run_id r" using num mem by (simp add: steps_numbered_def)
  then show "fk \<longrightarrow> step_run_id s \<in> ar_id ` set (tbl_runs d)" using assms(5) by simp
  have "s \<in> set (filter (\<lambda>s. int k < step_index s) (run_steps r))"
    using s by (simp only: new_steps_numbered [OF num assms(2)])
  then have "int k < step_index s" by simp
  then show "(step_run_id s, step_index s) \<notin> (\<lambda>s. (sr_run_id s, sr_index s)) ` set (tbl_steps d)"
    using own numbered_rows_le [OF assms(3)] by fastforce
qed

lemma saved_db_stored:
  assumes "backend_ok E" and "storable r" and "extends r0 r" and "run_wf r0"
    and "find (\<lambda>x. ar_id x = run_id r) (tbl_runs d) = Some row"
    and "run_of_rows E row (steps_of_run (run_id r) d) = Inr r0"
  shows "stored_run E (run_id r) (saved_db r row (length (run_steps r0)) d) = Inr (Some r)"
proof -
  let ?k = "length (run_steps r0)" and ?d = "saved_db r row (length (run_steps r0)) d"
  note inv = run_of_rows_Inr [OF assms(6,3)]
  have num: "steps_numbered r" and lim: "limits_positive (run_limits r)" and aw: "run_aware r"
    using assms(2) by (simp_all add: storable_def run_wf_def)
  have "map sr_index (steps_of_run (run_id r) d) = map (\<lambda>k. int k + 1) [0..<?k]"
    using steps_to_domain_index [OF inv(1)] assms(4) by (simp add: run_wf_def steps_numbered_def)
  from numbered_rows_le [OF this]
  have "x \<in> set (steps_of_run (run_id r) d) \<Longrightarrow> sr_index x \<le> int ?k" for x
    by (simp add: steps_of_run_def)
  from steps_of_run_append [OF num this refl]
  have "steps_of_run (run_id r) ?d =
      steps_of_run (run_id r) d @ map step_row_of (drop ?k (run_steps r))"
    by (simp add: steps_of_run_def saved_db_def)
  moreover have "sum_map (step_to_domain E) (map step_row_of (drop ?k (run_steps r))) =
      Inr (drop ?k (run_steps r))"
    using aw by (intro steps_round_trip assms(1)) (auto simp: run_aware_def dest: in_set_dropD)
  moreover have "run_steps r = run_steps r0 @ drop ?k (run_steps r)"
    using assms(3) by (auto simp: extends_def prefix_def)
  ultimately have "sum_map (step_to_domain E) (steps_of_run (run_id r) ?d) = Inr (run_steps r)"
    by (simp add: sum_map_append inv(1))
  from run_rows_round_trip [OF assms(1) aw lim this]
  have "run_of_rows E (settled_row r row) (steps_of_run (run_id r) ?d) = Inr r"
    unfolding inv(2) .
  moreover have "run_update row (settled_row r row) row = settled_row r row"
    by (simp add: run_update_def settled_row_def changed_or_def)
  moreover have "find (\<lambda>x. ar_id x = run_id r) (tbl_runs ?d) =
      Some (run_update row (settled_row r row) row)"
    unfolding saved_db_def using assms(5) by (simp add: find_update_where run_update_def)
  ultimately show ?thesis by (simp add: stored_run_def)
qed

lemma runs_save_reliable:
  assumes "reliable E" and "valid_db (view w)" and "storable r" and "extends r0 r" and "run_wf r0"
    and row: "find (\<lambda>x. ar_id x = run_id r) (tbl_runs (view w)) = Some row"
    and rows: "run_of_rows E row (steps_of_run (run_id r) (view w)) = Inr r0"
    and cached: "find (\<lambda>x. ar_id x = run_id r) (tbl_runs (idmap w)) \<in> {None, Some row}"
    and fresh: "\<And>s. s \<in> set (drop (length (run_steps r0)) (run_steps r)) \<Longrightarrow>
      step_id s \<notin> sr_id ` set (tbl_steps (view w))"
  shows "\<exists>w'. runs_save E r w = (Inr (), w') \<and>
    view w' = saved_db r row (length (run_steps r0)) (view w)"
proof -
  let ?n = "length (run_steps r0)"
  note inv = run_of_rows_Inr [OF rows assms(4)]
  have num: "steps_numbered r" and wf: "run_wf r" and js: "json_dict (run_usage_metadata r)"
    using assms(3) by (simp_all add: storable_def run_wf_def run_json_def)
  have le: "?n \<le> length (run_steps r)"
    using assms(4) by (auto simp: extends_def prefix_def)
  have idx: "map sr_index (steps_of_run (run_id r) (view w)) = map (\<lambda>k. int k + 1) [0..<?n]"
    using steps_to_domain_index [OF inv(1)] assms(5) by (simp add: run_wf_def steps_numbered_def)
  obtain w1 where get: "get_run_row E (run_id r) w = (Inr (Some row), w1)" and v1: "view w1 = view w"
    using cached row
    by (auto simp: get_run_row_def session_get_def bnd_apply reliable_select [OF assms(1)]
        remember_def)
  define runs where "runs = update_where (\<lambda>x. ar_id x = run_id r)
    (run_update row (settled_row r row)) (tbl_runs (view w))"
  from runs_save_row [of E r w1 row, OF assms(1) run_wf_check [OF wf] js, unfolded v1,
      OF row inv(2) assms(2)]
  obtain n where upd: "(if settled_row r row = row then ret ()
      else sql E (update_run (run_id r) (run_update row (settled_row r row))
        (ar_usage_metadata (settled_row r row)))) w1 =
    (Inr (), w1\<lparr>sql_count := n, view := (view w)\<lparr>tbl_runs := runs\<rparr>\<rparr>)"
    by (elim exE) (rule that [unfolded runs_def])
  define w3 where "w3 = w1\<lparr>view := (view w)\<lparr>tbl_runs := runs\<rparr>,
    idmap := tbl_runs_update (update_where (\<lambda>x. ar_id x = run_id r) (\<lambda>_. settled_row r row)) (idmap w1),
    sql_count := Suc n\<rparr>"
  have v3: "view w3 = (view w)\<lparr>tbl_runs := runs\<rparr>" by (simp add: w3_def)
  have steps3: "steps_of_run i (view w3) = steps_of_run i (view w)" for i
    by (simp add: v3 steps_of_run_def)
  have "map ar_id runs = map ar_id (tbl_runs (view w))"
    unfolding runs_def by (rule update_where_key) (simp add: run_update_def)
  then have "ar_id ` set runs = ar_id ` set (tbl_runs (view w))" by (metis list.set_map)
  moreover have "row \<in> set (tbl_runs (view w))" "ar_id row = run_id r"
    using row by (auto simp: find_Some_iff)
  ultimately have mem: "run_id r \<in> ar_id ` set (tbl_runs (view w3))"
    by (simp add: v3) (metis imageI)
  have steps: "tbl_steps (view w3) = tbl_steps (view w)" by (simp add: v3)
  have "steps_insertable (fk_on E) (drop ?n (run_steps r)) (view w3)"
    by (rule new_steps_insertable [OF assms(3) le idx [folded steps3] _ mem])
      (simp only: steps, rule fresh)
  from append_steps_reliable [OF assms(1) this] obtain m where
    app: "for_each (drop ?n (run_steps r)) (append_step E) w3 = (Inr (),
      w3\<lparr>sql_count := m, view := (view w3)\<lparr>tbl_steps := tbl_steps (view w3) @
        map step_row_of (drop ?n (run_steps r))\<rparr>\<rparr>)" by (elim exE) (rule that)
  have high: "highest_index (run_id r) ((view w)\<lparr>tbl_runs := runs\<rparr>) = int ?n"
    by (rule highest_index_numbered) (simp add: v3 [symmetric] steps3 idx)
  have "runs_save E r w = for_each (drop ?n (run_steps r)) (append_step E) w3"
    by (simp add: runs_save_def bnd_apply get upd Let_def remember_def high
        reliable_select [OF assms(1)] for_each_filter new_steps_numbered [OF num le] w3_def)
  with app show ?thesis by (simp add: v3 saved_db_def runs_def)
qed

lemma runs_save_stored:
  assumes "reliable E" and "backend_ok E" and "valid_db (view w)" and "storable r"
    and "extends r0 r" and "run_wf r0"
    and "stored_run E (run_id r) (view w) = Inr (Some r0)"
    and "find (\<lambda>x. ar_id x = run_id r) (tbl_runs (idmap w)) \<in>
      {None, find (\<lambda>x. ar_id x = run_id r) (tbl_runs (view w))}"
    and "\<And>s. s \<in> set (drop (length (run_steps r0)) (run_steps r)) \<Longrightarrow>
      step_id s \<notin> sr_id ` set (tbl_steps (view w))"
  shows "\<exists>w'. runs_save E r w = (Inr (), w') \<and> stored_run E (run_id r) (view w') = Inr (Some r)"
proof -
  from assms(7) obtain row where
    row: "find (\<lambda>x. ar_id x = run_id r) (tbl_runs (view w)) = Some row"
    and rows: "run_of_rows E row (steps_of_run (run_id r) (view w)) = Inr r0"
    by (auto simp: stored_run_def sum_bind_Inr_iff split: option.splits)
  from runs_save_reliable [OF assms(1,3,4,5,6) row rows, OF _ assms(9)] assms(8) row
  obtain w' where "runs_save E r w = (Inr (), w')"
    "view w' = saved_db r row (length (run_steps r0)) (view w)" by auto
  with saved_db_stored [OF assms(2,4,5,6) row rows] show ?thesis by auto
qed

end
