(* ===== verification/Idempotency_Repo.thy ===== *)
theory Idempotency_Repo
  imports Unit_Of_Work
begin

section \<open>The idempotency repository (infrastructure/database/repositories/idempotency.py)\<close>

text \<open>
  \<open>start\<close> claims a key, \<open>complete\<close> and \<open>fail\<close> settle it. The SAVEPOINT around the INSERT is
  one round trip here: a violated unique key undoes the INSERT and nothing else. The row a
  lost compare-and-swap leaves in the session's identity map is the row read before it, as
  in the source.

  The lemmas give each branch of \<open>start\<close> and \<open>settle\<close> in an environment without faults or
  other workers; \<open>idem_settle_success\<close> and \<open>idem_start_owned\<close> hold with both.
\<close>

datatype idem_state = IdemStarted | IdemCompleted | IdemFailed

fun idem_state_value :: "idem_state \<Rightarrow> string" where
  "idem_state_value IdemStarted = started"
| "idem_state_value IdemCompleted = ''completed''"
| "idem_state_value IdemFailed = ''failed''"

definition idem_states :: "idem_state list" where
  "idem_states = [IdemStarted, IdemCompleted, IdemFailed]"

interpretation idem_state_enum: str_enum idem_states idem_state_value
proof
  show "e \<in> set idem_states" for e by (cases e) (simp_all add: idem_states_def)
  show "idem_state_value e = idem_state_value e' \<Longrightarrow> e = e'" for e e'
    by (cases e; cases e') (simp_all add: started_def)
qed

record idem_record =
  rec_namespace :: string
  rec_key :: string
  rec_state :: idem_state
  rec_result :: pydict
  rec_owned :: bool
  rec_claim_token :: "uuid option"

definition default_claim_ttl_seconds :: int where "default_claim_ttl_seconds = 300"

subsection \<open>The operations\<close>

definition at_key :: "string \<Rightarrow> string \<Rightarrow> idempotency_row \<Rightarrow> bool" where
  "at_key ns key r \<longleftrightarrow> ir_namespace r = ns \<and> ir_key r = key"

definition idem_get_row :: "env \<Rightarrow> string \<Rightarrow> string \<Rightarrow> ('z, idempotency_row option) io" where
  "idem_get_row E ns key =
     bnd (sql_select E (\<lambda>d. filter (at_key ns key) (tbl_idem d))) one_or_none"

definition claim_row ::
  "uuid \<Rightarrow> string \<Rightarrow> string \<Rightarrow> datetime \<Rightarrow> uuid \<Rightarrow> idempotency_row" where
  \<comment> \<open>the row of a new claim\<close>
  "claim_row i ns key now token = \<lparr>ir_id = i, ir_namespace = ns, ir_key = key,
     ir_state = idem_state_value IdemStarted, ir_result = [], ir_claimed_at = now,
     ir_claim_token = token\<rparr>"

definition reclaim_stmt :: "idempotency_row \<Rightarrow> uuid \<Rightarrow> datetime \<Rightarrow> nat stmt" where
  \<comment> \<open>the compare-and-swap on the token that was read\<close>
  "reclaim_stmt row token claimed = update_idem
     (\<lambda>r. (ir_id r = ir_id row \<and> ir_claim_token r = ir_claim_token row) \<and> ir_state r = started)
     (\<lambda>r. r\<lparr>ir_claimed_at := claimed, ir_claim_token := token\<rparr>) []"

definition settle_stmt ::
  "string \<Rightarrow> string \<Rightarrow> uuid \<Rightarrow> idem_state \<Rightarrow> pydict \<Rightarrow> nat stmt" where
  "settle_stmt ns key token st result = update_idem
     (\<lambda>r. (at_key ns key r \<and> ir_claim_token r = token) \<and> ir_state r = started)
     (\<lambda>r. r\<lparr>ir_state := idem_state_value st, ir_result := result\<rparr>) result"

definition reclaim_if_expired ::
  "env \<Rightarrow> idempotency_row \<Rightarrow> int \<Rightarrow> ('z, uuid option \<times> idempotency_row) io" where
  \<comment> \<open>the new token, if the claim was taken over, and the row object as it is afterwards\<close>
  "reclaim_if_expired E row ttl =
     bnd (utc_now E) (\<lambda>now.
     bnd (lift_sum (datetime_sub now (ensure_utc (backend_dt E (ir_claimed_at row))))) (\<lambda>age.
     if age < ttl * 1000000 then ret (None, row)
     else
       bnd (uuid4 E) (\<lambda>token.
       bnd (utc_now E) (\<lambda>claimed.
       bnd (sql E (reclaim_stmt row token claimed)) (\<lambda>rowcount.
       if rowcount \<noteq> 1 then ret (None, row)
       else
         bnd (sql_select E (\<lambda>d. find (\<lambda>r. ir_id r = ir_id row) (tbl_idem d))) (\<lambda>fresh.
         case fresh of
           None \<Rightarrow> throw (Sql SQLAlchemyE ''Could not refresh instance'')
         | Some r \<Rightarrow> ret (Some token, r)))))))"

definition claim_existing :: "env \<Rightarrow> idempotency_row \<Rightarrow> int \<Rightarrow> ('z, idem_record) io" where
  "claim_existing E row ttl =
     bnd (if ir_state row = idem_state_value IdemStarted then reclaim_if_expired E row ttl
          else ret (None, row)) (\<lambda>(token, row').
     bnd (lift_sum (enum_call idem_states idem_state_value (ir_state row'))) (\<lambda>st.
     ret \<lparr>rec_namespace = ir_namespace row', rec_key = ir_key row', rec_state = st,
          rec_result = ir_result row', rec_owned = (token \<noteq> None), rec_claim_token = token\<rparr>))"

definition idem_start :: "env \<Rightarrow> string \<Rightarrow> string \<Rightarrow> int \<Rightarrow> ('z, idem_record) io" where
  "idem_start E ns key ttl =
     bnd (idem_get_row E ns key) (\<lambda>existing.
     case existing of
       Some row \<Rightarrow> claim_existing E row ttl
     | None \<Rightarrow>
         bnd (uuid4 E) (\<lambda>token.
         try_except
           (bnd (uuid4 E) (\<lambda>i.
            bnd (utc_now E) (\<lambda>now.
            bnd (sql E (insert_idem (claim_row i ns key now token))) (\<lambda>_.
            ret \<lparr>rec_namespace = ns, rec_key = key, rec_state = IdemStarted, rec_result = [],
                 rec_owned = True, rec_claim_token = Some token\<rparr>))))
           (\<lambda>e.
            if is_integrity_error e then
              bnd (idem_get_row E ns key) (\<lambda>raced.
              case raced of
                None \<Rightarrow> throw (raise_conflict ''The idempotency key is contended.''
                               ''idempotency_key_contended'' [(''namespace'', PStr ns)])
              | Some row \<Rightarrow> claim_existing E row ttl)
            else throw e)))"

definition idem_settle ::
  "env \<Rightarrow> string \<Rightarrow> string \<Rightarrow> uuid \<Rightarrow> idem_state \<Rightarrow> pydict \<Rightarrow> ('z, unit) io" where
  "idem_settle E ns key token st result =
     bnd (sql E (settle_stmt ns key token st result)) (\<lambda>rowcount.
     if rowcount = 1 then ret ()
     else
       bnd (idem_get_row E ns key) (\<lambda>row.
       case row of
         None \<Rightarrow> throw (raise_not_found ''Idempotency record not found.''
                        ''idempotency_record_not_found'')
       | Some r \<Rightarrow> throw (raise_conflict ''This attempt no longer owns the idempotency claim.''
                        ''idempotency_claim_lost'' [(''namespace'', PStr ns)])))"

definition idem_complete ::
  "env \<Rightarrow> string \<Rightarrow> string \<Rightarrow> pydict \<Rightarrow> uuid \<Rightarrow> ('z, unit) io" where
  "idem_complete E ns key result token = idem_settle E ns key token IdemCompleted result"

definition idem_fail :: "env \<Rightarrow> string \<Rightarrow> string \<Rightarrow> string \<Rightarrow> uuid \<Rightarrow> ('z, unit) io" where
  "idem_fail E ns key reason token =
     idem_settle E ns key token IdemFailed [(''reason'', PStr reason)]"

subsection \<open>Lawful and local\<close>

lemma lawful_idem_get_row [lawfuls]: "lawful E (idem_get_row E ns key)"
  unfolding idem_get_row_def by (intro lawfuls)

lemma lawful_reclaim [lawfuls]: "lawful E (reclaim_if_expired E row ttl)"
  unfolding reclaim_if_expired_def reclaim_stmt_def by (intro lawfuls) simp_all

lemma lawful_claim_existing [lawfuls]: "lawful E (claim_existing E row ttl)"
  unfolding claim_existing_def by (intro lawfuls)

lemma lawful_idem_start [lawfuls]: "lawful E (idem_start E ns key ttl)"
  unfolding idem_start_def by (intro lawfuls)

lemma lawful_idem_settle [lawfuls]: "lawful E (idem_settle E ns key token st result)"
  unfolding idem_settle_def settle_stmt_def by (intro lawfuls) simp_all

lemma lawful_idem_outcome [lawfuls]:
  "lawful E (idem_complete E ns key result token)" "lawful E (idem_fail E ns key reason token)"
  unfolding idem_complete_def idem_fail_def by (intro lawfuls)+

lemma tx_local_idem [tx_locals]:
  "tx_local E (idem_get_row E ns key)" "tx_local E (idem_settle E ns key token st result)"
  "tx_local E (idem_complete E ns key res token)" "tx_local E (idem_fail E ns key reason token)"
  unfolding idem_get_row_def idem_settle_def idem_complete_def idem_fail_def
  by (intro tx_locals)+

lemma tx_local_pair [tx_locals]: "(\<And>x y. tx_local E (f x y)) \<Longrightarrow> tx_local E (case p of (x, y) \<Rightarrow> f x y)"
  by (cases p) auto

lemma tx_local_idem_start [tx_locals]: "tx_local E (idem_start E ns key ttl)"
  unfolding idem_start_def claim_existing_def reclaim_if_expired_def idem_get_row_def
  by (intro tx_locals)

subsection \<open>Branch by branch\<close>

lemma reliable_get_row:
  assumes "reliable E"
  shows "idem_get_row E ns key w =
    (map_sum id id (scalar_one_or_none (filter (at_key ns key) (tbl_idem (view w)))),
     w\<lparr>sql_count := Suc (sql_count w)\<rparr>)"
  by (cases "scalar_one_or_none (filter (at_key ns key) (tbl_idem (view w)))")
    (simp_all add: idem_get_row_def bnd_apply reliable_select [OF assms] one_or_none_def)

lemma scalar_one_simps [simp]:
  "scalar_one_or_none [] = Inr None" "scalar_one_or_none [r] = Inr (Some r)"
  by (simp_all add: scalar_one_or_none_def)

lemma idem_start_fresh:
  assumes "reliable E" and "filter (at_key ns key) (tbl_idem (view w)) = []"
    and "uuids E (Suc (uuid_count w)) \<notin> ir_id ` set (tbl_idem (view w))"
  defines "token \<equiv> uuids E (uuid_count w)"
  shows "\<exists>w'. idem_start E ns key ttl w = (Inr \<lparr>rec_namespace = ns, rec_key = key,
      rec_state = IdemStarted, rec_result = [], rec_owned = True, rec_claim_token = Some token\<rparr>, w') \<and>
    view w' = (view w)\<lparr>tbl_idem := tbl_idem (view w) @
      [claim_row (uuids E (Suc (uuid_count w))) ns key (Utc (clock E (clock_count w))) token]\<rparr>"
proof -
  have "(ns, key) \<notin> (\<lambda>r. (ir_namespace r, ir_key r)) ` set (tbl_idem (view w))"
    using assms(2) by (auto simp: filter_empty_conv at_key_def)
  with assms(3) show ?thesis
    by (simp add: idem_start_def bnd_apply reliable_get_row [OF assms(1)] assms(2) uuid4_def
        try_except_def utc_now_def reliable_sql [OF assms(1)] insert_idem_def guarded_def
        idempotency_check_def started_def Let_def token_def claim_row_def)
qed

lemma claim_age:
  "backend_ok E \<Longrightarrow> datetime_sub (Utc now) (ensure_utc (backend_dt E (Utc t))) = Inr (now - t)"
  by (simp add: backend_round_trip)

lemma idem_start_existing:
  assumes "reliable E" and "filter (at_key ns key) (tbl_idem (view w)) = [r]"
  shows "idem_start E ns key ttl w = claim_existing E r ttl (w\<lparr>sql_count := Suc (sql_count w)\<rparr>)"
  by (simp add: idem_start_def bnd_apply reliable_get_row [OF assms(1)] assms(2))

lemma claim_existing_held:
  assumes "backend_ok E" and "ir_state r = started" and "ir_claimed_at r = Utc t"
    and "clock E (clock_count w) - t < ttl * 1000000"
  shows "\<exists>w'. claim_existing E r ttl w = (Inr \<lparr>rec_namespace = ir_namespace r, rec_key = ir_key r,
      rec_state = IdemStarted, rec_result = ir_result r, rec_owned = False, rec_claim_token = None\<rparr>, w') \<and>
    view w' = view w"
  using assms idem_state_enum.find_value [of IdemStarted]
  by (simp add: claim_existing_def reclaim_if_expired_def bnd_apply utc_now_def claim_age
      enum_call_def)

lemma idem_row_only:
  assumes "valid_db d" and "r \<in> set (tbl_idem d)"
  shows "x \<in> set (tbl_idem d) \<Longrightarrow> ir_id x = ir_id r \<longleftrightarrow> x = r"
    and "x \<in> set (tbl_idem d) \<Longrightarrow> at_key (ir_namespace r) (ir_key r) x \<longleftrightarrow> x = r"
    and "filter (\<lambda>x. x = r) (tbl_idem d) = [r]"
    and "filter (at_key (ir_namespace r) (ir_key r)) (tbl_idem d) = [r]"
proof -
  have i: "inj_on ir_id (set (tbl_idem d))" and k: "inj_on (\<lambda>r. (ir_namespace r, ir_key r)) (set (tbl_idem d))"
    and dist: "distinct (tbl_idem d)"
    using assms(1) by (simp_all add: valid_db_def keys_distinct_def distinct_map)
  show id: "ir_id x = ir_id r \<longleftrightarrow> x = r" if "x \<in> set (tbl_idem d)" for x
    using i that assms(2) by (auto simp: inj_on_def)
  show key: "at_key (ir_namespace r) (ir_key r) x \<longleftrightarrow> x = r" if "x \<in> set (tbl_idem d)" for x
    using k that assms(2) by (auto simp: inj_on_def at_key_def)
  show one: "filter (\<lambda>x. x = r) (tbl_idem d) = [r]"
    by (rule filter_eq_single [OF dist assms(2)])
  show "filter (at_key (ir_namespace r) (ir_key r)) (tbl_idem d) = [r]"
    using one key by (simp cong: filter_cong)
qed

lemma update_idem_single:
  assumes "valid_db d" and "r \<in> set (tbl_idem d)" and "json_dict json" and "idempotency_check (f r)"
    and "\<And>x. x \<in> set (tbl_idem d) \<Longrightarrow> p x \<longleftrightarrow> x = r"
  shows "update_idem p f json d =
    Inr (1, d\<lparr>tbl_idem := map (\<lambda>x. if x = r then f r else x) (tbl_idem d)\<rparr>)"
proof -
  have rows: "update_where p f (tbl_idem d) = map (\<lambda>x. if x = r then f r else x) (tbl_idem d)"
    unfolding update_where_def using assms(5) by (intro map_cong refl) auto
  have "filter p (tbl_idem d) = [r]"
    using idem_row_only(3) [OF assms(1,2)] assms(5) by (simp cong: filter_cong)
  moreover have "\<forall>x \<in> set (tbl_idem d). idempotency_check x"
    using assms(1) by (simp add: valid_db_def checks_hold_def)
  ultimately show ?thesis
    using assms(3,4) by (auto simp: update_idem_def rows Let_def)
qed

lemma claim_existing_expired:
  assumes "reliable E" and "backend_ok E" and "valid_db (view w)" and "r \<in> set (tbl_idem (view w))"
    and "ir_state r = started" and "ir_claimed_at r = Utc t"
    and "ttl * 1000000 \<le> clock E (clock_count w) - t"
  defines "token \<equiv> uuids E (uuid_count w)"
  defines "r' \<equiv> r\<lparr>ir_claimed_at := Utc (clock E (Suc (clock_count w))), ir_claim_token := token\<rparr>"
  shows "\<exists>w'. claim_existing E r ttl w = (Inr \<lparr>rec_namespace = ir_namespace r, rec_key = ir_key r,
      rec_state = IdemStarted, rec_result = ir_result r, rec_owned = True, rec_claim_token = Some token\<rparr>, w') \<and>
    view w' = (view w)\<lparr>tbl_idem := map (\<lambda>x. if x = r then r' else x) (tbl_idem (view w))\<rparr>"
proof -
  let ?rows = "map (\<lambda>x. if x = r then r' else x) (tbl_idem (view w))"
  note only = idem_row_only(1) [OF assms(3,4)]
  have "find (\<lambda>x. ir_id x = ir_id r) ?rows = Some r'"
  proof -
    have "filter (\<lambda>x. ir_id x = ir_id r) ?rows =
        map (\<lambda>x. if x = r then r' else x) (filter (\<lambda>x. ir_id x = ir_id r) (tbl_idem (view w)))"
      by (rule filter_map_update) (simp add: r'_def)
    also have "\<dots> = [r']"
      using idem_row_only(3) [OF assms(3,4)] by (simp add: only cong: filter_cong)
    finally show ?thesis by (simp add: find_filter_hd)
  qed
  moreover have "reclaim_stmt r token (Utc (clock E (Suc (clock_count w)))) (view w) =
    Inr (1, (view w)\<lparr>tbl_idem := ?rows\<rparr>)"
    unfolding r'_def reclaim_stmt_def using only assms(5)
    by (intro update_idem_single assms(3,4)) (auto simp: idempotency_check_def started_def)
  ultimately show ?thesis
    using assms(2,5-7) idem_state_enum.find_value [of IdemStarted]
    by (simp add: claim_existing_def reclaim_if_expired_def bnd_apply utc_now_def uuid4_def claim_age
        enum_call_def reliable_sql [OF assms(1)] reliable_select [OF assms(1)] token_def Let_def r'_def)
qed

lemma claim_existing_settled:
  assumes "ir_state r = idem_state_value st" and "st \<noteq> IdemStarted"
  shows "claim_existing E r ttl w = (Inr \<lparr>rec_namespace = ir_namespace r, rec_key = ir_key r,
      rec_state = st, rec_result = ir_result r, rec_owned = False, rec_claim_token = None\<rparr>, w)"
  using assms idem_state_enum.distinct_values [of st IdemStarted]
  by (auto simp: claim_existing_def enum_call_def idem_state_enum.find_value)

subsection \<open>Settling\<close>

lemma idem_settle_owner:
  fixes st :: idem_state
  assumes "reliable E" and "valid_db (view w)" and "r \<in> set (tbl_idem (view w))"
    and "at_key ns key r" and "ir_state r = started" and "ir_claim_token r = token"
    and "json_dict result"
  defines "r' \<equiv> r\<lparr>ir_state := idem_state_value st, ir_result := result\<rparr>"
  shows "\<exists>w'. idem_settle E ns key token st result w = (Inr (), w') \<and>
    view w' = (view w)\<lparr>tbl_idem := map (\<lambda>x. if x = r then r' else x) (tbl_idem (view w))\<rparr>"
proof -
  have ns: "ns = ir_namespace r" "key = ir_key r" using assms(4) by (auto simp: at_key_def)
  have "settle_stmt ns key token st result (view w) =
    Inr (1, (view w)\<lparr>tbl_idem := map (\<lambda>x. if x = r then r' else x) (tbl_idem (view w))\<rparr>)"
    unfolding r'_def ns settle_stmt_def using idem_row_only(2) [OF assms(2,3)] assms(5,6)
    by (intro update_idem_single assms(2,3,7)) (cases st, auto simp: idempotency_check_def started_def)
  then show ?thesis
    by (simp add: idem_settle_def bnd_apply reliable_sql [OF assms(1)] Let_def)
qed

lemma idem_settle_refused:
  assumes "reliable E" and "valid_db (view w)" and "r \<in> set (tbl_idem (view w))"
    and "at_key ns key r" and "ir_state r \<noteq> started \<or> ir_claim_token r \<noteq> token"
    and "json_dict result"
  shows "\<exists>w'. idem_settle E ns key token st result w =
      (Inl (raise_conflict ''This attempt no longer owns the idempotency claim.''
         ''idempotency_claim_lost'' [(''namespace'', PStr ns)]), w') \<and> view w' = view w"
proof -
  let ?p = "\<lambda>x. (at_key ns key x \<and> ir_claim_token x = token) \<and> ir_state x = started"
  have ns: "ns = ir_namespace r" "key = ir_key r" using assms(4) by (auto simp: at_key_def)
  have no: "\<not> ?p x" if "x \<in> set (tbl_idem (view w))" for x
    using idem_row_only(2) [OF assms(2,3) that] assms(5) by (auto simp: ns)
  then have "update_where ?p f (tbl_idem (view w)) = tbl_idem (view w)" for f
    by (intro update_where_id) blast
  moreover have "filter ?p (tbl_idem (view w)) = []" using no by (auto simp: filter_empty_conv)
  moreover have "\<forall>x \<in> set (tbl_idem (view w)). idempotency_check x"
    using assms(2) by (simp add: valid_db_def checks_hold_def)
  ultimately show ?thesis
    using assms(6) idem_row_only(4) [OF assms(2,3)]
    by (simp add: idem_settle_def settle_stmt_def bnd_apply reliable_sql [OF assms(1)] update_idem_def Let_def
        reliable_get_row [OF assms(1)] ns)
qed

text \<open>With faults and other workers: a settlement that returns was made by the UPDATE of
  exactly one row that was still \<open>started\<close> under the caller's token.\<close>

lemma idem_settle_success:
  assumes "idem_settle E ns key token st result w = (Inr (), w')"
  defines "d \<equiv> others E (sql_count w) (view w)"
  defines "p \<equiv> \<lambda>x. (at_key ns key x \<and> ir_claim_token x = token) \<and> ir_state x = started"
  shows "length (filter p (tbl_idem d)) = 1 \<and> view w' = d\<lparr>tbl_idem := update_where p
      (\<lambda>x. x\<lparr>ir_state := idem_state_value st, ir_result := result\<rparr>) (tbl_idem d)\<rparr>"
  using assms
  by (auto simp: idem_settle_def settle_stmt_def sql_def Let_def update_idem_Inr_iff d_def p_def
      elim!: bnd_InrE split: if_splits option.splits sum.splits)

lemma idem_start_owned:
  "idem_start E ns key ttl w = (Inr rec, w') \<Longrightarrow> rec_owned rec \<longleftrightarrow> rec_claim_token rec \<noteq> None"
  by (auto simp: idem_start_def claim_existing_def try_except_def bnd_def
      split: prod.splits sum.splits option.splits if_splits)

end
