(* ===== verification/Context_Window.thy ===== *)
theory Context_Window
  imports Conversations
begin

section \<open>Token-budgeted context selection (domain/agent/context.py)\<close>

text \<open>
  \<open>estimate_tokens\<close> and the newest-first selection loop, kept as a loop over the reversed
  message list with its running \<open>remaining\<close> budget. The specification is independent of
  the loop: \<open>fits\<close> says that a list of messages costs at most the budget, and the result
  is the longest suffix of the history that fits.
\<close>

definition chars_per_token :: int where "chars_per_token = 3"

definition message_token_overhead :: int where "message_token_overhead = 4"

definition estimate_tokens :: "string \<Rightarrow> int" where
  \<comment> \<open>\<open>//\<close> rounds towards minus infinity, as \<open>div\<close> on \<open>int\<close> does\<close>
  "estimate_tokens body = - ((- int (length body)) div chars_per_token) + message_token_overhead"

fun select_loop :: "int \<Rightarrow> message list \<Rightarrow> message list \<Rightarrow> message list" where
  \<comment> \<open>\<open>for message in reversed(messages)\<close>: remaining budget, messages still to see, selected\<close>
  "select_loop remaining [] selected = selected"
| "select_loop remaining (m # ms) selected =
     (let cost = estimate_tokens (msg_content m) in
      if cost > remaining then selected
      else select_loop (remaining - cost) ms (selected @ [m]))"

definition select_within_token_budget :: "message list \<Rightarrow> int \<Rightarrow> message list" where
  "select_within_token_budget messages budget =
     (if budget \<le> 0 then [] else rev (select_loop budget (rev messages) []))"

subsection \<open>Facts about the estimate\<close>

lemma estimate_tokens_ceiling:
  "estimate_tokens body = (int (length body) + 2) div 3 + 4"
  by (simp add: estimate_tokens_def chars_per_token_def message_token_overhead_def)

lemma estimate_tokens_ge: "4 \<le> estimate_tokens body"
  by (simp add: estimate_tokens_ceiling)

lemma estimate_tokens_pos: "0 < estimate_tokens body"
  using estimate_tokens_ge [of body] by linarith

lemma estimate_tokens_mono:
  "length s \<le> length t \<Longrightarrow> estimate_tokens s \<le> estimate_tokens t"
  by (simp add: estimate_tokens_ceiling zdiv_mono1)

definition cost_of :: "message list \<Rightarrow> int" where
  "cost_of ms = (\<Sum>m \<leftarrow> ms. estimate_tokens (msg_content m))"

lemma cost_of_simps [simp]:
  "cost_of [] = 0"
  "cost_of (m # ms) = estimate_tokens (msg_content m) + cost_of ms"
  "cost_of (ms @ ns) = cost_of ms + cost_of ns"
  "cost_of (rev ms) = cost_of ms"
  by (simp_all add: cost_of_def rev_map [symmetric] sum_list_rev)

lemma cost_of_nonneg: "0 \<le> cost_of ms"
proof (induction ms)
  case (Cons m ms)
  then show ?case using estimate_tokens_pos [of "msg_content m"] by simp
qed simp

lemma cost_of_suffix: "suffix ms ns \<Longrightarrow> cost_of ms \<le> cost_of ns"
  by (auto simp: suffix_def cost_of_nonneg)

subsection \<open>The loop computes the longest suffix that fits\<close>

definition fits :: "int \<Rightarrow> message list \<Rightarrow> bool" where
  "fits budget ms \<longleftrightarrow> cost_of ms \<le> budget"

text \<open>
  Computation over the reversed list: what the loop adds to \<open>selected\<close> is the longest
  prefix of the messages still to see that fits the remaining budget.
\<close>

fun fitting_prefix :: "int \<Rightarrow> message list \<Rightarrow> message list" where
  "fitting_prefix b [] = []"
| "fitting_prefix b (m # ms) =
     (if estimate_tokens (msg_content m) > b then []
      else m # fitting_prefix (b - estimate_tokens (msg_content m)) ms)"

lemma select_loop_prefix: "select_loop b ms sel = sel @ fitting_prefix b ms"
  by (induction b ms sel rule: select_loop.induct) (simp_all add: Let_def)

lemma fitting_prefix_prefix: "prefix (fitting_prefix b ms) ms"
  by (induction b ms rule: fitting_prefix.induct) auto

lemma fitting_prefix_cost: "0 \<le> b \<Longrightarrow> cost_of (fitting_prefix b ms) \<le> b"
  by (induction b ms rule: fitting_prefix.induct) auto

lemma fitting_prefix_longest:
  "prefix ps ms \<Longrightarrow> cost_of ps \<le> b \<Longrightarrow> prefix ps (fitting_prefix b ms)"
proof (induction b ms arbitrary: ps rule: fitting_prefix.induct)
  case (1 b)
  then show ?case by simp
next
  case (2 b m ms)
  show ?case
  proof (cases ps)
    case (Cons p qs)
    with "2.prems" have p: "p = m" and qs: "prefix qs ms"
      and cost: "estimate_tokens (msg_content m) + cost_of qs \<le> b" by auto
    have "estimate_tokens (msg_content m) \<le> b" using cost cost_of_nonneg [of qs] by linarith
    moreover from this qs cost
    have "prefix qs (fitting_prefix (b - estimate_tokens (msg_content m)) ms)"
      by (intro "2.IH") auto
    ultimately show ?thesis by (simp add: Cons p)
  qed simp
qed

lemma select_suffix: "suffix (select_within_token_budget ms b) ms"
  using fitting_prefix_prefix [of b "rev ms"]
  by (auto simp: select_within_token_budget_def select_loop_prefix suffix_to_prefix)

lemma select_fits: "0 \<le> b \<Longrightarrow> fits b (select_within_token_budget ms b)"
  using fitting_prefix_cost [of b "rev ms"]
  by (auto simp: select_within_token_budget_def select_loop_prefix fits_def)

lemma select_longest:
  assumes "suffix ns ms" and "fits b ns"
  shows "suffix ns (select_within_token_budget ms b)"
proof (cases "b \<le> 0")
  case True
  have "ns = []"
  proof (cases ns)
    case (Cons n ns')
    with assms(2) True show ?thesis
      using estimate_tokens_pos [of "msg_content n"] cost_of_nonneg [of ns']
      by (simp add: fits_def)
  qed
  then show ?thesis by simp
next
  case False
  have "prefix (rev ns) (fitting_prefix b (rev ms))"
    using assms by (intro fitting_prefix_longest) (auto simp: fits_def suffix_to_prefix)
  with False show ?thesis
    by (simp add: select_within_token_budget_def select_loop_prefix suffix_to_prefix)
qed

lemma select_last:
  assumes "estimate_tokens (msg_content m) \<le> b"
  shows "\<exists>ms'. select_within_token_budget (ms @ [m]) b = ms' @ [m]"
proof -
  have "suffix [m] (select_within_token_budget (ms @ [m]) b)"
    using assms by (intro select_longest) (auto simp: fits_def suffix_def)
  then show ?thesis by (auto simp: suffix_def)
qed

lemma select_Nil_iff:
  "select_within_token_budget (ms @ [m]) b = [] \<longleftrightarrow> b < estimate_tokens (msg_content m)"
proof
  assume "select_within_token_budget (ms @ [m]) b = []"
  then show "b < estimate_tokens (msg_content m)"
    using select_last [of m b ms] by fastforce
next
  assume "b < estimate_tokens (msg_content m)"
  then show "select_within_token_budget (ms @ [m]) b = []"
    by (simp add: select_within_token_budget_def select_loop_prefix)
qed

subsection \<open>Properties\<close>

definition sample_message :: "string \<Rightarrow> message" where
  "sample_message body = \<lparr>msg_id = 1, msg_conversation_id = 2, msg_role = RoleUser,
     msg_content = body, msg_metadata = [], msg_created_at = Utc 0\<rparr>"

text \<open>C16: the selected context is the longest contiguous tail of the history whose estimated
  cost fits the budget: it is a suffix, it fits, and every suffix that fits is part of it.\<close>

theorem select_is_longest_fitting_suffix:
  assumes "0 \<le> budget"
  shows "suffix (select_within_token_budget ms budget) ms \<and>
     cost_of (select_within_token_budget ms budget) \<le> budget \<and>
     (\<forall>ns. suffix ns ms \<longrightarrow> cost_of ns \<le> budget \<longrightarrow> suffix ns (select_within_token_budget ms budget))"
  using select_suffix select_fits [OF assms] select_longest by (auto simp: fits_def)

theorem select_is_longest_fitting_suffix_witness:
  "suffix (select_within_token_budget [sample_message ''one'', sample_message ''three''] 7)
     [sample_message ''one'', sample_message ''three''] \<and>
   select_within_token_budget [sample_message ''one'', sample_message ''three''] 7 =
     [sample_message ''three'']"
  using select_is_longest_fitting_suffix [of 7 "[sample_message ''one'', sample_message ''three'']"]
  by (simp add: select_within_token_budget_def sample_message_def estimate_tokens_def
      chars_per_token_def message_token_overhead_def)

end
