(* ===== verification/Agent_Turn.thy ===== *)
theory Agent_Turn
  imports Use_Cases Agent_Run_Repo Idempotency_Repo Context_Window
begin

section \<open>RunAgentTurn (application/agent/use_cases.py)\<close>

text \<open>
  One agent turn: user message in, assistant message out. \<open>turn_world\<close> adds to the world
  the \<open>AgentRun\<close> object the turn mutates, because what was done to it before an exception is
  still there when the failure is settled. The conversation object is not read again after
  a failure, so it is passed by value.

  A provider call takes time: \<open>llm E\<close> answers with an outcome and a duration, and
  \<open>asyncio.timeout\<close> cuts it off when the duration reaches what is left of the run's
  budget, in microseconds.
\<close>

subsection \<open>Data\<close>

record turn_world = world +
  mem_run :: agent_run

type_synonym ('z, 'a) turn = "('z turn_world_scheme, exn, 'a) prog"

definition idempotency_namespace :: string where
  "idempotency_namespace = ''agent_run''"

definition max_input_characters :: int where "max_input_characters = 32000"

definition default_system_prompt :: string where
  "default_system_prompt = ''You are NexaBot, a helpful and safe assistant.''"

fun domain_to_llm_role :: "message_role \<Rightarrow> llm_role" where
  "domain_to_llm_role RoleSystem = LLMSystem"
| "domain_to_llm_role RoleUser = LLMUser"
| "domain_to_llm_role RoleAssistant = LLMAssistant"
| "domain_to_llm_role RoleTool = LLMTool"

record claim =
  claim_key :: string
  claim_token :: uuid

record turn_command =
  cmd_telegram_user_id :: int
  cmd_conversation_id :: uuid
  cmd_text :: string
  cmd_provider :: string
  cmd_model :: string
  cmd_limits :: agent_limits
  cmd_idempotency_key :: "string option"
  cmd_context_window :: int

record turn_result =
  res_run_id :: uuid
  res_conversation_id :: uuid
  res_message_id :: uuid
  res_response :: string
  res_status :: agent_run_status
  res_usage :: pydict

subsection \<open>The stored form of a result\<close>

definition result_to_stored :: "turn_result \<Rightarrow> pydict" where
  "result_to_stored r =
     [(''agent_run_id'', PStr (uuid_str (res_run_id r))),
      (''conversation_id'', PStr (uuid_str (res_conversation_id r))),
      (''assistant_message_id'', PStr (uuid_str (res_message_id r))),
      (''response'', PStr (res_response r)),
      (''status'', PStr (run_status_value (res_status r))),
      (''usage_metadata'', PDict (res_usage r))]"

definition stored_text :: "pydict \<Rightarrow> string \<Rightarrow> exn + string" where
  \<comment> \<open>\<open>str(data[k])\<close>\<close>
  "stored_text data k =
     (case map_of data k of None \<Rightarrow> Inl (PyExn ''KeyError'' k) | Some v \<Rightarrow> Inr (py_str v))"

definition stored_uuid :: "pydict \<Rightarrow> string \<Rightarrow> exn + uuid" where
  \<comment> \<open>\<open>UUID(str(data[k]))\<close>\<close>
  "stored_uuid data k =
     sum_bind (stored_text data k) (\<lambda>s.
     case uuid_parse s of
       None \<Rightarrow> Inl (value_error ''badly formed hexadecimal UUID string'')
     | Some u \<Rightarrow> Inr u)"

definition result_from_stored :: "pydict \<Rightarrow> exn + turn_result" where
  "result_from_stored data =
     sum_bind (stored_uuid data ''agent_run_id'') (\<lambda>rid.
     sum_bind (stored_uuid data ''conversation_id'') (\<lambda>cid.
     sum_bind (stored_uuid data ''assistant_message_id'') (\<lambda>mid.
     sum_bind (stored_text data ''response'') (\<lambda>resp.
     sum_bind (stored_text data ''status'') (\<lambda>st_text.
     sum_bind (enum_call run_statuses run_status_value st_text) (\<lambda>st.
     Inr \<lparr>res_run_id = rid, res_conversation_id = cid, res_message_id = mid,
          res_response = resp, res_status = st,
          res_usage = (case map_of data ''usage_metadata'' of
             Some (PDict u) \<Rightarrow> u | _ \<Rightarrow> [])\<rparr>))))))"

subsection \<open>Checking the input\<close>

definition validate_input :: "turn_command \<Rightarrow> exn + string" where
  "validate_input cmd =
     (let body = strip (cmd_text cmd) in
      if body = []
      then Inl (raise_validation ''Agent turn input is required.'' ''agent_turn_input_required'' [])
      else if int (length body) > max_input_characters
      then Inl (raise_validation ''Agent turn input is too long.'' ''agent_turn_input_too_long''
                  [(''maximum_characters'', PInt max_input_characters)])
      else if cmd_context_window cmd \<le> 0 \<or> cmd_context_window cmd > max_message_window
      then Inl (raise_validation ''Context window is out of range.''
                  ''agent_context_window_invalid'' [(''maximum'', PInt max_message_window)])
      else if estimate_tokens body > max_context_tokens (cmd_limits cmd)
      then Inl (raise_validation ''Agent turn input exceeds the context token budget.''
                  ''agent_turn_input_exceeds_context_budget''
                  [(''max_context_tokens'', PInt (max_context_tokens (cmd_limits cmd)))])
      else Inr body)"

subsection \<open>The idempotency claim\<close>

definition check_idempotency ::
  "env \<Rightarrow> string \<Rightarrow> ('z, turn_result option \<times> claim option) turn" where
  "check_idempotency E key =
     bnd (uow E (idem_start E idempotency_namespace key default_claim_ttl_seconds)) (\<lambda>rec.
     if rec_state rec = IdemCompleted
     then bnd (lift_sum (result_from_stored (rec_result rec))) (\<lambda>r. ret (Some r, None))
     else if rec_state rec = IdemFailed
     then throw (raise_conflict ''A previous attempt for this request failed and was not retried.''
                   ''agent_run_idempotency_failed'' [])
     else case rec_claim_token rec of
       None \<Rightarrow> throw (raise_conflict ''This request is already being processed.''
                      ''agent_run_in_progress'' [])
     | Some token \<Rightarrow>
         if \<not> rec_owned rec
         then throw (raise_conflict ''This request is already being processed.''
                       ''agent_run_in_progress'' [])
         else ret (None, Some \<lparr>claim_key = key, claim_token = token\<rparr>))"

subsection \<open>Starting the turn\<close>

definition run_method ::
  "env \<Rightarrow> nat \<Rightarrow> nat \<Rightarrow> ((nat \<Rightarrow> uuid) \<Rightarrow> (nat \<Rightarrow> datetime) \<Rightarrow> agent_run \<Rightarrow> exn + agent_run) \<Rightarrow>
   ('z, unit) turn" where
  \<comment> \<open>a method call on the turn's run object\<close>
  "run_method E nu nc f =
     bnd (gets mem_run) (\<lambda>r.
     bnd (call_method E nu nc (\<lambda>ids t. f ids t r)) (\<lambda>r'.
     modify (\<lambda>w. w\<lparr>mem_run := r'\<rparr>)))"

definition load_owned_conversation :: "env \<Rightarrow> turn_command \<Rightarrow> user \<Rightarrow> ('z, conversation) turn" where
  "load_owned_conversation E cmd actor =
     bnd (conversations_get E (cmd_conversation_id cmd) (cmd_context_window cmd)) (\<lambda>found.
     case found of
       None \<Rightarrow> throw (raise_not_found ''Conversation not found.'' ''conversation_not_found'')
     | Some c \<Rightarrow>
         if conv_owner_id c \<noteq> user_id actor
         then throw (Nexa (AuthorizationError ''You are not allowed to use this conversation.''
                             ''conversation_not_owned'' []))
         else ret c)"

definition create_run :: "env \<Rightarrow> turn_command \<Rightarrow> uuid \<Rightarrow> uuid \<Rightarrow> ('z, unit) turn" where
  "create_run E cmd actor_id cid =
     bnd (uuid4 E) (\<lambda>rid.
     bnd (modify (\<lambda>w. w\<lparr>mem_run := new_agent_run rid actor_id cid (cmd_provider cmd)
            (cmd_model cmd) (cmd_limits cmd)\<rparr>)) (\<lambda>_.
     bnd (run_method E 0 1 (\<lambda>_ t. start_run (t 0))) (\<lambda>_.
     bnd (run_method E 1 1 (\<lambda>ids t. record_step StepPlanning None (ids 0) (t 0))) (\<lambda>_.
     bnd (run_method E 1 1 (\<lambda>ids t. record_step StepModelCall None (ids 0) (t 0))) (\<lambda>_.
     bnd (gets mem_run) (runs_add E))))))"

definition start_turn_body :: "env \<Rightarrow> turn_command \<Rightarrow> string \<Rightarrow> ('z, conversation) turn" where
  "start_turn_body E cmd body =
     bnd (resolve_current_actor E (cmd_telegram_user_id cmd)) (\<lambda>actor.
     bnd (load_owned_conversation E cmd actor) (\<lambda>c.
     bnd (call_method E 1 2 (\<lambda>ids t. append_message RoleUser body None (ids 0) (t 0) (t 1) c)) (\<lambda>(m, c').
     bnd (conversations_append_message E m) (\<lambda>_.
     bnd (create_run E cmd (user_id actor) (conv_id c')) (\<lambda>_. ret c')))))"

definition start_turn :: "env \<Rightarrow> turn_command \<Rightarrow> string \<Rightarrow> ('z, conversation) turn" where
  "start_turn E cmd body = uow E (start_turn_body E cmd body)"

subsection \<open>The model call\<close>

definition llm_message_of :: "message \<Rightarrow> llm_message" where
  "llm_message_of m = \<lparr>lm_role = domain_to_llm_role (msg_role m), lm_content = msg_content m,
     lm_name = None\<rparr>"

definition build_request :: "string \<Rightarrow> turn_command \<Rightarrow> conversation \<Rightarrow> exn + llm_request" where
  "build_request prompt cmd c =
     (let budget = max_context_tokens (cmd_limits cmd) - estimate_tokens prompt in
      sum_bind (recent_messages (cmd_context_window cmd) c) (\<lambda>recent.
      let history = select_within_token_budget recent budget in
      if history = []
      then Inl (Nexa (AgentExecutionError ''The system prompt leaves no room for conversation context.''
             ''agent_context_budget_exhausted'' False
             [(''max_context_tokens'', PInt (max_context_tokens (cmd_limits cmd)))]))
      else Inr \<lparr>req_provider = cmd_provider cmd, req_model = cmd_model cmd,
             req_messages = \<lparr>lm_role = LLMSystem, lm_content = prompt, lm_name = None\<rparr>
               # map llm_message_of history,
             req_tools = [], req_temperature = default_temperature, req_max_output_tokens = None, req_metadata = []\<rparr>))"

definition remaining_microseconds :: "env \<Rightarrow> ('z, int) turn" where
  "remaining_microseconds E =
     bnd (gets mem_run) (\<lambda>r.
     let budget = max_execution_seconds (run_limits r) * 1000000 in
     case run_started_at r of
       None \<Rightarrow> ret budget
     | Some t0 \<Rightarrow>
         bnd (utc_now E) (\<lambda>now.
         bnd (lift_sum (datetime_sub now t0)) (\<lambda>elapsed. ret (budget - elapsed))))"

definition provider_complete :: "env \<Rightarrow> int \<Rightarrow> llm_request \<Rightarrow> ('z, llm_response) turn" where
  \<comment> \<open>\<open>async with asyncio.timeout(remaining): return await gateway.complete(request)\<close>\<close>
  "provider_complete E remaining req w =
     (let (outcome, elapsed) = llm E (length (llm_calls w)) req
      in (if elapsed \<ge> remaining then Inl TimeoutExn else outcome,
          w\<lparr>llm_calls := llm_calls w @ [(req, tx_open w)]\<rparr>))"

definition call_model :: "env \<Rightarrow> llm_request \<Rightarrow> ('z, llm_response) turn" where
  "call_model E req =
     bnd (remaining_microseconds E) (\<lambda>remaining.
     if remaining \<le> 0
     then throw (Nexa (ExternalServiceError ''The agent run exceeded its execution budget.''
                         ''agent_run_deadline_exceeded'' True []))
     else try_except (provider_complete E remaining req) (\<lambda>e.
       if e = TimeoutExn
       then throw (Nexa (ExternalServiceError ''The model provider did not respond in time.''
                           ''llm_timeout'' True []))
       else throw e))"

definition validate_response :: "llm_response \<Rightarrow> exn + string" where
  "validate_response resp =
     (if resp_tool_calls resp \<noteq> []
      then Inl (Nexa (AgentExecutionError
             ''The model requested a tool call, but no ToolExecutor port is wired yet.''
             ''agent_tool_execution_unsupported'' False []))
      else let content = strip (case resp_content resp of None \<Rightarrow> [] | Some c \<Rightarrow> c) in
        if content = []
        then Inl (Nexa (AgentExecutionError ''The model returned an empty response.''
               ''agent_run_empty_response'' False []))
        else Inr content)"

subsection \<open>Finishing\<close>

definition usage_dict :: "llm_usage \<Rightarrow> pydict" where
  "usage_dict u = [(''input_tokens'', PInt (input_tokens u)),
     (''output_tokens'', PInt (output_tokens u)), (''total_tokens'', PInt (total_tokens u))]"

definition persist_outcome ::
  "env \<Rightarrow> message \<Rightarrow> turn_result \<Rightarrow> claim option \<Rightarrow> ('z, unit) turn" where
  \<comment> \<open>the body of the closing unit of work\<close>
  "persist_outcome E m result claim =
     bnd (conversations_append_message E m) (\<lambda>_.
     bnd (bnd (gets mem_run) (runs_save E)) (\<lambda>_.
     case claim of
       None \<Rightarrow> ret ()
     | Some c \<Rightarrow> idem_complete E idempotency_namespace (claim_key c) (result_to_stored result)
                   (claim_token c)))"

definition finish_turn ::
  "env \<Rightarrow> conversation \<Rightarrow> llm_response \<Rightarrow> string \<Rightarrow> claim option \<Rightarrow> ('z, turn_result) turn" where
  "finish_turn E c resp content claim =
     (let metadata = (if resp_provider_metadata resp = [] then None
                      else Some (resp_provider_metadata resp));
          usage = usage_dict (resp_usage resp)
      in
      bnd (call_method E 1 2 (\<lambda>ids t.
             append_message RoleAssistant content metadata (ids 0) (t 0) (t 1) c)) (\<lambda>(m, c').
      bnd (run_method E 1 1 (\<lambda>ids t. record_step StepValidation None (ids 0) (t 0))) (\<lambda>_.
      bnd (run_method E 1 2 (\<lambda>ids t. finish_run content (Some usage) (ids 0) (t 0) (t 1))) (\<lambda>_.
      bnd (gets mem_run) (\<lambda>run.
      let result = \<lparr>res_run_id = run_id run, res_conversation_id = conv_id c',
                    res_message_id = msg_id m, res_response = content,
                    res_status = run_status run, res_usage = usage\<rparr>
      in bnd (uow E (persist_outcome E m result claim)) (\<lambda>_. ret result))))))"

subsection \<open>Failing\<close>

definition settle_run_body :: "env \<Rightarrow> string \<Rightarrow> ('z, unit) turn" where
  "settle_run_body E reason =
     bnd (gets mem_run) (\<lambda>run.
     bnd (runs_get E (run_id run)) (\<lambda>persisted.
     let target = (case persisted of None \<Rightarrow> run | Some p \<Rightarrow> p) in
     if run_status target \<in> terminal_run_statuses then ret ()
     else
       bnd (call_method E 1 2 (\<lambda>ids t. fail_run reason (ids 0) (t 0) (t 1) target)) (\<lambda>failed.
       bnd (if persisted = None then modify (\<lambda>w. w\<lparr>mem_run := failed\<rparr>) else ret ()) (\<lambda>_.
       runs_save E failed))))"

definition settle_failed_run :: "env \<Rightarrow> string \<Rightarrow> ('z, unit) turn" where
  "settle_failed_run E reason =
     try_except (uow E (settle_run_body E reason)) (\<lambda>e.
       if is_exception e then log_event ''agent_run.settlement_failed'' else throw e)"

definition settle_failed_claim :: "env \<Rightarrow> claim \<Rightarrow> string \<Rightarrow> ('z, unit) turn" where
  "settle_failed_claim E c reason =
     try_except (uow E (idem_fail E idempotency_namespace (claim_key c) reason (claim_token c))) (\<lambda>e.
       if is_conflict e then log_event ''agent_run.claim_lost_on_failure''
       else if is_exception e then log_event ''agent_run.claim_settlement_failed''
       else throw e)"

definition fail_turn :: "env \<Rightarrow> claim option \<Rightarrow> string \<Rightarrow> ('z, unit) turn" where
  "fail_turn E claim reason =
     bnd (settle_failed_run E reason) (\<lambda>_.
     case claim of None \<Rightarrow> ret () | Some c \<Rightarrow> settle_failed_claim E c reason)"

fun normalized_error :: "exn \<Rightarrow> nexabot_error" where
  "normalized_error (Nexa e) = e"
| "normalized_error e = ExternalServiceError ''The model provider failed.'' ''llm_provider_error''
     False [(''error_type'', PStr (exn_type_name e))]"

definition normalize_failure :: "exn \<Rightarrow> ('z, nexabot_error) turn" where
  "normalize_failure e =
     (case e of
        Nexa x \<Rightarrow> ret x
      | _ \<Rightarrow> bnd (log_event (''agent_run.unclassified_failure error_type='' @ exn_type_name e))
               (\<lambda>_. ret (normalized_error e)))"

subsection \<open>The use case\<close>

definition answer_turn ::
  "env \<Rightarrow> string \<Rightarrow> turn_command \<Rightarrow> conversation \<Rightarrow> claim option \<Rightarrow> ('z, turn_result) turn" where
  \<comment> \<open>the \<open>try\<close> block\<close>
  "answer_turn E prompt cmd c claim =
     bnd (lift_sum (build_request prompt cmd c)) (\<lambda>req.
     bnd (call_model E req) (\<lambda>resp.
     bnd (lift_sum (validate_response resp)) (\<lambda>content.
     finish_turn E c resp content claim)))"

definition handle_failure :: "env \<Rightarrow> claim option \<Rightarrow> exn \<Rightarrow> ('z, turn_result) turn" where
  \<comment> \<open>\<open>except Exception as exc\<close>\<close>
  "handle_failure E claim exc =
     (if \<not> is_exception exc then throw exc
      else
        bnd (normalize_failure exc) (\<lambda>failure.
        bnd (fail_turn E claim (safe_message failure)) (\<lambda>_. throw (Nexa failure))))"

definition execute_claimed ::
  "env \<Rightarrow> string \<Rightarrow> turn_command \<Rightarrow> string \<Rightarrow> claim option \<Rightarrow> ('z, turn_result) turn" where
  "execute_claimed E prompt cmd body claim =
     bnd (start_turn E cmd body) (\<lambda>c.
     try_except (answer_turn E prompt cmd c claim) (handle_failure E claim))"

definition execute :: "env \<Rightarrow> string \<Rightarrow> turn_command \<Rightarrow> ('z, turn_result) turn" where
  "execute E prompt cmd =
     bnd (lift_sum (validate_input cmd)) (\<lambda>body.
     bnd (case cmd_idempotency_key cmd of
            None \<Rightarrow> ret (None, None)
          | Some key \<Rightarrow> check_idempotency E key) (\<lambda>(cached, claim).
     case cached of
       Some r \<Rightarrow> ret r
     | None \<Rightarrow> execute_claimed E prompt cmd body claim))"

end
