(* ===== verification/Sample_World.thy ===== *)
theory Sample_World
  imports Agent_Turn
begin

section \<open>A small world to run turns in\<close>

text \<open>
  One active user with a Telegram identity, one conversation with one message, and a turn on
  it: the concrete input at which the properties of the use case are applied.
\<close>

definition sample_db :: db where
  "sample_db = empty_db\<lparr>
     tbl_users := [\<lparr>ur_id = 1, ur_status = ''active'', ur_created_at = Utc (- 9),
       ur_updated_at = Utc (- 9)\<rparr>],
     tbl_telegram := [\<lparr>tr_id = 2, tr_user_id = 1, tr_telegram_user_id = 42,
       tr_username = Some ''ann'', tr_first_name = None, tr_last_name = None\<rparr>],
     tbl_conversations := [\<lparr>cr_id = 7, cr_owner_id = 1, cr_status = ''active'', cr_title = None,
       cr_meta = [], cr_created_at = Utc (- 9), cr_updated_at = Utc (- 9)\<rparr>],
     tbl_messages := [\<lparr>mr_id = 20, mr_conversation_id = 7, mr_role = ''user'',
       mr_content = ''hi'', mr_meta = [], mr_created_at = Utc (- 5)\<rparr>]\<rparr>"

definition turn_world_of :: "db \<Rightarrow> turn_world" where
  "turn_world_of d = \<lparr>committed = d, view = d, idmap = empty_db, tx_open = False, sql_count = 0,
     clock_count = 0, uuid_count = 0, llm_calls = [], log_lines = [],
     mem_run = new_agent_run 0 0 0 [] [] default_limits\<rparr>"

definition sample_command :: turn_command where
  "sample_command = \<lparr>cmd_telegram_user_id = 42, cmd_conversation_id = 7,
     cmd_text = '' how are you? '', cmd_provider = ''openai'', cmd_model = ''gpt'',
     cmd_limits = default_limits, cmd_idempotency_key = None, cmd_context_window = 20\<rparr>"

definition sample_text :: string where "sample_text = ''how are you?''"

definition sample_message_20 :: message where
  "sample_message_20 = \<lparr>msg_id = 20, msg_conversation_id = 7, msg_role = RoleUser,
     msg_content = ''hi'', msg_metadata = [], msg_created_at = Utc (- 5)\<rparr>"

lemma turn_world_of_simps [simp]:
  "committed (turn_world_of d) = d" "view (turn_world_of d) = d" "uuid_count (turn_world_of d) = 0"
  "clock_count (turn_world_of d) = 0" "tx_open (turn_world_of d) = False"
  "sql_count (turn_world_of d) = 0" "llm_calls (turn_world_of d) = []"
  "idmap (turn_world_of d) = empty_db"
  by (simp_all add: turn_world_of_def)

lemma sample_idle: "idle (turn_world_of d)"
  by (simp add: idle_def)

lemma sample_valid: "valid_db sample_db"
  by (simp add: valid_db_def keys_distinct_def checks_hold_def sample_db_def empty_db_def
      user_check_def conversation_check_def message_check_def)

lemma sample_command_simps [simp]:
  "cmd_conversation_id sample_command = 7" "cmd_limits sample_command = default_limits"
  "cmd_idempotency_key sample_command = None"
  by (simp_all add: sample_command_def)

lemma sample_history: "stored_history quiet_env 7 sample_db = Inr [sample_message_20]"
  by code_simp

lemma sample_starts:
  "case fst (start_turn quiet_env sample_command sample_text (turn_world_of sample_db)) of
     Inl _ \<Rightarrow> False | Inr c \<Rightarrow> conv_id c = 7"
  by code_simp

lemma sample_start:
  obtains c w1 where
    "start_turn quiet_env sample_command sample_text (turn_world_of sample_db) = (Inr c, w1)"
  using sample_starts by (metis sum.case_eq_if sum.collapse(2) prod.collapse)

lemma sample_answers:
  "case fst (execute_claimed quiet_env default_system_prompt sample_command sample_text None
     (turn_world_of sample_db)) of Inl _ \<Rightarrow> False | Inr res \<Rightarrow> res_response res = ''Echo: how are you?''"
  by code_simp

definition keyed_command :: turn_command where
  "keyed_command = sample_command\<lparr>cmd_idempotency_key := Some ''k1''\<rparr>"

lemma keyed_answers:
  "case fst (execute quiet_env default_system_prompt keyed_command (turn_world_of sample_db)) of
     Inl _ \<Rightarrow> False | Inr res \<Rightarrow> res_response res = ''Echo: how are you?''"
  by code_simp

lemma keyed_input: "validate_input (keyed_command\<lparr>cmd_telegram_user_id := 99\<rparr>) = Inr sample_text"
  by code_simp

definition taken_row :: idempotency_row where
  "taken_row = claim_row 50 idempotency_namespace ''k1'' (Utc 0) 9"

definition completed_row :: idempotency_row where
  "completed_row = taken_row\<lparr>ir_state := ''completed''\<rparr>"

lemma sample_claimed_valid:
  "valid_db (sample_db\<lparr>tbl_idem := [taken_row]\<rparr>)" "valid_db (sample_db\<lparr>tbl_idem := [completed_row]\<rparr>)"
  using sample_valid
  by (simp_all add: valid_db_def keys_distinct_def checks_hold_def taken_row_def completed_row_def
      claim_row_def idempotency_check_def started_def)

end
