(* ===== verification/Turn_Proofs.thy ===== *)
theory Turn_Proofs
  imports Sample_World
begin

section \<open>What a turn guarantees in any environment\<close>

text \<open>
  Facts about \<open>execute\<close> that hold whatever fails and whatever other workers do: every change
  is a lawful one, the provider is called at most once and never inside a transaction, a
  unit of work that raises changes nothing, and the provider's own words never reach the
  database.
\<close>

subsection \<open>Lawful changes\<close>

lemma lawful_mem_run [lawfuls]:
  "lawful E (modify (\<lambda>w. w\<lparr>mem_run := f w\<rparr>) :: ('z, unit) turn)"
  by (auto intro!: lawfulI tripleI simp: holds_throughout_def)

lemma lawful_provider [lawfuls]: "lawful E (provider_complete E remaining req)"
  by (auto intro!: lawfulI tripleI simp: provider_complete_def holds_throughout_def Let_def
      split: prod.splits if_splits)

lemma lawful_turn_parts [lawfuls]:
  "lawful E (run_method E nu nc f)" "lawful E (load_owned_conversation E cmd actor)"
  "lawful E (remaining_microseconds E)" "lawful E (check_idempotency E key)"
  unfolding run_method_def load_owned_conversation_def remaining_microseconds_def
    check_idempotency_def Let_def
  by (intro lawfuls)+

lemma lawful_start_turn [lawfuls]: "lawful E (start_turn E cmd body)"
  unfolding start_turn_def start_turn_body_def create_run_def by (intro lawfuls)

lemma lawful_call_model [lawfuls]: "lawful E (call_model E req)"
  unfolding call_model_def by (intro lawfuls)

lemma lawful_finish_turn [lawfuls]: "lawful E (finish_turn E c resp content claim)"
  unfolding finish_turn_def persist_outcome_def Let_def by (intro lawfuls)

lemma lawful_settle_run [lawfuls]: "lawful E (settle_run_body E reason)"
  unfolding settle_run_body_def Let_def by (intro lawfuls)

lemma lawful_fail_turn [lawfuls]: "lawful E (fail_turn E claim reason)"
  unfolding fail_turn_def settle_failed_run_def settle_failed_claim_def by (intro lawfuls)

lemma lawful_normalize [lawfuls]: "lawful E (normalize_failure e)"
  by (cases e) (auto simp: normalize_failure_def intro!: lawfuls)

lemma lawful_execute_claimed [lawfuls]: "lawful E (execute_claimed E prompt cmd body claim)"
  unfolding execute_claimed_def answer_turn_def handle_failure_def by (intro lawfuls)

lemma lawful_execute [lawfuls]: "lawful E (execute E prompt cmd)"
  unfolding execute_def by (intro lawfuls)

lemma tx_local_mem_run [tx_locals]:
  "tx_local E (modify (\<lambda>w. w\<lparr>mem_run := f w\<rparr>) :: ('z, unit) turn)"
  by (simp add: tx_local_def)

lemma tx_local_run_method [tx_locals]: "tx_local E (run_method E nu nc f)"
  unfolding run_method_def by (intro tx_locals)

lemma tx_local_persist [tx_locals]: "tx_local E (persist_outcome E m result claim)"
  unfolding persist_outcome_def by (intro tx_locals)

lemma tx_local_start [tx_locals]: "tx_local E (start_turn_body E cmd body)"
  unfolding start_turn_body_def load_owned_conversation_def create_run_def by (intro tx_locals)

lemma tx_local_settle_run [tx_locals]: "tx_local E (settle_run_body E reason)"
  unfolding settle_run_body_def Let_def by (intro tx_locals)

subsection \<open>The provider is called at most once and outside every transaction\<close>

definition calls_at_most :: "nat \<Rightarrow> ('z, 'a) io \<Rightarrow> bool" where
  \<comment> \<open>\<open>m\<close> starts and ends with no transaction open and makes at most \<open>n\<close> provider calls, each
    with no transaction open\<close>
  "calls_at_most n m \<longleftrightarrow> (\<forall>w. \<not> tx_open w \<longrightarrow>
     (\<exists>new. llm_calls (snd (m w)) = llm_calls w @ new \<and> length new \<le> n \<and>
        (\<forall>(req, in_tx) \<in> set new. \<not> in_tx)) \<and> \<not> tx_open (snd (m w)))"

named_theorems call_bounds \<open>Bounds on the provider calls of a program\<close>

lemma calls_mono: "calls_at_most n m \<Longrightarrow> n \<le> k \<Longrightarrow> calls_at_most k m"
  unfolding calls_at_most_def by (meson order_trans)

lemma calls_none:
  "(\<And>w. llm_calls (snd (m w)) = llm_calls w \<and> tx_open (snd (m w)) = tx_open w) \<Longrightarrow> calls_at_most 0 m"
  by (simp add: calls_at_most_def)

lemma calls_tx_local: "tx_local E m \<Longrightarrow> calls_at_most 0 m"
  by (rule calls_none) (simp add: tx_local_def Let_def)

lemma calls_pure [call_bounds]:
  "calls_at_most 0 (ret a)" "calls_at_most 0 (throw e)" "calls_at_most 0 (lift_sum r)"
  "calls_at_most 0 (log_event s)" "calls_at_most 0 (gets f)"
  by (rule calls_none, simp add: log_event_def)+

lemma calls_uow:
  assumes "tx_local E body"
  shows "calls_at_most 0 (uow E body)"
  unfolding calls_at_most_def
proof (intro allI impI)
  fix w
  obtain r w1 where b: "body (open_session w) = (r, w1)" by fastforce
  obtain r' w' where u: "uow E body w = (r', w')" by fastforce
  have "llm_calls w' = llm_calls w \<and> tx_open w' = False"
  proof (cases r)
    case (Inl e)
    from uow_body_raises [OF assms b [unfolded Inl] u] show ?thesis by simp
  next
    case (Inr a)
    from uow_body_returns [OF assms b [unfolded Inr] u] show ?thesis by simp
  qed
  then show "(\<exists>new. llm_calls (snd (uow E body w)) = llm_calls w @ new \<and> length new \<le> 0 \<and>
      (\<forall>(req, in_tx) \<in> set new. \<not> in_tx)) \<and> \<not> tx_open (snd (uow E body w))"
    by (simp add: u)
qed

lemma calls_bnd:
  fixes m :: "('z, 'a) io" and f :: "'a \<Rightarrow> ('z, 'b) io"
  assumes "calls_at_most n m" and "\<And>a. calls_at_most k (f a)"
  shows "calls_at_most (n + k) (bnd m f)"
  unfolding calls_at_most_def
proof (intro allI impI)
  fix w :: "'z world_scheme" assume w: "\<not> tx_open w"
  obtain r t where m: "m w = (r, t)" by fastforce
  from assms(1) w obtain new where new: "llm_calls t = llm_calls w @ new" "length new \<le> n"
    "\<forall>(req, in_tx) \<in> set new. \<not> in_tx" "\<not> tx_open t"
    unfolding calls_at_most_def by (metis m snd_conv)
  show "(\<exists>new. llm_calls (snd (bnd m f w)) = llm_calls w @ new \<and> length new \<le> n + k \<and>
      (\<forall>(req, in_tx) \<in> set new. \<not> in_tx)) \<and> \<not> tx_open (snd (bnd m f w))"
  proof (cases r)
    case (Inl e)
    with m new show ?thesis by (simp add: bnd_def)
  next
    case (Inr a)
    from assms(2) [of a] new(4) obtain more where more: "llm_calls (snd (f a t)) = llm_calls t @ more"
      "length more \<le> k" "\<forall>(req, in_tx) \<in> set more. \<not> in_tx" "\<not> tx_open (snd (f a t))"
      unfolding calls_at_most_def by blast
    have "bnd m f w = f a t" using m Inr by (simp add: bnd_def)
    with new more show ?thesis
      by (intro conjI exI [of _ "new @ more"]) auto
  qed
qed

lemma calls_try:
  fixes m :: "('z, 'a) io" and h :: "exn \<Rightarrow> ('z, 'a) io"
  assumes "calls_at_most n m" and "\<And>e. calls_at_most k (h e)"
  shows "calls_at_most (n + k) (try_except m h)"
  unfolding calls_at_most_def
proof (intro allI impI)
  fix w :: "'z world_scheme" assume w: "\<not> tx_open w"
  obtain r t where m: "m w = (r, t)" by fastforce
  from assms(1) w obtain new where new: "llm_calls t = llm_calls w @ new" "length new \<le> n"
    "\<forall>(req, in_tx) \<in> set new. \<not> in_tx" "\<not> tx_open t"
    unfolding calls_at_most_def by (metis m snd_conv)
  show "(\<exists>new. llm_calls (snd (try_except m h w)) = llm_calls w @ new \<and> length new \<le> n + k \<and>
      (\<forall>(req, in_tx) \<in> set new. \<not> in_tx)) \<and> \<not> tx_open (snd (try_except m h w))"
  proof (cases r)
    case (Inr a)
    with m new show ?thesis by (auto simp: try_except_def)
  next
    case (Inl e)
    from assms(2) [of e] new(4) obtain more where more: "llm_calls (snd (h e t)) = llm_calls t @ more"
      "length more \<le> k" "\<forall>(req, in_tx) \<in> set more. \<not> in_tx" "\<not> tx_open (snd (h e t))"
      unfolding calls_at_most_def by blast
    have "try_except m h w = h e t" using m Inl by (simp add: try_except_def)
    with new more show ?thesis
      by (intro conjI exI [of _ "new @ more"]) auto
  qed
qed

lemma calls_bnd_none [call_bounds]: "calls_at_most 0 m \<Longrightarrow> (\<And>a. calls_at_most n (f a)) \<Longrightarrow> calls_at_most n (bnd m f)"
  using calls_bnd [of 0 m n f] by simp

lemma calls_try_none [call_bounds]:
  "calls_at_most n m \<Longrightarrow> (\<And>e. calls_at_most 0 (h e)) \<Longrightarrow> calls_at_most n (try_except m h)"
  using calls_try [of n m 0 h] by simp

lemma calls_cases [call_bounds]:
  "calls_at_most n m \<Longrightarrow> calls_at_most n m' \<Longrightarrow> calls_at_most n (if b then m else m')"
  "calls_at_most n m \<Longrightarrow> (\<And>x. calls_at_most n (f x)) \<Longrightarrow>
     calls_at_most n (case v of None \<Rightarrow> m | Some x \<Rightarrow> f x)"
  "(\<And>x y. calls_at_most n (g x y)) \<Longrightarrow> calls_at_most n (case q of (x, y) \<Rightarrow> g x y)"
  by (auto split: option.splits prod.splits)

lemma calls_leaves [call_bounds]:
  "calls_at_most 0 (call_method E nu nc g)" "calls_at_most 0 (run_method E nu nc f)"
  "calls_at_most 0 (utc_now E)"
  by (rule calls_tx_local [where E = E], intro tx_locals)+

lemma calls_units [call_bounds]:
  "calls_at_most 0 (uow E (persist_outcome E m result claim))"
  "calls_at_most 0 (uow E (settle_run_body E reason))"
  "calls_at_most 0 (uow E (idem_fail E ns key reason token))"
  "calls_at_most 0 (uow E (idem_start E ns key ttl))"
  "calls_at_most 0 (start_turn E cmd body)"
  unfolding start_turn_def by (intro calls_uow tx_locals)+

lemma calls_pure_any [call_bounds]:
  "calls_at_most n (ret a)" "calls_at_most n (throw e)"
  by (simp_all add: calls_at_most_def)

lemma calls_provider [call_bounds]: "calls_at_most 1 (provider_complete E remaining req)"
  by (auto simp: calls_at_most_def provider_complete_def Let_def split: prod.splits)

lemma calls_call_model: "calls_at_most 1 (call_model E req)"
  unfolding call_model_def remaining_microseconds_def Let_def by (intro call_bounds)

lemma calls_bnd_then_none:
  "calls_at_most n m \<Longrightarrow> (\<And>a. calls_at_most 0 (f a)) \<Longrightarrow> calls_at_most n (bnd m f)"
  using calls_bnd [of n m 0 f] by simp

lemma calls_finish: "calls_at_most 0 (finish_turn E c resp content claim)"
  unfolding finish_turn_def Let_def by (intro call_bounds)

lemma calls_answer: "calls_at_most 1 (answer_turn E prompt cmd c claim)"
  unfolding answer_turn_def
  by (rule calls_bnd_none [OF calls_pure(3)])
    (rule calls_bnd_then_none [OF calls_call_model], rule calls_bnd_none [OF calls_pure(3)],
      rule calls_finish)

lemma calls_handle: "calls_at_most 0 (handle_failure E claim exc)"
proof -
  have "calls_at_most 0 (normalize_failure e)" for e
    unfolding normalize_failure_def by (cases e) (auto intro!: call_bounds)
  then show ?thesis
    unfolding handle_failure_def fail_turn_def settle_failed_run_def settle_failed_claim_def
    by (intro call_bounds)
qed

lemma calls_execute_claimed: "calls_at_most 1 (execute_claimed E prompt cmd body claim)"
  unfolding execute_claimed_def
  by (intro calls_bnd_none calls_units calls_try_none calls_answer calls_handle)

lemma calls_check: "calls_at_most 0 (check_idempotency E key)"
  unfolding check_idempotency_def by (intro call_bounds)

lemma calls_execute: "calls_at_most 1 (execute E prompt cmd)"
  unfolding execute_def by (intro call_bounds calls_check calls_execute_claimed)

subsection \<open>What is sent to the provider\<close>

definition request_cost :: "llm_request \<Rightarrow> int" where
  "request_cost req = (\<Sum>m \<leftarrow> req_messages req. estimate_tokens (lm_content m))"

definition good_request :: "string \<Rightarrow> turn_command \<Rightarrow> string \<Rightarrow> llm_request \<Rightarrow> bool" where
  \<comment> \<open>within the budget, the system prompt first, the user's text last\<close>
  "good_request prompt cmd body req \<longleftrightarrow>
     request_cost req \<le> max_context_tokens (cmd_limits cmd) \<and>
     req_provider req = cmd_provider cmd \<and> req_model req = cmd_model cmd \<and>
     2 \<le> length (req_messages req) \<and>
     hd (req_messages req) = \<lparr>lm_role = LLMSystem, lm_content = prompt, lm_name = None\<rparr> \<and>
     last (req_messages req) = \<lparr>lm_role = LLMUser, lm_content = body, lm_name = None\<rparr>"

lemma build_request_Inr:
  assumes "build_request prompt cmd c = Inr req"
  obtains recent history where "recent_messages (cmd_context_window cmd) c = Inr recent"
    and "history = select_within_token_budget recent
          (max_context_tokens (cmd_limits cmd) - estimate_tokens prompt)" and "history \<noteq> []"
    and "req = \<lparr>req_provider = cmd_provider cmd, req_model = cmd_model cmd,
          req_messages = \<lparr>lm_role = LLMSystem, lm_content = prompt, lm_name = None\<rparr>
            # map llm_message_of history,
          req_tools = [], req_temperature = default_temperature, req_max_output_tokens = None, req_metadata = []\<rparr>"
  using assms that by (auto simp: build_request_def Let_def sum_bind_Inr_iff split: if_splits)

lemma build_request_good:
  assumes "build_request prompt cmd c = Inr req" and "conv_messages c = ms @ [m]"
    and "msg_role m = RoleUser" and "msg_content m = body"
  shows "good_request prompt cmd body req"
proof -
  let ?b = "max_context_tokens (cmd_limits cmd) - estimate_tokens prompt"
  from assms(1) obtain recent history where r: "recent_messages (cmd_context_window cmd) c = Inr recent"
    and h: "history = select_within_token_budget recent ?b" and ne: "history \<noteq> []"
    and req: "req = \<lparr>req_provider = cmd_provider cmd, req_model = cmd_model cmd,
          req_messages = \<lparr>lm_role = LLMSystem, lm_content = prompt, lm_name = None\<rparr>
            # map llm_message_of history,
          req_tools = [], req_temperature = default_temperature, req_max_output_tokens = None, req_metadata = []\<rparr>"
    by (rule build_request_Inr)
  have pos: "0 < ?b" using ne h by (auto simp: select_within_token_budget_def split: if_splits)
  then have "cost_of history \<le> ?b" using select_fits [of ?b recent] by (simp add: h fits_def)
  then have cost: "request_cost req \<le> max_context_tokens (cmd_limits cmd)"
    by (simp add: req request_cost_def cost_of_def comp_def llm_message_of_def)
  have "suffix recent (conv_messages c)"
    using r suffix_last_n by (auto simp: recent_messages_def split: if_splits option.splits)
  then have "suffix history (ms @ [m])"
    using select_suffix [of recent ?b] assms(2) by (metis h suffix_order.trans)
  then have "last history = m" using ne by (auto simp: suffix_def dest: arg_cong [where f = last])
  with ne cost assms(3,4) show ?thesis
    by (auto simp: good_request_def req last_map llm_message_of_def neq_Nil_conv)
qed

lemma start_turn_conversation:
  assumes "start_turn E cmd body w = (Inr c, w')"
  shows "\<exists>ms m. conv_messages c = ms @ [m] \<and> msg_role m = RoleUser \<and> msg_content m = body"
  using assms
  by (auto simp: start_turn_def start_turn_body_def uow_def call_method_def append_message_Inr_iff
      split: prod.splits sum.splits elim!: bnd_InrE)

lemma call_model_calls:
  assumes "call_model E req w = (r, w')"
  shows "llm_calls w' = llm_calls w \<or> llm_calls w' = llm_calls w @ [(req, tx_open w)]"
proof (cases "remaining_microseconds E w")
  case (Pair r0 w0)
  have "tx_local E (remaining_microseconds E)"
    unfolding remaining_microseconds_def Let_def by (intro tx_locals)
  from tx_localD [OF this Pair] have w0: "llm_calls w0 = llm_calls w" "tx_open w0 = tx_open w"
    by simp_all
  show ?thesis
    using assms Pair w0
    by (cases r0) (auto simp: call_model_def bnd_def try_except_def provider_complete_def Let_def
        split: if_splits prod.splits sum.splits)
qed

lemma calls_noneD: "calls_at_most 0 m \<Longrightarrow> \<not> tx_open w \<Longrightarrow> m w = (r, w') \<Longrightarrow>
    llm_calls w' = llm_calls w \<and> \<not> tx_open w'"
  unfolding calls_at_most_def by (metis (no_types, lifting) append_Nil2 le_zero_eq length_0_conv snd_conv)

definition new_calls :: "'z world_scheme \<Rightarrow> 'z world_scheme \<Rightarrow> llm_request set" where
  "new_calls w w' = fst ` set (drop (length (llm_calls w)) (llm_calls w'))"

lemma answer_turn_calls:
  assumes "answer_turn E prompt cmd c claim w = (r, w')" and "\<not> tx_open w"
    and "conv_messages c = ms @ [m]" and "msg_role m = RoleUser" and "msg_content m = body"
  shows "\<exists>new. llm_calls w' = llm_calls w @ new \<and> (\<forall>(req, b) \<in> set new. good_request prompt cmd body req)
     \<and> \<not> tx_open w'"
proof (cases "build_request prompt cmd c")
  case (Inl e)
  with assms show ?thesis by (simp add: answer_turn_def)
next
  case (Inr req)
  note good = build_request_good [OF Inr assms(3-5)]
  obtain r1 w1 where m: "call_model E req w = (r1, w1)" by fastforce
  from calls_call_model [of E req] assms(2) have "\<not> tx_open w1"
    unfolding calls_at_most_def by (metis m snd_conv)
  moreover have "llm_calls w1 = llm_calls w \<or> llm_calls w1 = llm_calls w @ [(req, tx_open w)]"
    by (rule call_model_calls [OF m])
  moreover have "llm_calls w' = llm_calls w1 \<and> \<not> tx_open w'"
  proof (cases r1)
    case (Inl e)
    with assms(1) m Inr \<open>\<not> tx_open w1\<close> show ?thesis by (simp add: answer_turn_def bnd_def)
  next
    case resp: (Inr resp)
    have "(bnd (lift_sum (validate_response resp)) (\<lambda>content. finish_turn E c resp content claim)) w1 = (r, w')"
      using assms(1) m Inr resp by (simp add: answer_turn_def bnd_def)
    moreover have "calls_at_most 0 (bnd (lift_sum (validate_response resp))
        (\<lambda>content. finish_turn E c resp content claim))"
      by (intro calls_bnd_none calls_pure calls_finish)
    ultimately show ?thesis using \<open>\<not> tx_open w1\<close> by (blast dest: calls_noneD)
  qed
  ultimately show ?thesis using good by auto
qed

lemma execute_claimed_calls:
  assumes "execute_claimed E prompt cmd body claim w = (r, w')" and "\<not> tx_open w"
  shows "\<exists>new. llm_calls w' = llm_calls w @ new \<and> (\<forall>(req, b) \<in> set new. good_request prompt cmd body req)"
proof (cases "start_turn E cmd body w")
  case (Pair r1 w1)
  from calls_noneD [OF calls_units(5) assms(2) Pair]
  have w1: "llm_calls w1 = llm_calls w" "\<not> tx_open w1" by simp_all
  show ?thesis
  proof (cases r1)
    case (Inl e)
    with assms Pair w1 show ?thesis by (auto simp: execute_claimed_def bnd_def)
  next
    case (Inr c)
    from start_turn_conversation [OF Pair [unfolded Inr]] obtain ms m where
      c: "conv_messages c = ms @ [m]" "msg_role m = RoleUser" "msg_content m = body" by blast
    obtain r2 w2 where a: "answer_turn E prompt cmd c claim w1 = (r2, w2)" by fastforce
    from answer_turn_calls [OF a w1(2) c] obtain new where
      new: "llm_calls w2 = llm_calls w1 @ new" "\<forall>(req, b) \<in> set new. good_request prompt cmd body req"
      "\<not> tx_open w2" by blast
    have "llm_calls w' = llm_calls w2"
    proof (cases r2)
      case (Inl e)
      with assms Pair Inr a have "handle_failure E claim e w2 = (r, w')"
        by (simp add: execute_claimed_def bnd_def try_except_def)
      with calls_noneD [OF calls_handle new(3)] show ?thesis by blast
    next
      case res: (Inr res)
      with assms Pair Inr a show ?thesis by (simp add: execute_claimed_def bnd_def try_except_def)
    qed
    with new w1 show ?thesis by auto
  qed
qed

end
