(* ===== verification/Turn_Correct.thy ===== *)
theory Turn_Correct
  imports Turn_Proofs
begin

section \<open>What a turn stores when nothing fails around it\<close>

text \<open>
  In a reliable environment the effect of a turn on the database is determined: this theory
  follows \<open>start_turn\<close>, the closing unit of work and the settlement of a failed turn, and
  concludes that a started turn always ends with its run in a terminal status, \<open>succeeded\<close>
  together with the answer in the conversation or \<open>failed\<close> with the reason.

  \<open>fresh_ids\<close> says that the identifiers about to be drawn are new, \<open>clock_ahead\<close> that the
  clock is past the conversation's messages and strictly increasing (the source names two
  appends in one microsecond as a known limitation).
\<close>

subsection \<open>Programs that only read\<close>

definition read_only :: "env \<Rightarrow> ('z, 'a) io \<Rightarrow> bool" where
  "read_only E m \<longleftrightarrow> (reliable E \<longrightarrow> (\<forall>w. view (snd (m w)) = view w \<and>
     uuid_count (snd (m w)) = uuid_count w \<and> clock_count (snd (m w)) = clock_count w))"

named_theorems read_onlys \<open>Programs that only read\<close>

lemma read_onlyD:
  "read_only E m \<Longrightarrow> reliable E \<Longrightarrow> m w = (r, w') \<Longrightarrow>
     view w' = view w \<and> uuid_count w' = uuid_count w \<and> clock_count w' = clock_count w"
  by (metis read_only_def snd_conv)

lemma read_only_leaves [read_onlys]:
  "read_only E (ret a)" "read_only E (throw e)" "read_only E (lift_sum r)" "read_only E (gets f)"
  "read_only E (one_or_none rows)" "read_only E (remember upd g)" "read_only E (sql_select E q)"
  by (simp_all add: read_only_def one_or_none_def remember_def reliable_select)

lemma read_only_bnd [read_onlys]:
  "read_only E m \<Longrightarrow> (\<And>a. read_only E (f a)) \<Longrightarrow> read_only E (bnd m f)"
  by (auto simp: read_only_def bnd_def split: prod.splits sum.splits) (metis snd_conv)+

lemma read_only_cases [read_onlys]:
  "read_only E m \<Longrightarrow> (\<And>x. read_only E (f x)) \<Longrightarrow> read_only E (case v of None \<Rightarrow> m | Some x \<Rightarrow> f x)"
  "read_only E m \<Longrightarrow> read_only E m' \<Longrightarrow> read_only E (if b then m else m')"
  by (auto split: option.splits)

lemma read_only_map_each [read_onlys]: "(\<And>x. read_only E (f x)) \<Longrightarrow> read_only E (map_each f xs)"
  by (induction xs) (auto intro!: read_onlys)

lemma read_only_gets [read_onlys]:
  "read_only E (session_get E tbl upd p)" "read_only E (load_role E row)"
  unfolding session_get_def load_role_def by (intro read_onlys)+

lemma read_only_parts [read_onlys]:
  "read_only E (resolve_current_actor E tid)" "read_only E (load_owned_conversation E cmd actor)"
  unfolding resolve_current_actor_def get_by_telegram_identity_def users_get_def get_user_row_def
    user_to_domain_def load_roles_def load_owned_conversation_def conversations_get_def
    get_conversation_row_def conversation_to_domain_def load_messages_def
  by (intro read_onlys)+

subsection \<open>Identifiers and times\<close>

definition used_ids :: "db \<Rightarrow> uuid set" where
  "used_ids d = mr_id ` set (tbl_messages d) \<union> ar_id ` set (tbl_runs d) \<union>
     sr_id ` set (tbl_steps d) \<union> sr_run_id ` set (tbl_steps d)"

definition fresh_ids :: "env \<Rightarrow> nat \<Rightarrow> nat \<Rightarrow> db \<Rightarrow> bool" where
  \<comment> \<open>the \<open>k\<close> identifiers drawn from the \<open>n\<close>-th on are new\<close>
  "fresh_ids E n k d \<longleftrightarrow> inj_on (uuids E) {n..<n + k} \<and>
     (\<forall>i \<in> {n..<n + k}. uuids E i \<notin> used_ids d)"

definition clock_ahead :: "env \<Rightarrow> nat \<Rightarrow> uuid \<Rightarrow> db \<Rightarrow> bool" where
  "clock_ahead E n cid d \<longleftrightarrow> (\<forall>i j. i < j \<longrightarrow> clock E i < clock E j) \<and>
     (\<forall>r \<in> set (conversation_rows cid d). mr_created_at r < Utc (clock E n))"

lemma fresh_distinct:
  "fresh_ids E n k d \<Longrightarrow> i < k \<Longrightarrow> j < k \<Longrightarrow> uuids E (n + i) = uuids E (n + j) \<longleftrightarrow> i = j"
  by (auto simp: fresh_ids_def dest: inj_onD)

subsection \<open>Starting\<close>

definition started_run :: "env \<Rightarrow> turn_command \<Rightarrow> uuid \<Rightarrow> uuid \<Rightarrow> nat \<Rightarrow> nat \<Rightarrow> agent_run" where
  \<comment> \<open>the run object after \<open>start()\<close> and its first two steps: identifiers from the \<open>n\<close>-th, clock
    readings from the \<open>t\<close>-th\<close>
  "started_run E cmd actor cid n t =
     (new_agent_run (uuids E n) actor cid (cmd_provider cmd) (cmd_model cmd) (cmd_limits cmd))
     \<lparr>run_status := RunRunning, run_started_at := Some (Utc (clock E t)),
      run_steps := [
        \<lparr>step_id = uuids E (n + 1), step_run_id = uuids E n, step_index = 1,
         step_type = StepPlanning, step_metadata = [], step_created_at = Utc (clock E (t + 1))\<rparr>,
        \<lparr>step_id = uuids E (n + 2), step_run_id = uuids E n, step_index = 2,
         step_type = StepModelCall, step_metadata = [], step_created_at = Utc (clock E (t + 2))\<rparr>]\<rparr>"

lemma create_run_Inr:
  assumes "create_run E cmd actor cid w = (Inr (), w')"
  defines "r \<equiv> started_run E cmd actor cid (uuid_count w) (clock_count w)"
  shows "runs_add E r (w\<lparr>uuid_count := uuid_count w + 3, clock_count := clock_count w + 3,
      mem_run := r\<rparr>) = (Inr (), w') \<and> 2 \<le> max_steps (cmd_limits cmd)"
  using assms(1)
  by (auto simp: create_run_def run_method_def call_method_def uuid4_def start_run_Inr_iff
      record_step_Inr_iff ensure_step_budget_iff r_def started_run_def new_agent_run_def
      dict_or_empty_def eval_nat_numeral terminal_step_types_def elim!: bnd_InrE split: sum.splits)

subsection \<open>Programs that leave the objects and the counters alone\<close>

definition quiet_prog :: "('z, 'a) turn \<Rightarrow> bool" where
  "quiet_prog m \<longleftrightarrow> (\<forall>w. mem_run (snd (m w)) = mem_run w \<and>
     uuid_count (snd (m w)) = uuid_count w \<and> clock_count (snd (m w)) = clock_count w)"

named_theorems quiet_progs \<open>Programs that leave the objects and the counters alone\<close>

lemma quiet_progD:
  "quiet_prog m \<Longrightarrow> m w = (r, w') \<Longrightarrow>
     mem_run w' = mem_run w \<and> uuid_count w' = uuid_count w \<and> clock_count w' = clock_count w"
  by (metis quiet_prog_def snd_conv)

lemma quiet_leaves [quiet_progs]:
  "quiet_prog (ret a)" "quiet_prog (throw e)" "quiet_prog (lift_sum r)" "quiet_prog (gets f)"
  "quiet_prog (one_or_none rows)" "quiet_prog (remember upd g)" "quiet_prog (sql E q)"
  "quiet_prog (sql_select E s)"
  by (simp_all add: quiet_prog_def one_or_none_def remember_def sql_select_def sql_def Let_def
      split: option.splits sum.splits)

lemma quiet_bnd [quiet_progs]: "quiet_prog m \<Longrightarrow> (\<And>a. quiet_prog (f a)) \<Longrightarrow> quiet_prog (bnd m f)"
  by (auto simp: quiet_prog_def bnd_def split: prod.splits sum.splits) (metis snd_conv)+

lemma quiet_cases [quiet_progs]:
  "quiet_prog m \<Longrightarrow> (\<And>x. quiet_prog (f x)) \<Longrightarrow> quiet_prog (case v of None \<Rightarrow> m | Some x \<Rightarrow> f x)"
  "quiet_prog m \<Longrightarrow> quiet_prog m' \<Longrightarrow> quiet_prog (if b then m else m')"
  by (auto split: option.splits)

lemma quiet_for_each [quiet_progs]: "(\<And>x. quiet_prog (f x)) \<Longrightarrow> quiet_prog (for_each xs f)"
  by (induction xs) (auto intro!: quiet_progs)

lemma quiet_uow [quiet_progs]:
  fixes body :: "('z, 'a) turn"
  assumes "quiet_prog body"
  shows "quiet_prog (uow E body)"
proof -
  have obj: "mem_run (close_session w) = mem_run w" "uuid_count (close_session w) = uuid_count w"
    "clock_count (close_session w) = clock_count w" "mem_run (open_session w) = mem_run w"
    "uuid_count (open_session w) = uuid_count w" "clock_count (open_session w) = clock_count w"
    for w :: "'z turn_world_scheme"
    by (simp_all add: close_session_def open_session_def)
  have fin: "quiet_prog m \<Longrightarrow> quiet_prog (try_finally m close_session)" for m :: "('z, unit) turn"
    by (simp add: quiet_prog_def try_finally_def obj split_def)
  have catch: "quiet_prog m \<Longrightarrow> (\<And>e. quiet_prog (h e)) \<Longrightarrow> quiet_prog (try_except m h)"
    for m :: "('z, unit) turn" and h
    by (auto simp: quiet_prog_def try_except_def split: prod.splits sum.splits) (metis snd_conv)+
  have ends: "quiet_prog (commit_session E :: ('z, unit) turn)"
    "quiet_prog (rollback_session E :: ('z, unit) turn)" "quiet_prog (log_event l :: ('z, unit) turn)" for l
    by (auto simp: quiet_prog_def commit_session_def rollback_session_def log_event_def Let_def
        split: option.splits)
  have exit: "quiet_prog (uow_exit E exc :: ('z, unit) turn)" for exc
    unfolding uow_exit_def rollback_quietly_def translate_database_errors_def
    by (cases exc) (auto intro!: quiet_progs fin catch ends)
  show ?thesis
    unfolding quiet_prog_def
  proof
    fix w
    obtain r w1 where b: "body (open_session w) = (r, w1)" by fastforce
    have "quiet_prog (bnd (uow_exit E None) (\<lambda>_. ret a) :: ('z, 'a) turn)" for a
      by (intro quiet_bnd exit quiet_leaves)
    moreover have "quiet_prog (bnd (uow_exit E (Some e)) (\<lambda>_. throw e) :: ('z, 'a) turn)" for e
      by (intro quiet_bnd exit quiet_leaves)
    ultimately show "mem_run (snd (uow E body w)) = mem_run w \<and> uuid_count (snd (uow E body w)) = uuid_count w \<and>
        clock_count (snd (uow E body w)) = clock_count w"
      using b quiet_progD [OF assms b]
      by (cases r) (auto simp: uow_def obj quiet_prog_def)
  qed
qed

lemma quiet_repos [quiet_progs]:
  "quiet_prog (append_step E s)" "quiet_prog (conversations_append_message E m)"
  "quiet_prog (get_run_row E i)" "quiet_prog (runs_add E r)"
  unfolding append_step_def conversations_append_message_def get_run_row_def session_get_def
    runs_add_def
  by (intro quiet_progs | simp only: append_step_def)+

lemma quiet_saves [quiet_progs]:
  "quiet_prog (runs_save E r)" "quiet_prog (idem_settle E ns key token st result)"
  "quiet_prog (runs_get E i)"
  unfolding runs_save_def idem_settle_def idem_get_row_def runs_get_def run_to_domain_def Let_def
  by (intro quiet_progs)+

lemma quiet_persist [quiet_progs]: "quiet_prog (persist_outcome E m result claim)"
  unfolding persist_outcome_def idem_complete_def by (intro quiet_progs)

subsection \<open>The started run\<close>

lemma started_run_simps [simp]:
  "run_id (started_run E cmd u c n t) = uuids E n"
  "run_status (started_run E cmd u c n t) = RunRunning"
  "run_limits (started_run E cmd u c n t) = cmd_limits cmd"
  "length (run_steps (started_run E cmd u c n t)) = 2"
  "step_id ` set (run_steps (started_run E cmd u c n t)) = {uuids E (n + 1), uuids E (n + 2)}"
  "run_started_at (started_run E cmd u c n t) = Some (Utc (clock E t))"
  by (auto simp: started_run_def new_agent_run_def)

lemma started_run_storable:
  assumes "limits_positive (cmd_limits cmd)" and "2 \<le> max_steps (cmd_limits cmd)"
    and "uuids E (n + 1) \<noteq> uuids E (n + 2)"
  shows "storable (started_run E cmd u c n t)"
  using assms
  by (simp add: storable_def run_wf_def started_run_def new_agent_run_def steps_numbered_def
      within_budget_def work_steps_def tool_call_count_def times_match_def run_aware_def
      run_json_def terminal_step_types_def terminal_run_statuses_def upt_conv_Cons limits_positive_def)

subsection \<open>The opening unit of work\<close>

definition user_message :: "env \<Rightarrow> turn_command \<Rightarrow> string \<Rightarrow> nat \<Rightarrow> nat \<Rightarrow> message" where
  "user_message E cmd body n t = \<lparr>msg_id = uuids E n,
     msg_conversation_id = cmd_conversation_id cmd, msg_role = RoleUser, msg_content = body,
     msg_metadata = [], msg_created_at = Utc (clock E t)\<rparr>"

lemma load_owned_Inr:
  "load_owned_conversation E cmd actor w = (Inr c, w') \<Longrightarrow>
     conv_id c = cmd_conversation_id cmd \<and> conv_owner_id c = user_id actor"
  by (auto simp: load_owned_conversation_def elim!: bnd_InrE split: option.splits if_splits
      dest: conversations_get_id)

lemma reliable_insert_message:
  assumes "reliable E" and "conversations_append_message E m w = (Inr (), w')"
  shows "insert_message (fk_on E) (message_row_of m) (view w) = Inr ((), view w')"
  using assms(2) by (auto simp: conversations_append_message_def reliable_sql [OF assms(1)] Let_def
      split: sum.splits)

lemma start_turn_body_effect:
  assumes E: "reliable E" and "start_turn_body E cmd body w = (Inr c, w')"
  defines "n \<equiv> uuid_count w" and "t \<equiv> clock_count w"
  shows "\<exists>actor d1. let r = started_run E cmd actor (cmd_conversation_id cmd) (n + 1) (t + 2) in
    insert_message (fk_on E) (message_row_of (user_message E cmd body n t)) (view w) = Inr ((), d1) \<and>
    view w' = added_db r d1 \<and> run_id r \<notin> ar_id ` set (tbl_runs d1) \<and> mem_run w' = r \<and>
    uuid_count w' = n + 4 \<and> clock_count w' = t + 5 \<and> \<not> blank body \<and> 2 \<le> max_steps (cmd_limits cmd) \<and>
    conv_id c = cmd_conversation_id cmd \<and> conv_status c = ConvActive"
proof -
  from assms(2) obtain actor wa c0 wb m wc wd where
    a: "resolve_current_actor E (cmd_telegram_user_id cmd) w = (Inr actor, wa)"
    and l: "load_owned_conversation E cmd actor wa = (Inr c0, wb)"
    and m: "call_method E 1 2 (\<lambda>ids t. append_message RoleUser body None (ids 0) (t 0) (t 1) c0) wb = (Inr (m, c), wc)"
    and i: "conversations_append_message E m wc = (Inr (), wd)"
    and r: "create_run E cmd (user_id actor) (conv_id c) wd = (Inr (), w')"
    by (auto simp: start_turn_body_def elim!: bnd_InrE split: prod.splits)
  have "view wb = view w" "uuid_count wb = n" "clock_count wb = t"
    using read_onlyD [OF read_only_parts(1) E a] read_onlyD [OF read_only_parts(2) E l]
    by (simp_all add: n_def t_def)
  moreover note load_owned_Inr [OF l]
  ultimately have mc: "m = user_message E cmd body n t" "conv_id c = cmd_conversation_id cmd"
    "conv_status c = ConvActive" "\<not> blank body" "view wc = view w" "uuid_count wc = n + 1"
    "clock_count wc = t + 2"
    using m by (auto simp: call_method_def append_message_Inr_iff user_message_def dict_or_empty_def
        split: sum.splits)
  have d: "uuid_count wd = n + 1" "clock_count wd = t + 2"
    using quiet_progD [OF quiet_repos(2) i] mc by simp_all
  note run = create_run_Inr [OF r, unfolded d mc(2)]
  let ?r = "started_run E cmd (user_id actor) (cmd_conversation_id cmd) (n + 1) (t + 2)"
  from run have add: "runs_add E ?r (wd\<lparr>uuid_count := n + 1 + 3, clock_count := t + 2 + 3, mem_run := ?r\<rparr>) =
    (Inr (), w')" by blast
  note v = runs_add_success [OF E add] and q = quiet_progD [OF quiet_repos(4) add]
  have "insert_message (fk_on E) (message_row_of (user_message E cmd body n t)) (view w) = Inr ((), view wd)"
    using reliable_insert_message [OF E i] mc by simp
  with v q run mc show ?thesis
    by (intro exI [of _ "user_id actor"] exI [of _ "view wd"]) (simp add: Let_def)
qed

definition turn_ready :: "env \<Rightarrow> turn_command \<Rightarrow> nat \<Rightarrow> nat \<Rightarrow> db \<Rightarrow> bool" where
  \<comment> \<open>what a turn needs of the world around it: no surprises, valid tables, fresh identifiers
    and a clock that is past the conversation\<close>
  "turn_ready E cmd n t d \<longleftrightarrow> reliable E \<and> backend_ok E \<and> valid_db d \<and>
     limits_positive (cmd_limits cmd) \<and> fresh_ids E n 8 d \<and>
     clock_ahead E t (cmd_conversation_id cmd) d"

definition turn_started ::
  "env \<Rightarrow> turn_command \<Rightarrow> string \<Rightarrow> nat \<Rightarrow> nat \<Rightarrow> agent_run \<Rightarrow> db \<Rightarrow> db \<Rightarrow> bool" where
  \<comment> \<open>\<open>d'\<close> is \<open>d\<close> with the user's message appended and the started run \<open>r\<close> stored\<close>
  "turn_started E cmd body n t r d d' \<longleftrightarrow>
     (\<exists>actor d1. r = started_run E cmd actor (cmd_conversation_id cmd) (n + 1) (t + 2) \<and>
        insert_message (fk_on E) (message_row_of (user_message E cmd body n t)) d = Inr ((), d1) \<and>
        d' = added_db r d1 \<and> run_id r \<notin> ar_id ` set (tbl_runs d1)) \<and>
     \<not> blank body \<and> storable r \<and> valid_db d'"

lemma start_turn_effect:
  assumes ready: "turn_ready E cmd (uuid_count w) (clock_count w) (committed w)" and "idle w"
    and "start_turn E cmd body w = (Inr c, w')"
  shows "turn_started E cmd body (uuid_count w) (clock_count w) (mem_run w') (committed w) (committed w') \<and>
    uuid_count w' = uuid_count w + 4 \<and> clock_count w' = clock_count w + 5 \<and>
    conv_id c = cmd_conversation_id cmd \<and> conv_status c = ConvActive \<and> idle w'"
proof -
  have E: "reliable E" and lim: "limits_positive (cmd_limits cmd)"
    and fresh: "fresh_ids E (uuid_count w) 8 (committed w)" and valid: "valid_db (committed w)"
    using ready by (simp_all add: turn_ready_def)
  from uow_reliable_Inr [OF E assms(3) [unfolded start_turn_def]] obtain w1 where
    b: "start_turn_body E cmd body (open_session w) = (Inr c, w1)"
    and w': "w' = w1\<lparr>committed := view w1, sql_count := Suc (sql_count w1), tx_open := False\<rparr>" by blast
  have o: "view (open_session w) = committed w" "uuid_count (open_session w) = uuid_count w"
    "clock_count (open_session w) = clock_count w" by (simp_all add: open_session_def)
  from start_turn_body_effect [OF E b, unfolded o Let_def] obtain actor d1 where
    e: "insert_message (fk_on E) (message_row_of (user_message E cmd body (uuid_count w) (clock_count w)))
        (committed w) = Inr ((), d1)"
      "view w1 = added_db (mem_run w1) d1" "run_id (mem_run w1) \<notin> ar_id ` set (tbl_runs d1)"
      "mem_run w1 = started_run E cmd actor (cmd_conversation_id cmd) (uuid_count w + 1) (clock_count w + 2)"
      "uuid_count w1 = uuid_count w + 4" "clock_count w1 = clock_count w + 5" "\<not> blank body"
      "2 \<le> max_steps (cmd_limits cmd)" "conv_id c = cmd_conversation_id cmd" "conv_status c = ConvActive"
    by auto
  have "uuids E (uuid_count w + 2) \<noteq> uuids E (uuid_count w + 3)"
    using fresh_distinct [OF fresh, of 2 3] by simp
  then have st: "storable (mem_run w1)"
    using started_run_storable [OF lim e(8), of E "uuid_count w + 1"] e(4) by (simp add: numeral_3_eq_3)
  have "valid_db (committed w')"
    using lawful_valid [OF lawful_start_turn reliable_peers [OF E] valid, of cmd body]
      assms(2,3) valid by (simp add: idle_def)
  with e st show ?thesis
    unfolding turn_started_def by (auto simp: w' idle_def)
qed

lemma turn_started_stored:
  assumes "turn_started E cmd body n t r d d'" and "turn_ready E cmd n t d"
  shows "stored_run E (run_id r) d' = Inr (Some r)"
    and "stored_history E (cmd_conversation_id cmd) d = Inr full \<Longrightarrow>
      stored_history E (cmd_conversation_id cmd) d' = Inr (full @ [user_message E cmd body n t])"
    and "run_status r = RunRunning" and "run_wf r" and "length (run_steps r) = 2"
    and "run_id r = uuids E (n + 1)"
    and "used_ids d' \<subseteq> used_ids d \<union> uuids E ` {n..<n + 4}"
    and "\<forall>x \<in> set (conversation_rows (cmd_conversation_id cmd) d'). mr_created_at x \<le> Utc (clock E t)"
proof -
  let ?m = "user_message E cmd body n t" and ?cid = "cmd_conversation_id cmd"
  from assms(1) obtain actor d1 where
    r: "r = started_run E cmd actor ?cid (n + 1) (t + 2)"
    and ins: "insert_message (fk_on E) (message_row_of ?m) d = Inr ((), d1)"
    and d': "d' = added_db r d1" and new: "run_id r \<notin> ar_id ` set (tbl_runs d1)"
    and st: "storable r" and body: "\<not> blank body"
    by (auto simp: turn_started_def)
  have be: "backend_ok E" and fresh: "fresh_ids E n 8 d" and ahead: "clock_ahead E t ?cid d"
    using assms(2) by (simp_all add: turn_ready_def)
  have d1: "d1 = d\<lparr>tbl_messages := tbl_messages d @ [message_row_of ?m]\<rparr>"
    using ins by (auto simp: insert_message_def guarded_Inr_iff)
  show rid: "run_id r = uuids E (n + 1)" and "run_status r = RunRunning" and "length (run_steps r) = 2"
    by (simp_all add: r)
  show "run_wf r" using st by (simp add: storable_def)
  have "uuids E (n + 1) \<notin> used_ids d" using fresh by (simp add: fresh_ids_def)
  then have "run_id r \<notin> sr_run_id ` set (tbl_steps d1)" by (simp add: rid d1 used_ids_def)
  from added_db_stored(1) [OF be st new this] show "stored_run E (run_id r) d' = Inr (Some r)"
    by (simp add: d')
  have rows: "conversation_rows cid d' = conversation_rows cid d1" for cid
    by (simp add: conversation_rows_def d' added_db_def)
  have mrow: "mr_conversation_id (message_row_of ?m) = ?cid" "mr_created_at (message_row_of ?m) = Utc (clock E t)"
    by (simp_all add: message_row_of_def user_message_def)
  have old: "mr_created_at x < Utc (clock E t)" if "x \<in> set (conversation_rows ?cid d)" for x
    using ahead that by (simp add: clock_ahead_def)
  show "stored_history E ?cid d' = Inr (full @ [?m])" if "stored_history E ?cid d = Inr full"
  proof -
    have "stored_history E (msg_conversation_id ?m) d1 = Inr (full @ [?m])"
      using that body old
      by (intro insert_message_history [OF ins be]) (auto simp: user_message_def message_sort_key_def less_eq_prod_def less_imp_le)
    then show ?thesis by (simp add: stored_history_def rows) (simp add: user_message_def)
  qed
  have steps: "set (map step_row_of (run_steps r)) \<subseteq> {x. sr_id x \<in> {uuids E (n + 2), uuids E (n + 3)} \<and> sr_run_id x = uuids E (n + 1)}"
    by (auto simp: r started_run_def step_row_of_def new_agent_run_def numeral_3_eq_3)
  show "used_ids d' \<subseteq> used_ids d \<union> uuids E ` {n..<n + 4}"
  proof -
    have in4: "uuids E (n + i) \<in> uuids E ` {n..<n + 4}" if "i < 4" for i using that by simp
    have "sr_id ` set (tbl_steps d') \<subseteq> sr_id ` set (tbl_steps d) \<union> uuids E ` {n..<n + 4}"
      "sr_run_id ` set (tbl_steps d') \<subseteq> sr_run_id ` set (tbl_steps d) \<union> uuids E ` {n..<n + 4}"
      using steps in4 [of 1] in4 [of 2] in4 [of 3] by (auto simp: d' added_db_def d1)
    moreover have ids: "ar_id (run_row_of r) = uuids E (n + 1)" "mr_id (message_row_of ?m) = uuids E n"
      by (simp_all add: run_row_of_def rid message_row_of_def user_message_def)
    moreover have "set (tbl_runs d') = insert (run_row_of r) (set (tbl_runs d))"
      "set (tbl_messages d') = insert (message_row_of ?m) (set (tbl_messages d))"
      by (simp_all add: d' added_db_def d1)
    moreover have "uuids E n \<in> uuids E ` {n..<n + 4}" "uuids E (n + 1) \<in> uuids E ` {n..<n + 4}"
      using in4 [of 0] in4 [of 1] by simp_all
    ultimately show ?thesis unfolding used_ids_def by (simp only: image_insert ids) blast
  qed
  show "\<forall>x \<in> set (conversation_rows ?cid d'). mr_created_at x \<le> Utc (clock E t)"
    unfolding rows using old mrow
    by (auto simp: conversation_rows_def d1 intro: less_imp_le)
qed

end
