(* ===== verification/Turn_Settlement.thy ===== *)
theory Turn_Settlement
  imports Turn_Correct
begin

section \<open>How a started turn ends\<close>

text \<open>
  The closing unit of work, the settlement of a failed turn, and their composition: a turn
  that started ends with its run stored as \<open>succeeded\<close> and its answer in the conversation,
  or as \<open>failed\<close> with the reason, in every case but a cancellation of the task.
\<close>

subsection \<open>The model call leaves the database alone\<close>

lemma call_model_frame:
  assumes "call_model E req w = (x, w')"
  shows "committed w' = committed w \<and> view w' = view w \<and> mem_run w' = mem_run w \<and>
    uuid_count w' = uuid_count w \<and> clock_count w \<le> clock_count w' \<and> tx_open w' = tx_open w"
proof -
  have "committed w0 = committed w \<and> view w0 = view w \<and> mem_run w0 = mem_run w \<and>
      uuid_count w0 = uuid_count w \<and> clock_count w \<le> clock_count w0 \<and> tx_open w0 = tx_open w"
    if "remaining_microseconds E w = (r0, w0)" for r0 w0
    using that by (auto simp: remaining_microseconds_def Let_def utc_now_def bnd_def
        split: option.splits prod.splits sum.splits)
  with assms show ?thesis
    by (fastforce simp: call_model_def bnd_def try_except_def provider_complete_def Let_def
        split: prod.splits sum.splits if_splits)
qed

subsection \<open>The closing unit of work\<close>

lemma stored_run_frame:
  "tbl_runs d' = tbl_runs d \<Longrightarrow> tbl_steps d' = tbl_steps d \<Longrightarrow> stored_run E i d' = stored_run E i d"
  by (simp add: stored_run_def steps_of_run_def split: option.split)

lemma idem_settle_tables:
  assumes "reliable E" and "idem_settle E ns key token st result w = (r, w')"
  shows "\<exists>rows. view w' = (view w)\<lparr>tbl_idem := rows\<rparr>"
proof -
  have same: "\<exists>rows. d = d\<lparr>tbl_idem := rows\<rparr>" for d by (intro exI [of _ "tbl_idem d"]) simp
  from assms(2) show ?thesis
    by (auto simp: idem_settle_def settle_stmt_def bnd_def reliable_sql [OF assms(1)] Let_def
        update_idem_Inr_iff reliable_get_row [OF assms(1)] same
        split: sum.splits prod.splits if_splits option.splits)
qed

lemma idem_completed_row:
  assumes "reliable E" and "idem_complete E ns key result token w = (Inr (), w')"
  shows "\<exists>row \<in> set (tbl_idem (view w')). at_key ns key row \<and> ir_state row = ''completed'' \<and>
    ir_result row = result \<and> ir_claim_token row = token"
proof -
  let ?p = "\<lambda>x. (at_key ns key x \<and> ir_claim_token x = token) \<and> ir_state x = started"
  let ?f = "\<lambda>x. x\<lparr>ir_state := idem_state_value IdemCompleted, ir_result := result\<rparr>"
  have o: "others E i d = d" for i d using assms(1) by (simp add: reliable_def)
  from idem_settle_success [OF assms(2) [unfolded idem_complete_def]]
  have one: "length (filter ?p (tbl_idem (view w))) = 1"
    and v: "view w' = (view w)\<lparr>tbl_idem := update_where ?p ?f (tbl_idem (view w))\<rparr>"
    by (simp_all add: o)
  have "filter ?p (tbl_idem (view w)) \<noteq> []" using one by (metis list.size(3) zero_neq_one)
  then obtain x where "x \<in> set (tbl_idem (view w))" "?p x" by (auto simp: filter_empty_conv)
  then have "?f x \<in> set (tbl_idem (view w'))" and "at_key ns key (?f x)" "ir_claim_token x = token"
    by (auto simp: v update_where_def at_key_def intro!: rev_image_eqI [of x])
  then show ?thesis by (intro bexI [of _ "?f x"]) simp_all
qed

lemma persist_effect:
  assumes E: "reliable E" and "backend_ok E" and "valid_db (view w)" and "idmap w = empty_db"
    and "stored_run E (run_id (mem_run w)) (view w) = Inr (Some r0)" and "run_wf r0"
    and "extends r0 (mem_run w)" and "storable (mem_run w)"
    and "\<And>s. s \<in> set (drop (length (run_steps r0)) (run_steps (mem_run w))) \<Longrightarrow>
      step_id s \<notin> sr_id ` set (tbl_steps (view w))"
    and p: "persist_outcome E m result claim w = (Inr (), w')"
  shows "\<exists>d2. insert_message (fk_on E) (message_row_of m) (view w) = Inr ((), d2) \<and>
    tbl_messages (view w') = tbl_messages d2 \<and>
    stored_run E (run_id (mem_run w)) (view w') = Inr (Some (mem_run w)) \<and>
    (\<forall>c. claim = Some c \<longrightarrow> (\<exists>row \<in> set (tbl_idem (view w')).
       at_key idempotency_namespace (claim_key c) row \<and> ir_state row = ''completed'' \<and>
       ir_result row = result_to_stored result \<and> ir_claim_token row = claim_token c))"
proof -
  let ?r = "mem_run w"
  from p obtain w1 w2 where i: "conversations_append_message E m w = (Inr (), w1)"
    and s: "runs_save E (mem_run w1) w1 = (Inr (), w2)"
    and c: "(case claim of None \<Rightarrow> ret () | Some c \<Rightarrow> idem_complete E idempotency_namespace
        (claim_key c) (result_to_stored result) (claim_token c)) w2 = (Inr (), w')"
    by (auto simp: persist_outcome_def elim!: bnd_InrE)
  have m1: "mem_run w1 = ?r" using quiet_progD [OF quiet_repos(2) i] by simp
  have ins: "insert_message (fk_on E) (message_row_of m) (view w) = Inr ((), view w1)"
    by (rule reliable_insert_message [OF E i])
  then have v1: "view w1 = (view w)\<lparr>tbl_messages := tbl_messages (view w) @ [message_row_of m]\<rparr>"
    by (auto simp: insert_message_def guarded_Inr_iff)
  have valid: "valid_db (view w1)" by (rule valid_insert(4) [OF ins assms(3)])
  have "idmap w1 = empty_db"
    using i assms(4) by (auto simp: conversations_append_message_def sql_def Let_def
        split: option.splits sum.splits)
  then have none: "find q (tbl_runs (idmap w1)) = None" for q by (simp add: empty_db_def)
  have same: "stored_run E j (view w1) = stored_run E j (view w)" for j
    by (rule stored_run_frame) (simp_all add: v1)
  from assms(5) obtain row where
    row: "find (\<lambda>x. ar_id x = run_id ?r) (tbl_runs (view w1)) = Some row"
    and rows: "run_of_rows E row (steps_of_run (run_id ?r) (view w1)) = Inr r0"
    unfolding same [symmetric] by (auto simp: stored_run_def sum_bind_Inr_iff split: option.splits)
  have fresh: "step_id x \<notin> sr_id ` set (tbl_steps (view w1))"
    if "x \<in> set (drop (length (run_steps r0)) (run_steps ?r))" for x
    using assms(9) [OF that] by (simp add: v1)
  from runs_save_reliable [OF E valid assms(8,7,6) row rows _ fresh] none s m1
  have v2: "view w2 = saved_db ?r row (length (run_steps r0)) (view w1)" by auto
  have st: "stored_run E (run_id ?r) (view w2) = Inr (Some ?r)"
    unfolding v2 by (rule saved_db_stored [OF assms(2,8,7,6) row rows])
  show ?thesis
  proof (cases claim)
    case None
    with c have "w' = w2" by simp
    with ins st v2 None show ?thesis by (auto simp: saved_db_def)
  next
    case (Some cl)
    with c have ok: "idem_complete E idempotency_namespace (claim_key cl) (result_to_stored result)
        (claim_token cl) w2 = (Inr (), w')" by simp
    from idem_settle_tables [OF E ok [unfolded idem_complete_def]] obtain rs where
      v3: "view w' = (view w2)\<lparr>tbl_idem := rs\<rparr>" by blast
    have "stored_run E (run_id ?r) (view w') = Inr (Some ?r)"
      unfolding v3 st [symmetric] by (rule stored_run_frame) simp_all
    moreover have "tbl_messages (view w') = tbl_messages (view w1)"
      by (simp add: v3 v2 saved_db_def)
    ultimately show ?thesis
      using ins idem_completed_row [OF E ok] Some by blast
  qed
qed

end
