(* ===== verification/Turn_Outcome.thy ===== *)
theory Turn_Outcome
  imports Turn_Settlement
begin

section \<open>The outcome of a started turn\<close>

text \<open>
  Composes the closing unit of work with the settlement of failures: after the run was
  stored as running, the turn either stores it as succeeded together with the answer, or
  stores it as failed with the reason and leaves the conversation as it was. The lemmas
  follow one exit each; \<open>turn_settled\<close> names the two ends.
\<close>

subsection \<open>Calls on the run object\<close>

lemma run_method_Inr:
  "run_method E nu nc f w = (Inr u, w') \<longleftrightarrow>
     (\<exists>r. f (\<lambda>i. uuids E (uuid_count w + i)) (\<lambda>i. Utc (clock E (clock_count w + i))) (mem_run w) = Inr r \<and>
        w' = w\<lparr>uuid_count := uuid_count w + nu, clock_count := clock_count w + nc, mem_run := r\<rparr>)"
  by (auto simp: run_method_def call_method_def bnd_def split: sum.splits)

lemma run_method_Inl: "run_method E nu nc f w = (Inl e, w') \<Longrightarrow> w' = w"
  by (auto simp: run_method_def call_method_def bnd_def split: sum.splits)

lemma method_Inr:
  "call_method E nu nc f w = (Inr a, w') \<longleftrightarrow>
     f (\<lambda>i. uuids E (uuid_count w + i)) (\<lambda>i. Utc (clock E (clock_count w + i))) = Inr a \<and>
     w' = w\<lparr>uuid_count := uuid_count w + nu, clock_count := clock_count w + nc\<rparr>"
  by (auto simp: call_method_def split: sum.splits)

lemma method_Inl: "call_method E nu nc f w = (Inl e, w') \<Longrightarrow> w' = w"
  by (auto simp: call_method_def split: sum.splits)

lemma stored_step_ids:
  assumes "stored_run E i d = Inr (Some r)"
  shows "step_id ` set (run_steps r) \<subseteq> sr_id ` set (tbl_steps d)"
proof -
  have ids: "sum_map (step_to_domain E) rows = Inr ss \<Longrightarrow> map step_id ss = map sr_id rows" for rows ss
    by (induction rows arbitrary: ss) (auto simp: sum_bind_Inr_iff step_to_domain_def)
  from assms obtain rows where "sum_map (step_to_domain E) rows = Inr (run_steps r)"
    and sub: "set rows \<subseteq> set (tbl_steps d)"
    by (auto simp: stored_run_def run_of_rows_def sum_bind_Inr_iff steps_of_run_def split: option.splits)
  from ids [OF this(1)] sub show ?thesis by (metis image_mono list.set_map)
qed

lemma storable_extend:
  assumes "storable r0" and "run_wf r" and "run_steps r = run_steps r0 @ ss"
    and "\<And>s. s \<in> set ss \<Longrightarrow> aware (step_created_at s) \<and> json_dict (step_metadata s)"
    and "distinct (map step_id ss)" and "step_id ` set ss \<inter> step_id ` set (run_steps r0) = {}"
    and "pred_option aware (run_started_at r)" and "pred_option aware (run_finished_at r)"
    and "json_dict (run_usage_metadata r)"
  shows "storable r"
  using assms by (auto simp: storable_def run_aware_def run_json_def)

subsection \<open>When the closing unit of work raises\<close>

definition same_store :: "'z turn_world_scheme \<Rightarrow> 'z turn_world_scheme \<Rightarrow> bool" where
  \<comment> \<open>nothing was committed, the run object is still that run, at most four identifiers drawn\<close>
  "same_store w w' \<longleftrightarrow> committed w' = committed w \<and> run_id (mem_run w') = run_id (mem_run w) \<and>
     uuid_count w \<le> uuid_count w' \<and> uuid_count w' \<le> uuid_count w + 3"

lemma finish_turn_raises:
  assumes E: "reliable E" and "finish_turn E c resp content claim w = (Inl e, w')"
  shows "same_store w w'"
proof -
  let ?meta = "if resp_provider_metadata resp = [] then None else Some (resp_provider_metadata resp)"
  let ?A = "call_method E 1 2 (\<lambda>ids t. append_message RoleAssistant content ?meta (ids 0) (t 0) (t 1) c)"
  let ?B = "run_method E 1 1 (\<lambda>ids t. record_step StepValidation None (ids 0) (t 0))"
  let ?C = "run_method E 1 2 (\<lambda>ids t. finish_run content (Some (usage_dict (resp_usage resp))) (ids 0) (t 0) (t 1))"
  consider "?A w = (Inl e, w')"
    | m c' w1 where "?A w = (Inr (m, c'), w1)" "?B w1 = (Inl e, w')"
    | m c' w1 w2 where "?A w = (Inr (m, c'), w1)" "?B w1 = (Inr (), w2)" "?C w2 = (Inl e, w')"
    | m c' w1 w2 w3 result where "?A w = (Inr (m, c'), w1)" "?B w1 = (Inr (), w2)" "?C w2 = (Inr (), w3)"
        "uow E (persist_outcome E m result claim) w3 = (Inl e, w')"
    using assms(2) by (fastforce simp: finish_turn_def Let_def elim!: bnd_InlE split: prod.splits)
  then show ?thesis
  proof cases
    case 1
    then show ?thesis by (auto dest!: method_Inl simp: same_store_def)
  next
    case 2
    then show ?thesis by (auto dest!: run_method_Inl simp: same_store_def method_Inr)
  next
    case 3
    then show ?thesis
      by (auto dest!: run_method_Inl simp: same_store_def method_Inr run_method_Inr record_step_Inr_iff)
  next
    case 4
    from uow_reliable_Inl [OF E tx_local_persist 4(4)] obtain x w4 where
      p: "persist_outcome E m result claim (open_session w3) = (Inl x, w4)"
      and w': "w' = w4\<lparr>view := committed w3, sql_count := Suc (sql_count w4), tx_open := False\<rparr>"
      "committed w4 = committed w3" by blast
    from quiet_progD [OF quiet_persist p] w' 4(1-3) show ?thesis
      by (auto simp: same_store_def method_Inr run_method_Inr record_step_Inr_iff finish_run_Inr_iff
          open_session_def)
  qed
qed

subsection \<open>When it commits\<close>

definition assistant_message :: "env \<Rightarrow> conversation \<Rightarrow> llm_response \<Rightarrow> string \<Rightarrow> nat \<Rightarrow> nat \<Rightarrow> message" where
  "assistant_message E c resp content n t = \<lparr>msg_id = uuids E n, msg_conversation_id = conv_id c,
     msg_role = RoleAssistant, msg_content = content,
     msg_metadata = resp_provider_metadata resp, msg_created_at = Utc (clock E t)\<rparr>"

definition answered_run :: "env \<Rightarrow> agent_run \<Rightarrow> llm_response \<Rightarrow> string \<Rightarrow> nat \<Rightarrow> nat \<Rightarrow> agent_run" where
  \<comment> \<open>the run object after its last two steps\<close>
  "answered_run E r resp content n t = r\<lparr>run_status := RunSucceeded,
     run_steps := run_steps r @ [
       \<lparr>step_id = uuids E n, step_run_id = run_id r, step_index = int (length (run_steps r)) + 1,
        step_type = StepValidation, step_metadata = [], step_created_at = Utc (clock E t)\<rparr>,
       \<lparr>step_id = uuids E (n + 1), step_run_id = run_id r, step_index = int (length (run_steps r)) + 2,
        step_type = StepFinalResponse, step_metadata = [], step_created_at = Utc (clock E (t + 1))\<rparr>],
     run_finished_at := Some (Utc (clock E (t + 2))), run_final_response := Some content,
     run_usage_metadata := usage_dict (resp_usage resp)\<rparr>"

lemma finish_turn_Inr:
  assumes "finish_turn E c resp content claim w = (Inr res, w')"
  defines "n \<equiv> uuid_count w" and "t \<equiv> clock_count w"
  defines "m \<equiv> assistant_message E c resp content n t"
  defines "r \<equiv> answered_run E (mem_run w) resp content (n + 1) (t + 2)"
  shows "\<exists>w3. uow E (persist_outcome E m res claim) w3 = (Inr (), w') \<and>
    w3 = w\<lparr>uuid_count := n + 3, clock_count := t + 5, mem_run := r\<rparr> \<and>
    res = \<lparr>res_run_id = run_id (mem_run w), res_conversation_id = conv_id c, res_message_id = uuids E n,
      res_response = content, res_status = RunSucceeded, res_usage = usage_dict (resp_usage resp)\<rparr> \<and>
    run_step\<^sup>*\<^sup>* (mem_run w) r \<and> run_status (mem_run w) = RunRunning \<and> \<not> blank content \<and>
    conv_status c = ConvActive"
proof -
  let ?meta = "if resp_provider_metadata resp = [] then None else Some (resp_provider_metadata resp)"
  from assms(1) obtain m' c' w1 w2 w3 result where
    a: "call_method E 1 2 (\<lambda>ids t. append_message RoleAssistant content ?meta (ids 0) (t 0) (t 1) c) w =
        (Inr (m', c'), w1)"
    and b: "run_method E 1 1 (\<lambda>ids t. record_step StepValidation None (ids 0) (t 0)) w1 = (Inr (), w2)"
    and f: "run_method E 1 2 (\<lambda>ids t. finish_run content (Some (usage_dict (resp_usage resp))) (ids 0)
        (t 0) (t 1)) w2 = (Inr (), w3)"
    and u: "uow E (persist_outcome E m' res claim) w3 = (Inr (), w')"
    and res: "res = \<lparr>res_run_id = run_id (mem_run w3), res_conversation_id = conv_id c',
      res_message_id = msg_id m', res_response = content, res_status = run_status (mem_run w3),
      res_usage = usage_dict (resp_usage resp)\<rparr>"
    by (auto simp: finish_turn_def Let_def elim!: bnd_InrE split: prod.splits)
  have m: "m' = m" "conv_id c' = conv_id c" "conv_status c = ConvActive" "\<not> blank content"
    and w1: "w1 = w\<lparr>uuid_count := n + 1, clock_count := t + 2\<rparr>"
    using a by (auto simp: method_Inr append_message_Inr_iff m_def assistant_message_def
        dict_or_empty_def n_def t_def)
  from b obtain r1 where r1: "record_step StepValidation None (uuids E (n + 1)) (Utc (clock E (t + 2)))
      (mem_run w) = Inr r1" and w2: "w2 = w\<lparr>uuid_count := n + 2, clock_count := t + 3, mem_run := r1\<rparr>"
    by (auto simp: run_method_Inr w1)
  from f have r2: "finish_run content (Some (usage_dict (resp_usage resp))) (uuids E (n + 2))
      (Utc (clock E (t + 3))) (Utc (clock E (t + 4))) r1 = Inr (mem_run w3)"
    and w3: "w3 = w\<lparr>uuid_count := n + 3, clock_count := t + 5, mem_run := mem_run w3\<rparr>"
    by (auto simp: run_method_Inr w2 eval_nat_numeral)
  have "mem_run w3 = r"
    using r1 r2 by (simp add: record_step_Inr_iff finish_run_Inr_iff r_def answered_run_def
        dict_or_empty_def usage_dict_def eval_nat_numeral)
  moreover have "run_step\<^sup>*\<^sup>* (mem_run w) (mem_run w3)"
    using r1 r2 by (blast intro: step_record step_finish rtranclp.intros)
  moreover have "run_status (mem_run w) = RunRunning" using r1 by (simp add: record_step_Inr_iff)
  moreover have "run_id r = run_id (mem_run w)" "run_status r = RunSucceeded" "msg_id m = uuids E n"
    by (simp_all add: r_def answered_run_def m_def assistant_message_def)
  ultimately show ?thesis
    using u w3 m res by (intro exI [of _ w3]) simp
qed


definition store_ready :: "env \<Rightarrow> agent_run \<Rightarrow> nat \<Rightarrow> db \<Rightarrow> bool" where
  \<comment> \<open>\<open>r\<close> is stored as it is and running, and the next four identifiers are new\<close>
  "store_ready E r n d \<longleftrightarrow> reliable E \<and> backend_ok E \<and> valid_db d \<and>
     stored_run E (run_id r) d = Inr (Some r) \<and> storable r \<and> fresh_ids E n 4 d"

lemma answered_run_storable:
  assumes "store_ready E r n d" and "run_step\<^sup>*\<^sup>* r (answered_run E r resp content (n + 1) t)"
  shows "storable (answered_run E r resp content (n + 1) t)"
proof -
  let ?r = "answered_run E r resp content (n + 1) t"
  have s: "storable r" and f: "fresh_ids E n 4 d" and st: "stored_run E (run_id r) d = Inr (Some r)"
    using assms(1) by (simp_all add: store_ready_def)
  have "run_wf ?r" using run_cycle.star_inv [OF assms(2)] s by (simp add: storable_def)
  moreover have "uuids E (n + 1) \<notin> used_ids d" "uuids E (n + 2) \<notin> used_ids d"
    using f by (auto simp: fresh_ids_def)
  then have "{uuids E (n + 1), uuids E (n + 2)} \<inter> step_id ` set (run_steps r) = {}"
    using stored_step_ids [OF st] by (auto simp: used_ids_def)
  ultimately show ?thesis
    using fresh_distinct [OF f, of 1 2] s
    by (intro storable_extend [OF s]) 
      (auto simp: answered_run_def usage_dict_def storable_def run_aware_def eval_nat_numeral)
qed



lemma finish_turn_effect:
  assumes ready: "store_ready E (mem_run w) (uuid_count w) (committed w)"
    and "finish_turn E c resp content claim w = (Inr res, w')"
  defines "n \<equiv> uuid_count w" and "t \<equiv> clock_count w"
  defines "m \<equiv> assistant_message E c resp content n t"
  defines "r \<equiv> answered_run E (mem_run w) resp content (n + 1) (t + 2)"
  shows "\<exists>d2. insert_message (fk_on E) (message_row_of m) (committed w) = Inr ((), d2) \<and>
    tbl_messages (committed w') = tbl_messages d2 \<and>
    stored_run E (run_id (mem_run w)) (committed w') = Inr (Some r) \<and> \<not> blank content \<and>
    res = \<lparr>res_run_id = run_id (mem_run w), res_conversation_id = conv_id c, res_message_id = uuids E n,
      res_response = content, res_status = RunSucceeded, res_usage = usage_dict (resp_usage resp)\<rparr> \<and>
    (\<forall>cl. claim = Some cl \<longrightarrow> (\<exists>row \<in> set (tbl_idem (committed w')).
       at_key idempotency_namespace (claim_key cl) row \<and> ir_state row = ''completed'' \<and>
       ir_result row = result_to_stored res \<and> ir_claim_token row = claim_token cl))"
proof -
  from finish_turn_Inr [OF assms(2)] obtain w3 where
    u: "uow E (persist_outcome E m res claim) w3 = (Inr (), w')"
    and w3: "w3 = w\<lparr>uuid_count := n + 3, clock_count := t + 5, mem_run := r\<rparr>"
    and res: "res = \<lparr>res_run_id = run_id (mem_run w), res_conversation_id = conv_id c,
      res_message_id = uuids E n, res_response = content, res_status = RunSucceeded,
      res_usage = usage_dict (resp_usage resp)\<rparr>"
    and steps: "run_step\<^sup>*\<^sup>* (mem_run w) r" and nb: "\<not> blank content"
    unfolding m_def r_def n_def t_def by blast
  have E: "reliable E" and st: "stored_run E (run_id (mem_run w)) (committed w) = Inr (Some (mem_run w))"
    and f: "fresh_ids E n 4 (committed w)" and wf: "run_wf (mem_run w)" and be: "backend_ok E"
    and valid: "valid_db (committed w)"
    using ready by (simp_all add: store_ready_def storable_def n_def)
  from uow_reliable_Inr [OF E u] obtain w4 where
    p: "persist_outcome E m res claim (open_session w3) = (Inr (), w4)"
    and w': "committed w' = view w4" by auto
  have o: "view (open_session w3) = committed w" "idmap (open_session w3) = empty_db"
    "mem_run (open_session w3) = r" by (simp_all add: open_session_def w3)
  have rid: "run_id r = run_id (mem_run w)" by (simp add: r_def answered_run_def)
  have new: "step_id s \<notin> sr_id ` set (tbl_steps (committed w))"
    if "s \<in> set (drop (length (run_steps (mem_run w))) (run_steps r))" for s
  proof -
    have "step_id s \<in> {uuids E (n + 1), uuids E (n + 2)}"
      using that by (auto simp: r_def answered_run_def)
    moreover have "uuids E (n + 1) \<notin> used_ids (committed w)" "uuids E (n + 2) \<notin> used_ids (committed w)"
      using f by (auto simp: fresh_ids_def)
    ultimately show ?thesis by (auto simp: used_ids_def)
  qed
  have "storable r"
    using answered_run_storable [OF ready, folded n_def, of resp content "t + 2", folded r_def] steps .
  from persist_effect [OF E be _ o(2), unfolded o rid, OF valid st wf run_steps_extend [OF steps] this new p]
  show ?thesis using nb res by (simp add: w')
qed

subsection \<open>The settlement of a failed turn\<close>

definition failed_run :: "env \<Rightarrow> agent_run \<Rightarrow> string \<Rightarrow> nat \<Rightarrow> nat \<Rightarrow> agent_run" where
  \<comment> \<open>a running run after \<open>fail(reason)\<close>\<close>
  "failed_run E r reason n t = (with_error_step reason (uuids E n) (Utc (clock E t)) r)
     \<lparr>run_status := RunFailed, run_failure_reason := Some reason,
      run_finished_at := Some (Utc (clock E (t + 1)))\<rparr>"

lemma runs_get_found:
  assumes "reliable E" and "idmap w = empty_db" and "stored_run E i (view w) = Inr (Some r)"
    and "run_id r = i"
  shows "\<exists>w1. runs_get E i w = (Inr (Some r), w1) \<and> view w1 = view w \<and>
    find (\<lambda>x. ar_id x = i) (tbl_runs (idmap w1)) = find (\<lambda>x. ar_id x = i) (tbl_runs (view w))"
proof -
  from assms(3) obtain row where row: "find (\<lambda>x. ar_id x = i) (tbl_runs (view w)) = Some row"
    and rows: "run_of_rows E row (steps_of_run i (view w)) = Inr r"
    by (auto simp: stored_run_def sum_bind_Inr_iff split: option.splits)
  from row have "ar_id row = i" by (auto simp: find_Some_iff)
  with row rows show ?thesis
    by (simp add: runs_get_def get_run_row_def session_get_def run_to_domain_def remember_def
        bnd_apply reliable_select [OF assms(1)] assms(2) empty_db_def)
qed

lemma failed_run_storable:
  assumes "store_ready E r n' d" and "run_status r = RunRunning" and "uuids E n \<notin> used_ids d"
  shows "storable (failed_run E r reason n t)" and "run_step r (failed_run E r reason n t)"
    and "fail_run reason (uuids E n) (Utc (clock E t)) (Utc (clock E (t + 1))) r =
      Inr (failed_run E r reason n t)"
proof -
  let ?r = "failed_run E r reason n t"
  have s: "storable r" and st: "stored_run E (run_id r) d = Inr (Some r)"
    using assms(1) by (simp_all add: store_ready_def)
  show f: "fail_run reason (uuids E n) (Utc (clock E t)) (Utc (clock E (t + 1))) r = Inr ?r"
    by (simp add: fail_run_Inr_iff assms(2) failed_run_def)
  then show step: "run_step r ?r" by (rule step_fail)
  have "run_wf ?r" using run_cycle.inv_step [OF _ step] s by (simp add: storable_def)
  moreover have "uuids E n \<notin> step_id ` set (run_steps r)"
    using stored_step_ids [OF st] assms(3) by (auto simp: used_ids_def)
  ultimately show "storable ?r" using s
    by (intro storable_extend [OF s])
      (auto simp: failed_run_def with_error_step_def storable_def run_aware_def run_json_def)
qed

lemma settle_run_body_effect:
  fixes reason :: string
  assumes ready: "store_ready E r n (view w)" and run: "run_status r = RunRunning"
    and "run_id (mem_run w) = run_id r" and "idmap w = empty_db"
    and fresh: "uuids E (uuid_count w) \<notin> used_ids (view w)"
  defines "r' \<equiv> failed_run E r reason (uuid_count w) (clock_count w)"
  shows "\<exists>w'. settle_run_body E reason w = (Inr (), w') \<and>
    stored_run E (run_id r) (view w') = Inr (Some r') \<and>
    tbl_messages (view w') = tbl_messages (view w) \<and> tbl_idem (view w') = tbl_idem (view w)"
proof -
  have E: "reliable E" and be: "backend_ok E" and valid: "valid_db (view w)" and s: "run_wf r"
    and st: "stored_run E (run_id r) (view w) = Inr (Some r)"
    using ready by (simp_all add: store_ready_def storable_def)
  note f = failed_run_storable [OF ready run fresh, of reason "clock_count w", folded r'_def]
  from runs_get_found [OF E assms(4) st refl] obtain w1 where
    get: "runs_get E (run_id r) w = (Inr (Some r), w1)" and v1: "view w1 = view w"
    and cached: "find (\<lambda>x. ar_id x = run_id r) (tbl_runs (idmap w1)) =
      find (\<lambda>x. ar_id x = run_id r) (tbl_runs (view w))" by blast
  note q = quiet_progD [OF quiet_saves(3) get]
  define w2 where "w2 = w1\<lparr>uuid_count := uuid_count w + 1, clock_count := clock_count w + 2\<rparr>"
  have body: "settle_run_body E reason w = runs_save E r' w2"
    using f(3) q run
    by (simp add: settle_run_body_def bnd_apply assms(3) get call_method_def terminal_run_statuses_def
        w2_def Let_def)
  have ext: "extends r r'" using f(2) by (blast intro: run_steps_extend)
  then have rid: "run_id r' = run_id r" by (simp add: extends_def)
  from st obtain row where row: "find (\<lambda>x. ar_id x = run_id r') (tbl_runs (view w2)) = Some row"
    and rows: "run_of_rows E row (steps_of_run (run_id r') (view w2)) = Inr r"
    by (auto simp: stored_run_def sum_bind_Inr_iff w2_def v1 rid split: option.splits)
  have new: "step_id x \<notin> sr_id ` set (tbl_steps (view w2))"
    if "x \<in> set (drop (length (run_steps r)) (run_steps r'))" for x
    using that fresh by (simp add: r'_def failed_run_def with_error_step_def w2_def v1 used_ids_def)
  have valid2: "valid_db (view w2)" using valid by (simp add: w2_def v1)
  have "find (\<lambda>x. ar_id x = run_id r') (tbl_runs (idmap w2)) \<in> {None, Some row}"
    using cached row by (simp add: w2_def v1 rid)
  from runs_save_reliable [OF E valid2 f(1) ext s row rows this new] obtain w' where
    save: "runs_save E r' w2 = (Inr (), w')"
    and v: "view w' = saved_db r' row (length (run_steps r)) (view w2)" by blast
  have "stored_run E (run_id r') (view w') = Inr (Some r')"
    unfolding v by (rule saved_db_stored [OF be f(1) ext s row rows])
  with save v show ?thesis by (simp add: body rid saved_db_def w2_def v1)
qed

lemma settle_failed_run_effect:
  fixes reason :: string
  assumes ready: "store_ready E r n (committed w)" and run: "run_status r = RunRunning"
    and "run_id (mem_run w) = run_id r"
    and "uuids E (uuid_count w) \<notin> used_ids (committed w)"
  defines "r' \<equiv> failed_run E r reason (uuid_count w) (clock_count w)"
  shows "\<exists>w'. settle_failed_run E reason w = (Inr (), w') \<and>
    stored_run E (run_id r) (committed w') = Inr (Some r') \<and>
    tbl_messages (committed w') = tbl_messages (committed w) \<and>
    tbl_idem (committed w') = tbl_idem (committed w)"
proof -
  have E: "reliable E" using ready by (simp add: store_ready_def)
  have o: "view (open_session w) = committed w" "idmap (open_session w) = empty_db"
    "mem_run (open_session w) = mem_run w" "uuid_count (open_session w) = uuid_count w"
    "clock_count (open_session w) = clock_count w" by (simp_all add: open_session_def)
  from settle_run_body_effect [of E r n "open_session w" reason, unfolded o, OF ready run assms(3) refl assms(4)]
  obtain w1 where b: "settle_run_body E reason (open_session w) = (Inr (), w1)"
    and eff: "stored_run E (run_id r) (view w1) = Inr (Some r')"
      "tbl_messages (view w1) = tbl_messages (committed w)" "tbl_idem (view w1) = tbl_idem (committed w)"
    unfolding r'_def by blast
  then show ?thesis
    by (simp add: settle_failed_run_def try_except_def reliable_uow [OF E])
qed

subsection \<open>The settlement of the claim\<close>

lemma idem_settle_exception:
  assumes "reliable E" and "idem_settle E ns key token st result w = (Inl e, w')"
  shows "is_exception e"
  using assms(2)
  by (auto simp: idem_settle_def settle_stmt_def reliable_sql [OF assms(1)] Let_def update_idem_def
      reliable_get_row [OF assms(1)] not_serializable_def integrity_error_def sum.map_id
      scalar_one_or_none_def
      elim!: bnd_InlE split: if_splits option.splits sum.splits prod.splits list.splits)

lemma settle_failed_claim_effect:
  assumes E: "reliable E"
  shows "\<exists>w' rows. settle_failed_claim E cl reason w = (Inr (), w') \<and>
    committed w' = (committed w)\<lparr>tbl_idem := rows\<rparr>"
proof -
  let ?body = "idem_fail E idempotency_namespace (claim_key cl) reason (claim_token cl)"
  have same: "\<exists>rows. d = d\<lparr>tbl_idem := rows\<rparr>" for d by (intro exI [of _ "tbl_idem d"]) simp
  obtain r w1 where b: "?body (open_session w) = (r, w1)" by fastforce
  have v: "view (open_session w) = committed w" by (simp add: open_session_def)
  have loc: "tx_local E ?body" by (intro tx_locals)
  show ?thesis
  proof (cases r)
    case (Inr u)
    from idem_settle_tables [OF E b [unfolded idem_fail_def]] v Inr b show ?thesis
      by (simp add: settle_failed_claim_def try_except_def reliable_uow [OF E])
  next
    case (Inl e)
    let ?x = "translate_database_error ''transaction'' e"
    have "is_exception e" using idem_settle_exception [OF E] b Inl by (simp add: idem_fail_def)
    then have x: "is_exception ?x" by (cases "(''transaction'', e)" rule: translate_database_error.cases)
        simp_all
    have "committed w1 = committed w"
      using tx_localD [OF loc b] by (simp add: others_run_reliable [OF E] open_session_def)
    with b Inl x same show ?thesis
      by (simp add: settle_failed_claim_def try_except_def reliable_uow [OF E] log_event_def)
  qed
qed


subsection \<open>The three ends of a turn\<close>

lemma handle_failure_effect:
  assumes ready: "store_ready E r n (committed w)" and run: "run_status r = RunRunning"
    and "run_id (mem_run w) = run_id r"
    and "uuids E (uuid_count w) \<notin> used_ids (committed w)" and "is_exception e"
  shows "\<exists>w'. handle_failure E claim e w = (Inl (Nexa (normalized_error e)), w') \<and>
    tbl_messages (committed w') = tbl_messages (committed w) \<and>
    (\<exists>r'. stored_run E (run_id r) (committed w') = Inr (Some r') \<and> run_status r' = RunFailed \<and>
       run_failure_reason r' = Some (safe_message (normalized_error e)) \<and>
       prefix (run_steps r) (run_steps r'))"
proof -
  let ?reason = "safe_message (normalized_error e)"
  have E: "reliable E" using ready by (simp add: store_ready_def)
  obtain w0 where w0: "normalize_failure e w = (Inr (normalized_error e), w0)"
    and same: "committed w0 = committed w" "mem_run w0 = mem_run w" "uuid_count w0 = uuid_count w"
    by (cases e) (simp_all add: normalize_failure_def log_event_def bnd_apply)
  from settle_failed_run_effect [of E r n w0 ?reason] ready run assms(3,4) same
  obtain w1 where s: "settle_failed_run E ?reason w0 = (Inr (), w1)"
    and st: "stored_run E (run_id r) (committed w1) =
      Inr (Some (failed_run E r ?reason (uuid_count w0) (clock_count w0)))"
    and msgs: "tbl_messages (committed w1) = tbl_messages (committed w)" by auto
  have "\<exists>w' rows. fail_turn E claim ?reason w0 = (Inr (), w') \<and>
      committed w' = (committed w1)\<lparr>tbl_idem := rows\<rparr>"
  proof (cases claim)
    case None
    then show ?thesis using s
      by (intro exI [of _ w1] exI [of _ "tbl_idem (committed w1)"]) (simp add: fail_turn_def bnd_apply)
  next
    case (Some cl)
    with settle_failed_claim_effect [OF E, of cl ?reason w1] s show ?thesis
      by (simp add: fail_turn_def bnd_apply)
  qed
  then obtain w' rows where f: "fail_turn E claim ?reason w0 = (Inr (), w')"
    and w': "committed w' = (committed w1)\<lparr>tbl_idem := rows\<rparr>" by blast
  have "stored_run E (run_id r) (committed w') = stored_run E (run_id r) (committed w1)"
    by (rule stored_run_frame) (simp_all add: w')
  with st msgs f w0 w' assms(5) show ?thesis
    by (simp add: handle_failure_def bnd_apply failed_run_def with_error_step_def)
qed

lemma answer_turn_raises:
  assumes "reliable E" and "answer_turn E prompt cmd c claim w = (Inl e, w')"
  shows "same_store w w'"
proof -
  from assms(2) consider "w' = w" | req where "call_model E req w = (Inl e, w')"
    | req resp w1 where "call_model E req w = (Inr resp, w1)" "w' = w1"
    | req resp content w1 where "call_model E req w = (Inr resp, w1)"
        "finish_turn E c resp content claim w1 = (Inl e, w')"
    by (fastforce simp: answer_turn_def elim!: bnd_InlE)
  then show ?thesis
  proof cases
    case 4
    with call_model_frame [OF 4(1)] finish_turn_raises [OF assms(1) 4(2)] show ?thesis
      by (simp add: same_store_def)
  qed (auto simp: same_store_def dest!: call_model_frame)
qed

lemma answer_turn_returns:
  assumes "answer_turn E prompt cmd c claim w = (Inr res, w')"
  shows "\<exists>req resp content w1. call_model E req w = (Inr resp, w1) \<and>
    validate_response resp = Inr content \<and> finish_turn E c resp content claim w1 = (Inr res, w')"
  using assms by (fastforce simp: answer_turn_def elim!: bnd_InrE)


subsection \<open>Every started turn is settled\<close>

lemma started_store_ready:
  assumes ready: "turn_ready E cmd n t d" and "turn_started E cmd body n t r d d'"
  shows "store_ready E r (n + 4) d'"
proof -
  note s = turn_started_stored [OF assms(2,1)]
  have f: "fresh_ids E n 8 d" and rest: "reliable E" "backend_ok E"
    using ready by (simp_all add: turn_ready_def)
  have st: "storable r" "valid_db d'" using assms(2) by (simp_all add: turn_started_def)
  have "inj_on (uuids E) {n + 4..<n + 4 + 4}"
    using f by (auto simp: fresh_ids_def intro: inj_on_subset)
  moreover have "uuids E i \<notin> used_ids d'" if "i \<in> {n + 4..<n + 4 + 4}" for i
  proof -
    have "uuids E i \<notin> used_ids d" using f that by (simp add: fresh_ids_def)
    moreover have "uuids E i \<notin> uuids E ` {n..<n + 4}"
      using f that by (auto simp: fresh_ids_def dest: inj_onD)
    ultimately show ?thesis using s(7) by blast
  qed
  ultimately show ?thesis
    using rest st s(1) by (simp add: store_ready_def fresh_ids_def)
qed

definition answer_stored ::
  "env \<Rightarrow> turn_command \<Rightarrow> message list \<Rightarrow> claim option \<Rightarrow> turn_result \<Rightarrow> agent_run \<Rightarrow> db \<Rightarrow> bool" where
  \<comment> \<open>the turn returned \<open>res\<close>: its run succeeded with that response, the answer is the last
    message of the history, and its claim, if any, is completed with the result\<close>
  "answer_stored E cmd history claim res run d \<longleftrightarrow>
     run_status run = RunSucceeded \<and> run_final_response run = Some (res_response res) \<and>
     res_run_id res = run_id run \<and> res_status res = RunSucceeded \<and>
     res_conversation_id res = cmd_conversation_id cmd \<and>
     (\<exists>m. msg_role m = RoleAssistant \<and> msg_content m = res_response res \<and> msg_id m = res_message_id res \<and>
        stored_history E (cmd_conversation_id cmd) d = Inr (history @ [m])) \<and>
     (\<forall>cl. claim = Some cl \<longrightarrow> (\<exists>row \<in> set (tbl_idem d).
        at_key idempotency_namespace (claim_key cl) row \<and> ir_state row = ''completed'' \<and>
        ir_result row = result_to_stored res \<and> ir_claim_token row = claim_token cl))"

definition failure_stored ::
  "env \<Rightarrow> turn_command \<Rightarrow> message list \<Rightarrow> exn \<Rightarrow> agent_run \<Rightarrow> db \<Rightarrow> bool" where
  \<comment> \<open>the turn raised \<open>e\<close>: its run failed with the error's message and the history ends with the
    user's message; after a cancellation the run is still running\<close>
  "failure_stored E cmd history e run d \<longleftrightarrow>
     stored_history E (cmd_conversation_id cmd) d = Inr history \<and>
     (if is_exception e
      then \<exists>err. e = Nexa err \<and> run_status run = RunFailed \<and>
             run_failure_reason run = Some (safe_message err)
      else run_status run = RunRunning)"

lemma stored_history_frame:
  "tbl_messages d' = tbl_messages d \<Longrightarrow> stored_history E i d' = stored_history E i d"
  by (simp add: stored_history_def conversation_rows_def)

lemma answered_turn:
  assumes ready: "store_ready E (mem_run w) (uuid_count w) (committed w)"
    and conv: "conv_id c = cmd_conversation_id cmd"
    and hist: "stored_history E (cmd_conversation_id cmd) (committed w) = Inr history"
    and past: "\<And>x. x \<in> set (conversation_rows (cmd_conversation_id cmd) (committed w)) \<Longrightarrow>
      mr_created_at x < Utc (clock E (clock_count w))"
    and mono: "\<And>i j. i < j \<Longrightarrow> clock E i < clock E j"
    and a: "answer_turn E prompt cmd c claim w = (Inr res, w')"
  shows "\<exists>run. stored_run E (run_id (mem_run w)) (committed w') = Inr (Some run) \<and>
    answer_stored E cmd history claim res run (committed w')"
proof -
  from answer_turn_returns [OF a] obtain req resp content w1 where
    call: "call_model E req w = (Inr resp, w1)"
    and fin: "finish_turn E c resp content claim w1 = (Inr res, w')" by blast
  note fr = call_model_frame [OF call]
  let ?m = "assistant_message E c resp content (uuid_count w1) (clock_count w1)"
  let ?r = "answered_run E (mem_run w1) resp content (uuid_count w1 + 1) (clock_count w1 + 2)"
  have ready1: "store_ready E (mem_run w1) (uuid_count w1) (committed w1)" using ready fr by simp
  from finish_turn_effect [OF ready1 fin] obtain d2 where
    ins: "insert_message (fk_on E) (message_row_of ?m) (committed w1) = Inr ((), d2)"
    and msgs: "tbl_messages (committed w') = tbl_messages d2"
    and st: "stored_run E (run_id (mem_run w1)) (committed w') = Inr (Some ?r)" and nb: "\<not> blank content"
    and res: "res = \<lparr>res_run_id = run_id (mem_run w1), res_conversation_id = conv_id c,
      res_message_id = uuids E (uuid_count w1), res_response = content, res_status = RunSucceeded,
      res_usage = usage_dict (resp_usage resp)\<rparr>"
    and cl: "\<forall>cl. claim = Some cl \<longrightarrow> (\<exists>row \<in> set (tbl_idem (committed w')).
       at_key idempotency_namespace (claim_key cl) row \<and> ir_state row = ''completed'' \<and>
       ir_result row = result_to_stored res \<and> ir_claim_token row = claim_token cl)"
    by blast
  have m: "msg_conversation_id ?m = cmd_conversation_id cmd" "msg_content ?m = content"
    "msg_created_at ?m = Utc (clock E (clock_count w1))" "msg_role ?m = RoleAssistant"
    "msg_id ?m = uuids E (uuid_count w1)"
    by (simp_all add: assistant_message_def conv)
  have "clock E (clock_count w) \<le> clock E (clock_count w1)"
    using mono [of "clock_count w" "clock_count w1"] fr by (cases "clock_count w = clock_count w1") auto
  then have "Utc (clock E (clock_count w)) \<le> Utc (clock E (clock_count w1))" by simp
  with past have "mr_created_at x < msg_created_at ?m"
    if "x \<in> set (conversation_rows (cmd_conversation_id cmd) (committed w1))" for x
    using that fr m(3) by (metis order_less_le_trans)
  then have "stored_history E (msg_conversation_id ?m) d2 = Inr (history @ [?m])"
    using ready nb hist fr m
    by (intro insert_message_history [OF ins])
      (auto simp: store_ready_def message_sort_key_def less_eq_prod_def)
  then have "stored_history E (cmd_conversation_id cmd) (committed w') = Inr (history @ [?m])"
    using stored_history_frame [OF msgs] m by simp
  with st res cl m fr conv show ?thesis
    by (intro exI [of _ ?r]) (simp add: answer_stored_def answered_run_def)
qed


lemma failed_turn:
  assumes ready: "store_ready E r n (committed w)" and run: "run_status r = RunRunning"
    and same: "same_store w w0" and w: "mem_run w = r" "uuid_count w = n"
    and hist: "stored_history E (cmd_conversation_id cmd) (committed w) = Inr history"
    and h: "handle_failure E claim e w0 = (r', w')"
  shows "\<exists>e' run. r' = Inl e' \<and> stored_run E (run_id r) (committed w') = Inr (Some run) \<and>
    failure_stored E cmd history e' run (committed w')"
proof (cases "is_exception e")
  case False
  with h have "r' = Inl e" "w' = w0" by (simp_all add: handle_failure_def)
  with False ready run same w hist show ?thesis
    by (intro exI [of _ e] exI [of _ r]) (simp add: same_store_def store_ready_def failure_stored_def)
next
  case True
  have c: "committed w0 = committed w" using same by (simp add: same_store_def)
  have k: "uuid_count w0 \<in> {n..<n + 4}" and rid: "run_id (mem_run w0) = run_id r"
    using same w by (auto simp: same_store_def)
  have "uuids E (uuid_count w0) \<notin> used_ids (committed w0)"
    using ready k by (simp add: store_ready_def fresh_ids_def c)
  from handle_failure_effect [OF _ run rid this True, of n claim] ready h c obtain run where
    "r' = Inl (Nexa (normalized_error e))" "tbl_messages (committed w') = tbl_messages (committed w)"
    "stored_run E (run_id r) (committed w') = Inr (Some run)" "run_status run = RunFailed"
    "run_failure_reason run = Some (safe_message (normalized_error e))"
    by auto
  with hist stored_history_frame [of "committed w'" "committed w" E] show ?thesis
    by (intro exI [of _ "Nexa (normalized_error e)"] exI [of _ run]) (simp add: failure_stored_def)
qed


lemma quiet_id:
  assumes "i < 1000"
  shows "unat (uuids quiet_env i) = 100 + i"
proof -
  have "unat (word_of_nat n :: uuid) = n" if "n < 2000" for n
    using that by (simp add: unsigned_of_nat take_bit_nat_eq_self)
  moreover have "uuids quiet_env i = word_of_nat (100 + i)" by (simp add: quiet_env_def)
  moreover have "100 + i < 2000" using assms by simp
  ultimately show ?thesis by (simp only:)
qed

lemma quiet_id_eq:
  "i < 1000 \<Longrightarrow> j < 1000 \<Longrightarrow> uuids quiet_env i = uuids quiet_env j \<longleftrightarrow> i = j"
  by (metis quiet_id add_left_cancel)

lemma sample_ready: "turn_ready quiet_env sample_command 0 0 sample_db"
proof -
  have "inj_on (uuids quiet_env) {0..<0 + 8}"
    by (intro inj_onI) (simp add: quiet_id_eq)
  moreover have "uuids quiet_env i \<noteq> 20" if "i < 8" for i
  proof -
    have "unat (uuids quiet_env i) = 100 + i" using that by (intro quiet_id) simp
    then show ?thesis by auto
  qed
  moreover have "used_ids sample_db = {20}"
    by (simp add: used_ids_def sample_db_def empty_db_def)
  ultimately have "fresh_ids quiet_env 0 8 sample_db" by (auto simp: fresh_ids_def)
  moreover have "clock_ahead quiet_env 0 7 sample_db"
    by (simp add: clock_ahead_def conversation_rows_def sample_db_def empty_db_def quiet_env_def)
  moreover have "limits_positive default_limits" by (simp add: default_limits_def limits_positive_def)
  ultimately show ?thesis
    by (simp add: turn_ready_def quiet_reliable quiet_backend sample_valid)
qed


end
