(* ===== verification/Turn_Properties.thy ===== *)
theory Turn_Properties
  imports Turn_Outcome
begin

section \<open>Properties of a turn\<close>

text \<open>
  What the use case promises, stated over \<open>execute\<close> and its units of work, each with a
  concrete application to the world of \<open>Sample_World\<close>.
\<close>

subsection \<open>In any environment\<close>

lemma result_stored_back: "result_from_stored (result_to_stored res) = Inr res"
proof -
  have "enum_call run_statuses run_status_value (run_status_value s) = Inr s" for s
    by (simp add: enum_call_def run_status_enum.find_value)
  then show ?thesis
    by (simp add: result_from_stored_def result_to_stored_def stored_uuid_def stored_text_def uuid_parse_str)
qed

lemma validate_input_Inr:
  "validate_input cmd = Inr body \<longleftrightarrow>
     body = strip (cmd_text cmd) \<and> body \<noteq> [] \<and> int (length body) \<le> max_input_characters \<and>
     0 < cmd_context_window cmd \<and> cmd_context_window cmd \<le> max_message_window \<and>
     estimate_tokens body \<le> max_context_tokens (cmd_limits cmd)"
  by (auto simp: validate_input_def Let_def)

lemma validate_input_error:
  "validate_input cmd = Inl e \<Longrightarrow> \<exists>x. e = Nexa x \<and> category x = CatValidation"
  by (auto simp: validate_input_def Let_def ValidationError_def split: if_splits)

text \<open>Input that is blank, longer than 32,000 characters, over the token budget or asked for
  with a window outside 1 to 500 is refused with a validation error before anything is read,
  written or sent; every other input goes on with the stripped text.\<close>

lemma invalid_input_has_no_effect:
  "if strip (cmd_text cmd) \<noteq> [] \<and> int (length (strip (cmd_text cmd))) \<le> 32000 \<and>
      0 < cmd_context_window cmd \<and> cmd_context_window cmd \<le> 500 \<and>
      estimate_tokens (strip (cmd_text cmd)) \<le> max_context_tokens (cmd_limits cmd)
   then validate_input cmd = Inr (strip (cmd_text cmd))
   else \<exists>x. category x = CatValidation \<and> execute E prompt cmd w = (Inl (Nexa x), w)"
proof (cases "validate_input cmd")
  case (Inr body)
  then have "validate_input cmd = Inr (strip (cmd_text cmd))" by (metis validate_input_Inr)
  then show ?thesis
    using validate_input_Inr [of cmd "strip (cmd_text cmd)"]
    by (simp add: max_input_characters_def max_message_window_def)
next
  case (Inl e)
  from validate_input_error [OF Inl] obtain x where "e = Nexa x" "category x = CatValidation" by blast
  moreover have "\<not> (strip (cmd_text cmd) \<noteq> [] \<and> int (length (strip (cmd_text cmd))) \<le> 32000 \<and>
      0 < cmd_context_window cmd \<and> cmd_context_window cmd \<le> 500 \<and>
      estimate_tokens (strip (cmd_text cmd)) \<le> max_context_tokens (cmd_limits cmd))"
    using Inl validate_input_Inr [of cmd "strip (cmd_text cmd)"]
    by (auto simp: max_input_characters_def max_message_window_def)
  ultimately show ?thesis using Inl by (auto simp: execute_def)
qed

lemma execute_calls:
  assumes "execute E prompt cmd w = (r, w')" and "\<not> tx_open w"
  shows "\<exists>new. llm_calls w' = llm_calls w @ new \<and>
    (\<forall>(req, b) \<in> set new. good_request prompt cmd (strip (cmd_text cmd)) req)"
proof (cases "validate_input cmd")
  case (Inl e)
  with assms(1) show ?thesis by (auto simp: execute_def)
next
  case (Inr body)
  let ?check = "case cmd_idempotency_key cmd of None \<Rightarrow> ret (None, None) | Some key \<Rightarrow> check_idempotency E key"
  have body: "body = strip (cmd_text cmd)" using Inr by (simp add: validate_input_Inr)
  obtain r1 w1 where c: "?check w = (r1, w1)" by fastforce
  have "calls_at_most 0 ?check" by (intro call_bounds calls_check)
  from calls_noneD [OF this assms(2) c] have w1: "llm_calls w1 = llm_calls w" "\<not> tx_open w1" by simp_all
  consider e where "r1 = Inl e" | res claim where "r1 = Inr (Some res, claim)" | claim where "r1 = Inr (None, claim)"
    by (cases r1) (auto, metis option.exhaust)
  then show ?thesis
  proof cases
    case 3
    then have "execute_claimed E prompt cmd body claim w1 = (r, w')"
      using assms(1) Inr c by (simp add: execute_def bnd_apply)
    from execute_claimed_calls [OF this w1(2)] w1(1) body show ?thesis by simp
  qed (use assms(1) Inr c w1 in \<open>simp_all add: execute_def bnd_apply\<close>)
qed

text \<open>C10: whatever fails around it, a turn calls the provider at most once, never while a
  transaction is open, and only with a request that stays within the run's token budget, opens
  with the system prompt and ends with the user's stripped text.\<close>

theorem provider_called_once_outside_transactions:
  assumes "execute E prompt cmd w = (r, w')" and "\<not> tx_open w"
  shows "\<exists>new. llm_calls w' = llm_calls w @ new \<and> length new \<le> 1 \<and>
    (\<forall>(req, in_tx) \<in> set new. \<not> in_tx \<and> good_request prompt cmd (strip (cmd_text cmd)) req)"
proof -
  from calls_execute [of E prompt cmd] assms obtain new where
    "llm_calls w' = llm_calls w @ new" "length new \<le> 1" "\<forall>(req, in_tx) \<in> set new. \<not> in_tx"
    unfolding calls_at_most_def by (metis snd_conv)
  moreover from execute_calls [OF assms] obtain new' where "llm_calls w' = llm_calls w @ new'"
    "\<forall>(req, b) \<in> set new'. good_request prompt cmd (strip (cmd_text cmd)) req" by blast
  ultimately show ?thesis by auto
qed

theorem provider_called_once_outside_transactions_witness:
  "length (llm_calls (snd (execute quiet_env default_system_prompt sample_command
     (turn_world_of sample_db)))) \<le> 1"
proof -
  obtain r w' where x: "execute quiet_env default_system_prompt sample_command
    (turn_world_of sample_db) = (r, w')" by fastforce
  from provider_called_once_outside_transactions [OF x] show ?thesis
    by (auto simp: x)
qed




subsection \<open>Units of work\<close>

text \<open>C8: a unit of work is atomic whatever fails: if its body raises, the committed database is
  changed by the other workers only; if its body returns, either all of the view it built is
  committed or nothing of it, and all of it whenever the unit of work returns. It ends with no
  transaction open, and the error it raises is never SQLAlchemy's own.\<close>

theorem unit_of_work_is_atomic:
  assumes "tx_local E body" and "body (open_session w) = (rb, w1)" and "uow E body w = (r, w')"
  defines "nothing \<equiv> committed w' = others_run E (sql_count w) (sql_count w') (committed w)"
    and "everything \<equiv> committed w' = others E (sql_count w1) (view w1)"
  shows "(case rb of Inl e \<Rightarrow> nothing \<and> (\<exists>x. r = Inl x)
      | Inr a \<Rightarrow> everything \<and> r = Inr a \<or> (everything \<or> nothing) \<and> (\<exists>x. r = Inl x)) \<and>
    \<not> tx_open w' \<and> (\<forall>x. r = Inl x \<longrightarrow> \<not> is_sqlalchemy_error x)"
proof -
  have ns: "\<forall>x. r = Inl x \<longrightarrow> \<not> is_sqlalchemy_error x" using uow_not_sql assms(3) by blast
  show ?thesis
  proof (cases rb)
    case (Inl e)
    from uow_body_raises [OF assms(1) assms(2) [unfolded Inl] assms(3)] ns show ?thesis
      by (simp add: Inl nothing_def)
  next
    case (Inr a)
    from uow_body_returns [OF assms(1) assms(2) [unfolded Inr] assms(3)] ns show ?thesis
      by (auto simp: Inr nothing_def everything_def split: if_splits)
  qed
qed

theorem unit_of_work_is_atomic_witness:
  "\<not> tx_open (snd (uow quiet_env (start_turn_body quiet_env sample_command []) (turn_world_of sample_db)))"
proof -
  obtain rb w1 where b: "start_turn_body quiet_env sample_command [] (open_session (turn_world_of sample_db)) = (rb, w1)"
    by fastforce
  obtain r w' where u: "uow quiet_env (start_turn_body quiet_env sample_command []) (turn_world_of sample_db) = (r, w')"
    by fastforce
  from unit_of_work_is_atomic [OF tx_local_start b u] show ?thesis by (simp add: u)
qed

subsection \<open>The stored result\<close>

text \<open>The result stored with a completed claim reads back as the result it was made from.\<close>

lemma stored_result_round_trip: "result_from_stored (result_to_stored res) = Inr res"
  by (rule result_stored_back)

subsection \<open>Where an answer comes from\<close>

lemma uow_mem_run:
  assumes "uow E body w = (Inr a, w')"
  shows "\<exists>w1. body (open_session w) = (Inr a, w1) \<and> mem_run w' = mem_run w1"
proof -
  have "mem_run w2 = mem_run w1" if "uow_exit E None w1 = (Inr u, w2)" for w1 w2 u
    using that by (auto simp: uow_exit_def bnd_def try_finally_def translate_database_errors_def
        try_except_def commit_session_def close_session_def Let_def split: option.splits)
  with assms show ?thesis
    by (fastforce simp: uow_def bnd_def split: prod.splits sum.splits)
qed

lemma call_model_Inr:
  assumes "call_model E req w = (Inr resp, w')"
  shows "llm_calls w' = llm_calls w @ [(req, tx_open w)] \<and> fst (llm E (length (llm_calls w)) req) = Inr resp"
proof (cases "remaining_microseconds E w")
  case (Pair r0 w0)
  have "tx_local E (remaining_microseconds E)"
    unfolding remaining_microseconds_def Let_def by (intro tx_locals)
  from tx_localD [OF this Pair] have w0: "llm_calls w0 = llm_calls w" "tx_open w0 = tx_open w"
    by simp_all
  show ?thesis
    using assms Pair w0
    by (cases r0) (auto simp: call_model_def bnd_def try_except_def provider_complete_def Let_def
        split: if_splits prod.splits sum.splits)
qed

lemma start_turn_run:
  assumes "start_turn E cmd body w = (Inr c, w')"
  shows "run_limits (mem_run w') = cmd_limits cmd \<and> length (run_steps (mem_run w')) = 2 \<and>
    run_status (mem_run w') = RunRunning"
proof -
  from uow_mem_run [OF assms [unfolded start_turn_def]] obtain w1 where
    b: "start_turn_body E cmd body (open_session w) = (Inr c, w1)" and m: "mem_run w' = mem_run w1" by blast
  from b obtain u cid w0 where r: "create_run E cmd u cid w0 = (Inr (), w1)"
    by (auto simp: start_turn_body_def elim!: bnd_InrE split: prod.splits)
  from create_run_Inr [OF r] obtain n k where
    "runs_add E (started_run E cmd u cid (uuid_count w0) (clock_count w0)) (w0\<lparr>uuid_count := n, clock_count := k,
      mem_run := started_run E cmd u cid (uuid_count w0) (clock_count w0)\<rparr>) = (Inr (), w1)" by blast
  from quiet_progD [OF quiet_repos(4) this] m show ?thesis by simp
qed

lemma finish_turn_budget:
  assumes "finish_turn E c resp content claim w = (Inr res, w')"
  shows "int (length (run_steps (mem_run w))) < max_steps (run_limits (mem_run w)) \<and> res_response res = content"
  using assms
  by (auto simp: finish_turn_def Let_def run_method_Inr method_Inr record_step_Inr_iff finish_run_Inr_iff
      ensure_step_budget_iff terminal_step_types_def elim!: bnd_InrE split: prod.splits)

text \<open>C11: in any environment, a turn without a claim that returns made exactly one provider call,
  outside a transaction; its response is that call's content, stripped and not blank, with no
  tool call requested; and its step limit was at least three, because planning, the model call
  and the validation each take one.\<close>

theorem answer_comes_from_the_provider:
  assumes "execute_claimed E prompt cmd body claim w = (Inr res, w')" and "\<not> tx_open w"
  shows "\<exists>req resp. llm_calls w' = llm_calls w @ [(req, False)] \<and>
    fst (llm E (length (llm_calls w)) req) = Inr resp \<and> resp_tool_calls resp = [] \<and>
    res_response res = strip (case resp_content resp of None \<Rightarrow> [] | Some x \<Rightarrow> x) \<and>
    res_response res \<noteq> [] \<and> 3 \<le> max_steps (cmd_limits cmd)"
proof -
  from assms(1) obtain c w1 where s: "start_turn E cmd body w = (Inr c, w1)"
    and t: "try_except (answer_turn E prompt cmd c claim) (handle_failure E claim) w1 = (Inr res, w')"
    by (auto simp: execute_claimed_def elim!: bnd_InrE)
  have "handle_failure E claim e v \<noteq> (Inr x, v')" for e v x v'
    by (auto simp: handle_failure_def bnd_def split: prod.splits sum.splits)
  with t have a: "answer_turn E prompt cmd c claim w1 = (Inr res, w')"
    by (auto simp: try_except_def split: prod.splits sum.splits)
  from answer_turn_returns [OF a] obtain req resp content w2 where
    call: "call_model E req w1 = (Inr resp, w2)" and v: "validate_response resp = Inr content"
    and fin: "finish_turn E c resp content claim w2 = (Inr res, w')" by blast
  from calls_noneD [OF calls_units(5) assms(2) s] have w1: "llm_calls w1 = llm_calls w" "\<not> tx_open w1" by simp_all
  note m = call_model_Inr [OF call] and fr = call_model_frame [OF call]
  from calls_noneD [OF calls_finish _ fin] fr w1 have "llm_calls w' = llm_calls w2" by simp
  with m w1 v finish_turn_budget [OF fin] start_turn_run [OF s] fr show ?thesis
    by (intro exI [of _ req] exI [of _ resp]) (auto simp: validate_response_def Let_def split: if_splits)
qed


theorem answer_comes_from_the_provider_witness:
  "\<exists>req. llm_calls (snd (execute_claimed quiet_env default_system_prompt sample_command sample_text None
     (turn_world_of sample_db))) = [(req, False)] \<and> 3 \<le> max_steps (cmd_limits sample_command)"
proof -
  obtain r w' where p: "execute_claimed quiet_env default_system_prompt sample_command sample_text None
      (turn_world_of sample_db) = (r, w')" by fastforce
  with sample_answers obtain res where "r = Inr res" by (cases r) auto
  with p have x: "execute_claimed quiet_env default_system_prompt sample_command sample_text None
      (turn_world_of sample_db) = (Inr res, w')" by simp
  from answer_comes_from_the_provider [OF x] show ?thesis by (auto simp: x)
qed

end
