(* ===== verification/Turn_Access.thy ===== *)
theory Turn_Access
  imports Turn_Properties
begin

section \<open>Idempotency keys, ownership and the exits left open\<close>

text \<open>
  What an idempotency key guarantees to a caller of \<open>execute\<close>, who may run a turn, and three
  concrete runs that show where the use case leaves something behind.
\<close>

subsection \<open>The idempotency gate\<close>

lemma idle_open: "view (open_session w) = committed w"
  by (simp add: open_session_def)

lemma check_existing:
  assumes E: "reliable E" and "valid_db (committed w)" and "row \<in> set (tbl_idem (committed w))"
    and "at_key idempotency_namespace key row" and "ir_state row = idem_state_value st" and "st \<noteq> IdemStarted"
  shows "\<exists>w'. uow E (idem_start E idempotency_namespace key default_claim_ttl_seconds) w =
      (Inr \<lparr>rec_namespace = ir_namespace row, rec_key = ir_key row, rec_state = st,
        rec_result = ir_result row, rec_owned = False, rec_claim_token = None\<rparr>, w') \<and>
    committed w' = committed w \<and> llm_calls w' = llm_calls w"
proof -
  have "filter (at_key idempotency_namespace key) (tbl_idem (view (open_session w))) = [row]"
    using idem_row_only(4) [OF assms(2,3)] assms(4) by (simp add: idle_open at_key_def)
  from idem_start_existing [OF E this]
  show ?thesis
    by (simp add: reliable_uow [OF E] claim_existing_settled [OF assms(5,6)]) (simp add: open_session_def)
qed

lemma check_completed:
  assumes "reliable E" and "valid_db (committed w)" and "row \<in> set (tbl_idem (committed w))"
    and "at_key idempotency_namespace key row" and "ir_state row = ''completed''"
    and "result_from_stored (ir_result row) = Inr res"
  shows "\<exists>w'. check_idempotency E key w = (Inr (Some res, None), w') \<and>
    committed w' = committed w \<and> llm_calls w' = llm_calls w"
proof -
  from check_existing [OF assms(1-4), of IdemCompleted] assms(5) obtain w' where
    "uow E (idem_start E idempotency_namespace key default_claim_ttl_seconds) w =
      (Inr \<lparr>rec_namespace = ir_namespace row, rec_key = ir_key row, rec_state = IdemCompleted,
        rec_result = ir_result row, rec_owned = False, rec_claim_token = None\<rparr>, w')"
    "committed w' = committed w" "llm_calls w' = llm_calls w" by auto
  then show ?thesis using assms(6) by (simp add: check_idempotency_def bnd_apply)
qed

text \<open>A claim that is completed when \<open>start\<close> returns was completed in the table before it.\<close>

lemma reclaim_started:
  assumes E: "reliable E" and valid: "valid_db (view w)" and row: "row \<in> set (tbl_idem (view w))"
    and "reclaim_if_expired E row ttl w = (Inr (token, row'), w')" and "ir_state row = started"
  shows "ir_state row' = started"
proof -
  have upd: "ir_state r = started"
    if "find (\<lambda>r. ir_id r = ir_id row) (update_where p (\<lambda>r. r\<lparr>ir_claimed_at := t, ir_claim_token := k\<rparr>)
      (tbl_idem (view w))) = Some r" for p t k r
  proof -
    let ?f = "\<lambda>r. r\<lparr>ir_claimed_at := t, ir_claim_token := k\<rparr>"
    from that have "r \<in> set (update_where p ?f (tbl_idem (view w)))" and id: "ir_id r = ir_id row"
      by (auto simp: find_Some_iff)
    then obtain x where x: "x \<in> set (tbl_idem (view w))" "r = (if p x then ?f x else x)"
      by (auto simp: update_where_def)
    with id have "x = row" using idem_row_only(1) [OF valid row x(1)] by (simp split: if_splits)
    with x assms(5) show ?thesis by simp
  qed
  show ?thesis
    using assms(4,5) upd
    by (auto simp: reclaim_if_expired_def reclaim_stmt_def bnd_def utc_now_def uuid4_def
        reliable_sql [OF E] reliable_select [OF E] update_idem_def Let_def
        split: prod.splits sum.splits if_splits option.splits)
qed

lemma claim_existing_completed:
  assumes "reliable E" and "valid_db (view w)" and "row \<in> set (tbl_idem (view w))"
    and "claim_existing E row ttl w = (Inr rec, w')" and "rec_state rec = IdemCompleted"
  shows "ir_state row = ''completed'' \<and> w' = w \<and> rec_result rec = ir_result row"
proof (cases "ir_state row = started")
  case True
  from assms(4) obtain token row' w1 st where
    r: "reclaim_if_expired E row ttl w = (Inr (token, row'), w1)"
    and st: "enum_call idem_states idem_state_value (ir_state row') = Inr st" and rec: "rec_state rec = st"
    using True by (auto simp: claim_existing_def elim!: bnd_InrE split: prod.splits)
  have "st = IdemStarted"
    using st reclaim_started [OF assms(1-3) r True] idem_state_enum.find_value [of IdemStarted]
    by (simp add: enum_call_def)
  with rec assms(5) show ?thesis by simp
next
  case False
  then show ?thesis
    using assms(4,5) idem_state_enum.value_find [of "ir_state row" IdemCompleted]
    by (auto simp: claim_existing_def enum_call_def elim!: bnd_InrE split: option.splits prod.splits)
qed

lemma idem_start_completed:
  assumes E: "reliable E" and valid: "valid_db (view w)"
    and s: "idem_start E ns key ttl w = (Inr rec, w')" and "rec_state rec = IdemCompleted"
  shows "\<exists>row \<in> set (tbl_idem (view w)). at_key ns key row \<and> ir_state row = ''completed'' \<and>
    rec_result rec = ir_result row \<and> view w' = view w"
proof -
  have one: "scalar_one_or_none xs = Inr (Some r) \<Longrightarrow> xs = [r]" for xs and r :: idempotency_row
    by (auto simp: scalar_one_or_none_def split: list.splits)
  show ?thesis
  proof (cases "scalar_one_or_none (filter (at_key ns key) (tbl_idem (view w)))")
    case (Inl e)
    with s show ?thesis by (simp add: idem_start_def bnd_apply reliable_get_row [OF E])
  next
    case (Inr found)
    let ?w1 = "w\<lparr>sql_count := Suc (sql_count w)\<rparr>"
    show ?thesis
    proof (cases found)
      case (Some row)
      from one [OF Inr [unfolded Some]] have "row \<in> set (filter (at_key ns key) (tbl_idem (view w)))"
        by simp
      then have row: "row \<in> set (tbl_idem (view ?w1))" "at_key ns key row" by simp_all
      have "claim_existing E row ttl ?w1 = (Inr rec, w')"
        using s Inr Some by (simp add: idem_start_def bnd_apply reliable_get_row [OF E])
      from claim_existing_completed [OF E _ row(1) this assms(4)] valid row show ?thesis by auto
    next
      case None
      then have "filter (at_key ns key) (tbl_idem (view w)) = []"
        using Inr by (auto simp: scalar_one_or_none_def split: list.splits)
      with s assms(4) show ?thesis
        by (auto simp: idem_start_def bnd_apply reliable_get_row [OF E] uuid4_def try_except_def utc_now_def
            bnd_def reliable_sql [OF E] insert_idem_def guarded_def Let_def
            split: if_splits prod.splits sum.splits)
    qed
  qed
qed

lemma check_cached:
  assumes E: "reliable E" and valid: "valid_db (committed w)"
    and c: "check_idempotency E key w = (Inr (Some res, cl), w')"
  shows "\<exists>row \<in> set (tbl_idem (committed w')). at_key idempotency_namespace key row \<and>
    ir_state row = ''completed'' \<and> result_from_stored (ir_result row) = Inr res"
proof -
  from c obtain rec w1 where
    u: "uow E (idem_start E idempotency_namespace key default_claim_ttl_seconds) w = (Inr rec, w')"
    and st: "rec_state rec = IdemCompleted" "result_from_stored (rec_result rec) = Inr res"
    by (auto simp: check_idempotency_def elim!: bnd_InrE split: if_splits option.splits)
  from uow_reliable_Inr [OF E u] obtain w2 where
    s: "idem_start E idempotency_namespace key default_claim_ttl_seconds (open_session w) = (Inr rec, w2)"
    and w': "committed w' = view w2" by auto
  from idem_start_completed [OF E _ s st(1)] valid st w' show ?thesis by (auto simp: idle_open)
qed


lemma persist_completes:
  assumes E: "reliable E" and "persist_outcome E m res (Some cl) w = (Inr (), w')"
  shows "\<exists>row \<in> set (tbl_idem (view w')). at_key idempotency_namespace (claim_key cl) row \<and>
    ir_state row = ''completed'' \<and> ir_result row = result_to_stored res \<and> ir_claim_token row = claim_token cl"
proof -
  from assms(2) obtain w1 where
    "idem_complete E idempotency_namespace (claim_key cl) (result_to_stored res) (claim_token cl) w1 = (Inr (), w')"
    by (auto simp: persist_outcome_def elim!: bnd_InrE)
  from idem_completed_row [OF E this] show ?thesis by blast
qed

lemma finish_turn_completes:
  assumes E: "reliable E" and "finish_turn E c resp content (Some cl) w = (Inr res, w')"
  shows "\<exists>row \<in> set (tbl_idem (committed w')). at_key idempotency_namespace (claim_key cl) row \<and>
    ir_state row = ''completed'' \<and> ir_result row = result_to_stored res"
proof -
  from finish_turn_Inr [OF assms(2)] obtain m w3 where
    "uow E (persist_outcome E m res (Some cl)) w3 = (Inr (), w')" by blast
  from uow_reliable_Inr [OF E this] obtain w4 where
    "persist_outcome E m res (Some cl) (open_session w3) = (Inr (), w4)" "committed w' = view w4" by auto
  from persist_completes [OF E this(1)] this(2) show ?thesis by auto
qed

lemma execute_claimed_Inr:
  assumes "execute_claimed E prompt cmd body claim w = (Inr res, w')"
  shows "\<exists>c resp content w1. finish_turn E c resp content claim w1 = (Inr res, w')"
proof -
  from assms obtain c w1 where
    t: "try_except (answer_turn E prompt cmd c claim) (handle_failure E claim) w1 = (Inr res, w')"
    by (auto simp: execute_claimed_def elim!: bnd_InrE)
  have "handle_failure E claim e v \<noteq> (Inr x, v')" for e v x v'
    by (auto simp: handle_failure_def bnd_def split: prod.splits sum.splits)
  with t have "answer_turn E prompt cmd c claim w1 = (Inr res, w')"
    by (auto simp: try_except_def split: prod.splits sum.splits)
  from answer_turn_returns [OF this] show ?thesis by blast
qed

lemma check_claim_key:
  "check_idempotency E key w = (Inr (None, cl), w') \<Longrightarrow> \<exists>t. cl = Some \<lparr>claim_key = key, claim_token = t\<rparr>"
  by (auto simp: check_idempotency_def elim!: bnd_InrE split: if_splits option.splits)

lemma returned_is_completed:
  assumes E: "reliable E" and valid: "valid_db (committed w)" and key: "cmd_idempotency_key cmd = Some key"
    and x: "execute E prompt cmd w = (Inr res, w')"
  shows "\<exists>row \<in> set (tbl_idem (committed w')). at_key idempotency_namespace key row \<and>
    ir_state row = ''completed'' \<and> result_from_stored (ir_result row) = Inr res"
proof -
  from x key obtain cached cl body w1 where c: "check_idempotency E key w = (Inr (cached, cl), w1)"
    and rest: "(case cached of Some r \<Rightarrow> ret r | None \<Rightarrow> execute_claimed E prompt cmd body cl) w1 = (Inr res, w')"
    by (auto simp: execute_def elim!: bnd_InrE split: prod.splits)
  show ?thesis
  proof (cases cached)
    case (Some r)
    with rest have "w' = w1" "r = res" by simp_all
    with check_cached [OF E valid c [unfolded Some]] show ?thesis by simp
  next
    case None
    from check_claim_key [OF c [unfolded None]] obtain t where
      cl: "cl = Some \<lparr>claim_key = key, claim_token = t\<rparr>" by blast
    from rest None execute_claimed_Inr obtain c' resp content w2 where
      "finish_turn E c' resp content cl w2 = (Inr res, w')" by fastforce
    from finish_turn_completes [OF E this [unfolded cl]] show ?thesis
      using result_stored_back by auto
  qed
qed




lemma for_each_idem:
  assumes "\<And>x w w'. body x w = (Inr (), w') \<Longrightarrow> tbl_idem (view w') = tbl_idem (view w)"
  shows "for_each xs body w = (Inr (), w') \<Longrightarrow> tbl_idem (view w') = tbl_idem (view w)"
proof (induction xs arbitrary: w)
  case (Cons x xs)
  then obtain w1 where "body x w = (Inr (), w1)" "for_each xs body w1 = (Inr (), w')"
    by (auto elim!: bnd_InrE)
  with Cons.IH assms show ?case by metis
qed simp

lemma runs_save_idem:
  assumes E: "reliable E" and s: "runs_save E r w = (Inr (), w')"
  shows "tbl_idem (view w') = tbl_idem (view w)"
proof -
  have step: "tbl_idem (view v') = tbl_idem (view v)"
    if "(if b then append_step E x else ret ()) v = (Inr (), v')" for b x v v'
    using that by (auto simp: append_step_def reliable_sql [OF E] insert_step_def guarded_Inr_iff Let_def
        split: if_splits sum.splits)
  have run: "tbl_idem (view v') = tbl_idem (view v)"
    if "(if b then ret () else sql E (update_run i f j)) v = (Inr (), v')" for b i f j v v'
    using that by (auto simp: reliable_sql [OF E] update_run_def guarded_Inr_iff Let_def
        split: if_splits sum.splits)
  from s obtain row w1 w2 w4 n where
    "get_run_row E (run_id r) w = (Inr (Some row), w1)"
    and u: "(if settled_row r row = row then ret () else sql E (update_run (run_id r)
        (run_update row (settled_row r row)) (ar_usage_metadata (settled_row r row)))) w1 = (Inr (), w2)"
    and m: "sql_select E (highest_index (run_id r)) (w2\<lparr>idmap := tbl_runs_update
        (update_where (\<lambda>x. ar_id x = run_id r) (\<lambda>_. settled_row r row)) (idmap w2)\<rparr>) = (Inr n, w4)"
    and l: "for_each (run_steps r) (\<lambda>step. if n < step_index step then append_step E step else ret ()) w4 =
      (Inr (), w')"
    by (auto simp: runs_save_def Let_def remember_def elim!: bnd_InrE split: option.splits)
  moreover from this(1) have "view w1 = view w"
    using read_onlyD [OF read_only_gets(1) E] unfolding get_run_row_def by blast
  moreover have "view w4 = view w2" using m by (auto simp add: reliable_select [OF E])
  ultimately show ?thesis
    using run [OF u] for_each_idem [OF step l] by simp
qed




text \<open>C20: a key whose claim another attempt still holds, or whose attempt failed, is refused with
  a conflict: no provider is called and the database is not changed.\<close>

theorem busy_or_failed_key_is_refused:
  assumes "reliable E" and "backend_ok E" and "valid_db (committed w)" and "row \<in> set (tbl_idem (committed w))"
    and "at_key idempotency_namespace key row" and "cmd_idempotency_key cmd = Some key"
    and "validate_input cmd = Inr body"
    and "ir_state row = ''failed'' \<or> ir_state row = ''started'' \<and>
      (\<exists>t. ir_claimed_at row = Utc t \<and> clock E (clock_count w) < t + default_claim_ttl_seconds * 1000000)"
  shows "\<exists>x w'. execute E prompt cmd w = (Inl (Nexa x), w') \<and> http_status x = 409 \<and>
    err_code x = (if ir_state row = ''failed'' then ''agent_run_idempotency_failed'' else ''agent_run_in_progress'') \<and>
    committed w' = committed w \<and> llm_calls w' = llm_calls w"
proof (cases "ir_state row = ''failed''")
  case True
  with check_existing [OF assms(1,3,4,5), of IdemFailed] obtain w' where
    "uow E (idem_start E idempotency_namespace key default_claim_ttl_seconds) w =
      (Inr \<lparr>rec_namespace = ir_namespace row, rec_key = ir_key row, rec_state = IdemFailed,
        rec_result = ir_result row, rec_owned = False, rec_claim_token = None\<rparr>, w')"
    "committed w' = committed w" "llm_calls w' = llm_calls w" by auto
  then show ?thesis
    using True assms(6,7) by (simp add: execute_def check_idempotency_def bnd_apply ConflictError_def)
next
  case False
  with assms(8) obtain t where st: "ir_state row = started" and t: "ir_claimed_at row = Utc t"
    "clock E (clock_count w) - t < default_claim_ttl_seconds * 1000000" by (auto simp: started_def)
  let ?w1 = "(open_session w)\<lparr>sql_count := Suc (sql_count (open_session w))\<rparr>"
  have "filter (at_key idempotency_namespace key) (tbl_idem (view (open_session w))) = [row]"
    using idem_row_only(4) [OF assms(3,4)] assms(5) by (simp add: idle_open at_key_def)
  note s = idem_start_existing [OF assms(1) this, of default_claim_ttl_seconds]
  have "clock E (clock_count ?w1) - t < default_claim_ttl_seconds * 1000000"
    using t(2) by (simp add: open_session_def)
  from claim_existing_held [OF assms(2) st t(1) this] obtain w2 where
    c: "claim_existing E row default_claim_ttl_seconds ?w1 = (Inr \<lparr>rec_namespace = ir_namespace row,
      rec_key = ir_key row, rec_state = IdemStarted, rec_result = ir_result row, rec_owned = False,
      rec_claim_token = None\<rparr>, w2)" and v: "view w2 = committed w" by (auto simp: idle_open)
  have "tx_local E (idem_start E idempotency_namespace key default_claim_ttl_seconds)" by (intro tx_locals)
  from tx_localD [OF this s [unfolded c]] have "llm_calls w2 = llm_calls w" by (simp add: open_session_def)
  with s c v have "\<exists>w'. uow E (idem_start E idempotency_namespace key default_claim_ttl_seconds) w =
      (Inr \<lparr>rec_namespace = ir_namespace row, rec_key = ir_key row, rec_state = IdemStarted,
        rec_result = ir_result row, rec_owned = False, rec_claim_token = None\<rparr>, w') \<and>
      committed w' = committed w \<and> llm_calls w' = llm_calls w"
    by (simp add: reliable_uow [OF assms(1)])
  with False assms(6,7) show ?thesis
    by (auto simp: execute_def check_idempotency_def bnd_apply ConflictError_def)
qed

theorem busy_or_failed_key_is_refused_witness:
  "\<exists>x. fst (execute quiet_env default_system_prompt keyed_command
     (turn_world_of (sample_db\<lparr>tbl_idem := [taken_row]\<rparr>))) = Inl (Nexa x)"
proof -
  let ?d = "sample_db\<lparr>tbl_idem := [taken_row]\<rparr>"
  have "valid_db ?d" by (rule sample_claimed_valid)
  moreover have "validate_input keyed_command = Inr sample_text" by code_simp
  ultimately show ?thesis
    using busy_or_failed_key_is_refused [OF quiet_reliable quiet_backend, of "turn_world_of ?d" taken_row "''k1''"
        keyed_command sample_text default_system_prompt]
    by (auto simp: taken_row_def claim_row_def at_key_def keyed_command_def quiet_env_def
        default_claim_ttl_seconds_def started_def)
qed

subsection \<open>Who may run a turn\<close>

lemma users_get_Inr:
  assumes E: "reliable E" and "users_get E i w = (Inr (Some u), w')" and "idmap w = empty_db"
  shows "\<exists>r \<in> set (tbl_users (view w)). ur_id r = i \<and> user_id u = i \<and> ur_status r = user_status_value (user_status u)"
proof -
  from assms(2) obtain r w1 where g: "get_user_row E i w = (Inr (Some r), w1)"
    and u: "user_to_domain E r w1 = (Inr u, w')"
    by (auto simp: users_get_def elim!: bnd_InrE split: option.splits)
  have "find (\<lambda>r. ur_id r = i) (tbl_users (view w)) = Some r"
    using g assms(3) by (auto simp: get_user_row_def session_get_def empty_db_def bnd_apply
        reliable_select [OF E] remember_def split: option.splits)
  then have "r \<in> set (tbl_users (view w))" "ur_id r = i" by (auto simp: find_Some_iff)
  moreover have "user_id u = ur_id r \<and> user_status_value (user_status u) = ur_status r"
    using u user_status_enum.value_find [of "ur_status r"]
    by (auto simp: user_to_domain_def enum_call_def elim!: bnd_InrE split: option.splits)
  ultimately show ?thesis by metis
qed


lemma resolve_current_actor_Inr:
  assumes E: "reliable E" and "resolve_current_actor E tid w = (Inr u, w')" and "idmap w = empty_db"
  shows "\<exists>t \<in> set (tbl_telegram (view w)). \<exists>r \<in> set (tbl_users (view w)).
    tr_telegram_user_id t = tid \<and> tr_user_id t = ur_id r \<and> user_id u = ur_id r \<and> ur_status r = ''active''"
proof -
  have one: "scalar_one_or_none xs = Inr (Some t) \<Longrightarrow> t \<in> set xs" for xs and t :: telegram_row
    by (auto simp: scalar_one_or_none_def split: list.splits)
  from assms(2) have g: "get_by_telegram_identity E tid w = (Inr (Some u), w')" and a: "user_status u = UserActive"
    by (auto simp: resolve_current_actor_def user_ensure_active_def sum_guard_def elim!: bnd_InrE split: option.splits if_splits)
  from g obtain t where t: "scalar_one_or_none (filter (\<lambda>t. tr_telegram_user_id t = tid)
      (tbl_telegram (view w))) = Inr (Some t)"
    and u: "users_get E (tr_user_id t) (w\<lparr>sql_count := Suc (sql_count w)\<rparr>) = (Inr (Some u), w')"
    by (auto simp: get_by_telegram_identity_def reliable_select [OF E] one_or_none_def elim!: bnd_InrE
        split: option.splits)
  have tmem: "t \<in> set (tbl_telegram (view w))" "tr_telegram_user_id t = tid" using one [OF t] by simp_all
  from users_get_Inr [OF E u] assms(3) obtain r where "r \<in> set (tbl_users (view w))" "ur_id r = tr_user_id t"
    "user_id u = tr_user_id t" "ur_status r = user_status_value (user_status u)" by auto
  with tmem a show ?thesis by (intro bexI [of _ t] bexI [of _ r]) simp_all
qed

lemma session_get_row:
  assumes "reliable E" and "session_get E tbl upd p w = (Inr (Some r), w')"
  shows "r \<in> set (tbl (idmap w)) \<union> set (tbl (view w)) \<and> p r"
  using assms(2) by (auto simp: session_get_def bnd_apply reliable_select [OF assms(1)] remember_def
      find_Some_iff split: option.splits)

definition no_conversation_cached :: "('z, 'a) io \<Rightarrow> bool" where
  "no_conversation_cached m \<longleftrightarrow> (\<forall>w. tbl_conversations (idmap (snd (m w))) = tbl_conversations (idmap w))"

named_theorems uncached \<open>Programs that load no conversation\<close>

lemma uncached_leaves [uncached]:
  "no_conversation_cached (ret a)" "no_conversation_cached (throw e)" "no_conversation_cached (lift_sum r)"
  "no_conversation_cached (gets f)" "no_conversation_cached (one_or_none rows)"
  "no_conversation_cached (sql_select E q)" "no_conversation_cached (remember tbl_users_update g)"
  by (simp_all add: no_conversation_cached_def one_or_none_def sql_select_def sql_def remember_def Let_def
      split: option.splits sum.splits)

lemma uncached_bnd [uncached]:
  "no_conversation_cached m \<Longrightarrow> (\<And>a. no_conversation_cached (f a)) \<Longrightarrow> no_conversation_cached (bnd m f)"
  by (auto simp: no_conversation_cached_def bnd_def split: prod.splits sum.splits) (metis snd_conv)+

lemma uncached_cases [uncached]:
  "no_conversation_cached m \<Longrightarrow> (\<And>x. no_conversation_cached (f x)) \<Longrightarrow>
     no_conversation_cached (case v of None \<Rightarrow> m | Some x \<Rightarrow> f x)"
  by (auto split: option.splits)

lemma uncached_map_each [uncached]:
  "(\<And>x. no_conversation_cached (f x)) \<Longrightarrow> no_conversation_cached (map_each f xs)"
  by (induction xs) (auto intro!: uncached)

lemma resolve_keeps_conversations:
  assumes "resolve_current_actor E tid w = (r, w')"
  shows "tbl_conversations (idmap w') = tbl_conversations (idmap w)"
proof -
  have "no_conversation_cached (resolve_current_actor E tid)"
    unfolding resolve_current_actor_def get_by_telegram_identity_def users_get_def get_user_row_def
      session_get_def user_to_domain_def load_roles_def load_role_def
    by (intro uncached)
  with assms show ?thesis unfolding no_conversation_cached_def by (metis snd_conv)
qed

text \<open>C9: a turn starts only for the owner of the conversation: the Telegram account is linked to
  an active user, the conversation is that user's and is active, and the run and the message
  are stored for them.\<close>

theorem turn_starts_only_for_the_owner:
  assumes "reliable E" and "start_turn E cmd body w = (Inr c, w')"
  shows "\<exists>t \<in> set (tbl_telegram (committed w)). \<exists>u \<in> set (tbl_users (committed w)).
    \<exists>r \<in> set (tbl_conversations (committed w)).
      tr_telegram_user_id t = cmd_telegram_user_id cmd \<and> tr_user_id t = ur_id u \<and> ur_status u = ''active'' \<and>
      cr_id r = cmd_conversation_id cmd \<and> cr_owner_id r = ur_id u \<and> cr_status r = ''active'' \<and>
      run_user_id (mem_run w') = ur_id u \<and> run_conversation_id (mem_run w') = cr_id r"
proof -
  let ?w = "open_session w"
  have idm: "idmap ?w = empty_db" by (simp add: open_session_def)
  from uow_reliable_Inr [OF assms(1) assms(2) [unfolded start_turn_def]] obtain w1 where
    "start_turn_body E cmd body ?w = (Inr c, w1)" and w': "mem_run w' = mem_run w1" by auto
  then obtain actor wa c0 wb m wc wd where
    a: "resolve_current_actor E (cmd_telegram_user_id cmd) ?w = (Inr actor, wa)"
    and l: "load_owned_conversation E cmd actor wa = (Inr c0, wb)"
    and m: "call_method E 1 2 (\<lambda>ids t. append_message RoleUser body None (ids 0) (t 0) (t 1) c0) wb = (Inr (m, c), wc)"
    and r: "create_run E cmd (user_id actor) (conv_id c) wd = (Inr (), w1)"
    by (auto simp: start_turn_body_def elim!: bnd_InrE split: prod.splits)
  have v: "view wa = committed w" using read_onlyD [OF read_only_parts(1) assms(1) a] by (simp add: idle_open)
  have "conv_status c0 = ConvActive" "conv_id c = conv_id c0" using m by (auto simp: method_Inr append_message_Inr_iff)
  moreover from l obtain row wx wy where
    g: "get_conversation_row E (cmd_conversation_id cmd) wa = (Inr (Some row), wx)"
    and d: "conversation_to_domain E (cmd_context_window cmd) row wx = (Inr c0, wy)" and o: "conv_owner_id c0 = user_id actor"
    by (auto simp: load_owned_conversation_def conversations_get_def elim!: bnd_InrE split: option.splits if_splits)
  moreover have "conv_owner_id c0 = cr_owner_id row \<and> conversation_status_value (conv_status c0) = cr_status row \<and>
      conv_id c0 = cr_id row"
    using d conversation_status_enum.value_find [of "cr_status row"]
    by (auto simp: conversation_to_domain_def enum_call_def elim!: bnd_InrE split: option.splits)
  moreover have "run_user_id (mem_run w1) = user_id actor \<and> run_conversation_id (mem_run w1) = conv_id c"
    using create_run_Inr [OF r] by (auto simp: started_run_def new_agent_run_def dest!: quiet_progD [OF quiet_repos(4)])
  moreover have "row \<in> set (tbl_conversations (committed w)) \<and> cr_id row = cmd_conversation_id cmd"
    using session_get_row [OF assms(1) g [unfolded get_conversation_row_def]]
      resolve_keeps_conversations [OF a] v by (auto simp: open_session_def empty_db_def)
  ultimately show ?thesis using resolve_current_actor_Inr [OF assms(1) a idm] w'
    by (fastforce simp: idle_open)
qed


theorem turn_starts_only_for_the_owner_witness:
  "\<exists>u \<in> set (tbl_users sample_db). ur_status u = ''active'' \<and>
     run_user_id (mem_run (snd (start_turn quiet_env sample_command sample_text (turn_world_of sample_db)))) = ur_id u"
proof -
  obtain c w1 where
    "start_turn quiet_env sample_command sample_text (turn_world_of sample_db) = (Inr c, w1)"
    by (rule sample_start)
  from turn_starts_only_for_the_owner [OF quiet_reliable this] this show ?thesis by auto
qed

subsection \<open>Exits the settlement does not cover\<close>


text \<open>With a step limit of two the turn pays for a model call it cannot use: planning and the
  call exhaust the limit, the validation step is refused, and the answer the provider gave is
  dropped while the run is stored as failed.\<close>

lemma two_steps_discard_the_answer:
  "let (r, w) = execute quiet_env default_system_prompt
         (sample_command\<lparr>cmd_limits := default_limits\<lparr>max_steps := 2\<rparr>\<rparr>) (turn_world_of sample_db)
   in (case r of Inl (Nexa e) \<Rightarrow> err_code e | _ \<Rightarrow> []) = ''agent_step_limit_exceeded'' \<and> length (llm_calls w) = 1 \<and>
      map ar_status (tbl_runs (committed w)) = [''failed''] \<and>
      map mr_content (tbl_messages (committed w)) = [''hi'', sample_text]"
  by code_simp

text \<open>A claim outlives a turn that never started: when the conversation is not found the
  caller gets the error, but the key stays claimed, so a retry is told that the request is
  already being processed.\<close>

lemma unstarted_turn_keeps_its_claim:
  "let cmd = keyed_command\<lparr>cmd_conversation_id := 8\<rparr>;
       (r1, w1) = execute quiet_env default_system_prompt cmd (turn_world_of sample_db);
       (r2, w2) = execute quiet_env default_system_prompt cmd w1
   in (case r1 of Inl (Nexa e) \<Rightarrow> err_code e | _ \<Rightarrow> []) = ''conversation_not_found'' \<and>
      (case r2 of Inl (Nexa e) \<Rightarrow> err_code e | _ \<Rightarrow> []) = ''agent_run_in_progress''"
  by code_simp

end
