(* ===== verification/Repo_Properties.thy ===== *)
theory Repo_Properties
  imports Turn_Access
begin

section \<open>Properties of the repositories and the entities they store\<close>

text \<open>
  Round trips through the tables: a conversation loaded with a window answers questions about
  its whole stored history or refuses, a run that is added, changed and saved loads back as it
  was saved, an appended message is the last of its conversation, and what the domain can build
  never violates a CHECK constraint.
\<close>

subsection \<open>Conversations\<close>

text \<open>C18: whatever happens around the load, a conversation loaded with a window of n answers a
  question for its k newest messages from the whole stored history, and refuses exactly the
  questions for more than n when older messages may exist.\<close>

theorem window_answers_from_the_full_history:
  assumes "conversations_get E cid n w = (Inr (Some c), w')"
    and "stored_history E cid (view w') = Inr full" and "0 < k"
  shows "recent_messages k c =
    (if k \<le> n \<or> int (length full) < n then Inr (last_n (nat k) full)
     else Inl (raise_validation ''Requested more history than was loaded for this conversation.''
       ''conversation_history_not_loaded'' [(''requested'', PInt k), (''loaded'', PInt n)]))"
proof -
  have "conv_id c = cid" by (rule conversations_get_id [OF assms(1)])
  with conversations_get_represents [OF assms(1)] assms(2) have rep: "represents full c"
    and h: "conv_history_window c = (if int (length full) < n then None else Some n)" by simp_all
  show ?thesis
  proof (cases "k \<le> n \<or> int (length full) < n")
    case True
    then have "recent_messages k c = Inr (last_n (nat k) (conv_messages c))"
      using h assms(3) by (intro recent_messages_window) (auto split: if_splits)
    with represents_recent(2) [OF rep this] True show ?thesis by simp
  next
    case False
    with h assms(3) show ?thesis by (simp add: recent_messages_def)
  qed
qed

lemma read_only_conversations_get: "read_only E (conversations_get E cid n)"
  unfolding conversations_get_def get_conversation_row_def conversation_to_domain_def load_messages_def
  by (intro read_onlys)

theorem window_answers_from_the_full_history_witness:
  "case fst (conversations_get quiet_env 7 20 (world_of sample_db)) of
     Inr (Some c) \<Rightarrow> recent_messages 3 c = Inr [sample_message_20] | _ \<Rightarrow> False"
proof -
  obtain x w' where g: "conversations_get quiet_env 7 20 (world_of sample_db) = (x, w')" by fastforce
  have "case fst (conversations_get quiet_env 7 20 (world_of sample_db)) of
     Inr (Some c) \<Rightarrow> conv_id c = 7 | _ \<Rightarrow> False" by code_simp
  with g obtain c where c: "x = Inr (Some c)" by (auto split: sum.splits option.splits)
  have "view w' = sample_db"
    using read_onlyD [OF read_only_conversations_get quiet_reliable g] by simp
  with window_answers_from_the_full_history [OF g [unfolded c], of "[sample_message_20]" 3] sample_history
  show ?thesis by (simp add: g c last_n_def)
qed


definition sample_reply :: message where
  "sample_reply = \<lparr>msg_id = 21, msg_conversation_id = 7, msg_role = RoleAssistant, msg_content = ''hello'',
     msg_metadata = [], msg_created_at = Utc 3\<rparr>"



subsection \<open>Agent runs\<close>

text \<open>C37: no run the domain can reach violates a CHECK constraint of its table, and no step of it
  one of its own: the constraints mirror the entity.\<close>

theorem reachable_runs_satisfy_the_checks:
  assumes "reachable is_new_run run_step r"
  shows "agent_run_check (run_row_of r) \<and> list_all (\<lambda>s. agent_step_check (step_row_of s)) (run_steps r)"
proof -
  have wf: "run_wf r" by (rule run_cycle.reachable_inv [OF assms])
  then have "list_all (\<lambda>s. agent_step_check (step_row_of s)) (run_steps r)"
    using steps_numbered_check
    by (auto simp: list_all_iff run_wf_def agent_step_check_def step_row_of_def)
  with run_wf_check [OF wf] show ?thesis by simp
qed

theorem reachable_runs_satisfy_the_checks_witness: "agent_run_check (run_row_of sample_started)"
  using reachable_runs_satisfy_the_checks [OF sample_reachable] by simp

text \<open>C15: a run that is added, changed by any sequence of its methods, and saved in a later unit of
  work loads back in a third exactly as it was saved, steps included.\<close>

theorem saved_run_loads_back:
  assumes "reliable E" and "backend_ok E" and "valid_db (committed w)" and "idle w"
    and "storable r0" and "fresh_run (fk_on E) r0 (committed w)" and "run_step\<^sup>*\<^sup>* r0 r" and "storable r"
    and "list_all (\<lambda>s. step_id s \<notin> sr_id ` set (tbl_steps (committed w))) (run_steps r)"
  shows "\<exists>w1 w2 w3. uow E (runs_add E r0) w = (Inr (), w1) \<and> uow E (runs_save E r) w1 = (Inr (), w2) \<and>
    uow E (runs_get E (run_id r0)) w2 = (Inr (Some r), w3)"
proof -
  note E = assms(1) and be = assms(2)
  let ?o = "open_session w"
  have o: "view ?o = committed w" by (rule idle_open)
  from runs_add_reliable [OF E assms(5), of ?o] assms(6) o obtain wa where
    a: "runs_add E r0 ?o = (Inr (), wa)" and va: "view wa = added_db r0 (committed w)" by auto
  define w1 where "w1 = wa\<lparr>committed := view wa, sql_count := Suc (sql_count wa), tx_open := False\<rparr>"
  have u1: "uow E (runs_add E r0) w = (Inr (), w1)" by (simp add: reliable_uow [OF E] a w1_def)
  have c1: "committed w1 = added_db r0 (committed w)" by (simp add: w1_def va)
  have "lawful E (uow E (runs_add E r0))" by (intro lawfuls)
  from lawful_valid [OF this reliable_peers [OF E], of w] assms(3,4) have valid1: "valid_db (committed w1)"
    by (simp add: u1 idle_def)
  from assms(6) added_db_stored(1) [OF be assms(5)] have st1: "stored_run E (run_id r0) (committed w1) = Inr (Some r0)"
    by (simp add: fresh_run_def c1)
  have ext: "extends r0 r" by (rule run_steps_extend [OF assms(7)])
  then have rid: "run_id r = run_id r0" by (simp add: extends_def)
  have new: "step_id s \<notin> sr_id ` set (tbl_steps (view (open_session w1)))"
    if "s \<in> set (drop (length (run_steps r0)) (run_steps r))" for s
  proof -
    from ext obtain ss where ss: "run_steps r = run_steps r0 @ ss" by (auto simp: extends_def prefix_def)
    with assms(8) have "step_id ` set (run_steps r0) \<inter> step_id ` set ss = {}" by (simp add: storable_def)
    moreover have "step_id s \<notin> sr_id ` set (tbl_steps (committed w))" using assms(9) that
      by (auto simp: list_all_iff dest: in_set_dropD)
    moreover have "s \<in> set ss" using that ss by simp
    moreover have "sr_id ` set (tbl_steps (committed w1)) =
        sr_id ` set (tbl_steps (committed w)) \<union> step_id ` set (run_steps r0)"
      by (simp add: c1 added_db_def image_Un image_image) (simp add: step_row_of_def)
    ultimately show ?thesis unfolding idle_open by blast
  qed
  have idm: "idmap (open_session v) = empty_db" for v :: "'z world_scheme" by (simp add: open_session_def)
  have wf: "run_wf r0" using assms(5) by (simp add: storable_def)
  from runs_save_stored [OF E be _ assms(8) ext wf, of "open_session w1"] valid1 st1 rid new obtain wb where
    b: "runs_save E r (open_session w1) = (Inr (), wb)" and st2: "stored_run E (run_id r0) (view wb) = Inr (Some r)"
    by (auto simp: idle_open idm empty_db_def)
  define w2 where "w2 = wb\<lparr>committed := view wb, sql_count := Suc (sql_count wb), tx_open := False\<rparr>"
  have u2: "uow E (runs_save E r) w1 = (Inr (), w2)" by (simp add: reliable_uow [OF E] b w2_def)
  have "stored_run E (run_id r0) (view (open_session w2)) = Inr (Some r)" using st2 by (simp add: idle_open w2_def)
  from runs_get_found [OF E idm this rid] obtain wc where "runs_get E (run_id r0) (open_session w2) = (Inr (Some r), wc)"
    by blast
  then show ?thesis using u1 u2 by (simp add: reliable_uow [OF E])
qed

definition sample_new_run :: agent_run where
  "sample_new_run = new_agent_run 60 1 7 ''openai'' ''gpt'' default_limits"

definition sample_failed_run :: agent_run where
  "sample_failed_run = sample_new_run\<lparr>run_status := RunFailed, run_failure_reason := Some ''boom'',
     run_finished_at := Some (Utc 9)\<rparr>"

theorem saved_run_loads_back_witness:
  "\<exists>w1 w2 w3. uow quiet_env (runs_add quiet_env sample_new_run) (world_of sample_db) = (Inr (), w1) \<and>
     uow quiet_env (runs_save quiet_env sample_failed_run) w1 = (Inr (), w2) \<and>
     uow quiet_env (runs_get quiet_env 60) w2 = (Inr (Some sample_failed_run), w3)"
proof -
  have "fail_run ''boom'' 0 (Utc 9) (Utc 9) sample_new_run = Inr sample_failed_run"
    by (simp add: fail_run_Inr_iff sample_failed_run_def sample_new_run_def new_agent_run_def)
  then have step: "run_step\<^sup>*\<^sup>* sample_new_run sample_failed_run" by (blast intro: step_fail)
  have st: "storable sample_new_run" "storable sample_failed_run"
    by (simp_all add: storable_def run_wf_def limits_positive_def steps_numbered_def within_budget_def work_steps_def
        tool_call_count_def times_match_def terminal_run_statuses_def run_aware_def run_json_def
        sample_failed_run_def sample_new_run_def new_agent_run_def default_limits_def)
  have "fresh_run (fk_on quiet_env) sample_new_run (committed (world_of sample_db))"
    by (simp add: fresh_run_def sample_new_run_def new_agent_run_def sample_db_def empty_db_def)
  from saved_run_loads_back [OF quiet_reliable quiet_backend _ _ st(1) this step st(2)] show ?thesis
    by (simp add: sample_valid idle_def sample_failed_run_def sample_new_run_def new_agent_run_def)
qed


subsection \<open>Users\<close>

text \<open>Programs after which every user row in the identity map is still the stored one.\<close>

definition cached_users :: "'z world_scheme \<Rightarrow> bool" where
  "cached_users w \<longleftrightarrow> set (tbl_users (idmap w)) \<subseteq> set (tbl_users (view w))"

definition users_fresh :: "env \<Rightarrow> ('z, 'a) io \<Rightarrow> bool" where
  "users_fresh E m \<longleftrightarrow> (reliable E \<longrightarrow> (\<forall>w. view (snd (m w)) = view w \<and> (cached_users w \<longrightarrow> cached_users (snd (m w)))))"

named_theorems users_freshs \<open>Programs that read users and keep the identity map fresh\<close>

lemma users_fresh_leaves [users_freshs]:
  "users_fresh E (ret a)" "users_fresh E (throw e)" "users_fresh E (lift_sum r)"
  "users_fresh E (one_or_none rows)" "users_fresh E (sql_select E q)"
  by (auto simp: users_fresh_def cached_users_def ret_def throw_def lift_sum_def one_or_none_def reliable_select)

lemma users_fresh_bnd [users_freshs]:
  "users_fresh E m \<Longrightarrow> (\<And>a. users_fresh E (f a)) \<Longrightarrow> users_fresh E (bnd m f)"
  by (auto simp: users_fresh_def bnd_def split: prod.splits sum.splits) (metis snd_conv)+

lemma users_fresh_cases [users_freshs]:
  "users_fresh E m \<Longrightarrow> (\<And>x. users_fresh E (f x)) \<Longrightarrow> users_fresh E (case v of None \<Rightarrow> m | Some x \<Rightarrow> f x)"
  by (auto split: option.splits)

lemma users_fresh_map_each [users_freshs]: "(\<And>x. users_fresh E (f x)) \<Longrightarrow> users_fresh E (map_each f xs)"
  by (induction xs) (auto intro!: users_freshs)

lemma users_fresh_row [users_freshs]: "users_fresh E (get_user_row E u)"
  by (auto simp: users_fresh_def get_user_row_def session_get_def bnd_apply reliable_select remember_def
      cached_users_def gets_def modify_def ret_def find_Some_iff split: option.splits)

lemma users_fresh_get: "users_fresh E (users_get E u)"
  unfolding users_get_def user_to_domain_def load_roles_def load_role_def by (intro users_freshs)

definition keeps_users :: "env \<Rightarrow> ('z, 'a) io \<Rightarrow> bool" where
  "keeps_users E m \<longleftrightarrow> (reliable E \<longrightarrow> (\<forall>w. tbl_users (view (snd (m w))) = tbl_users (view w)))"

named_theorems user_keeps \<open>Programs that leave the users table alone\<close>

lemma keeps_users_read: "read_only E m \<Longrightarrow> keeps_users E m"
  by (simp add: read_only_def keeps_users_def)

lemmas keeps_users_reads [user_keeps] = read_only_leaves [THEN keeps_users_read]

lemma keeps_users_leaves [user_keeps]:
  "keeps_users E (uuid4 E)" "keeps_users E (utc_now E)"
  "keeps_users E (sql E (insert_telegram fk tr))" "keeps_users E (sql E (insert_role rr))"
  "keeps_users E (sql E (insert_permission pr))" "keeps_users E (sql E (link_user_role fk u i))"
  "keeps_users E (sql E (unlink_user_roles u))" "keeps_users E (sql E (link_role_permission fk i q))"
  "keeps_users E (sql E (update_telegram i f))"
  by (auto simp: keeps_users_def uuid4_def utc_now_def reliable_sql insert_defs guarded_Inr_iff Let_def
      update_telegram_def split: sum.splits)

lemma keeps_users_bnd [user_keeps]: "keeps_users E m \<Longrightarrow> (\<And>a. keeps_users E (f a)) \<Longrightarrow> keeps_users E (bnd m f)"
  by (auto simp: keeps_users_def bnd_def split: prod.splits sum.splits) (metis snd_conv)+

lemma keeps_users_cases [user_keeps]:
  "keeps_users E m \<Longrightarrow> (\<And>x. keeps_users E (f x)) \<Longrightarrow> keeps_users E (case v of None \<Rightarrow> m | Some x \<Rightarrow> f x)"
  "keeps_users E m \<Longrightarrow> keeps_users E m' \<Longrightarrow> keeps_users E (if b then m else m')"
  by (auto split: option.splits)

lemma keeps_users_for_each [user_keeps]: "(\<And>x. keeps_users E (f x)) \<Longrightarrow> keeps_users E (for_each xs f)"
  by (induction xs) (auto intro!: user_keeps)

lemma keeps_users_permission [user_keeps]: "keeps_users E (get_or_create_permission E p)"
  unfolding get_or_create_permission_def by (intro user_keeps)

lemma keeps_users_role [user_keeps]: "keeps_users E (get_or_create_role E r)"
  unfolding get_or_create_role_def by (intro user_keeps)

lemma keeps_users_writes [user_keeps]:
  "keeps_users E (sync_roles E u rs)" "keeps_users E (attach_identity E u i)"
  unfolding sync_roles_def attach_identity_def Let_def by (intro user_keeps)+

lemma keeps_usersD: "keeps_users E m \<Longrightarrow> reliable E \<Longrightarrow> m w = (r, w') \<Longrightarrow> tbl_users (view w') = tbl_users (view w)"
  by (auto simp: keeps_users_def) (metis snd_conv)

lemma users_freshD: "users_fresh E m \<Longrightarrow> reliable E \<Longrightarrow> m w = (r, w') \<Longrightarrow>
    view w' = view w \<and> (cached_users w \<longrightarrow> cached_users w')"
  by (auto simp: users_fresh_def) (metis snd_conv)+

text \<open>After a save, every row of the user carries the entity's status.\<close>

lemma users_save_status:
  assumes E: "reliable E" and "users_save E u w = (Inr (), w')" and "cached_users w"
    and "distinct (map ur_id (tbl_users (view w)))"
  shows "\<forall>r \<in> set (tbl_users (view w')). ur_id r = user_id u \<longrightarrow> ur_status r = user_status_value (user_status u)"
proof -
  let ?st = "user_status_value (user_status u)"
  from assms(2) obtain r w1 w2 where g: "get_user_row E (user_id u) w = (Inr (Some r), w1)"
    and upd: "(if ?st = ur_status r then ret () else
       bnd (utc_now E) (\<lambda>now. bnd (sql E (update_user (user_id u) (\<lambda>x. x\<lparr>ur_status := ?st, ur_updated_at := now\<rparr>)))
         (\<lambda>_. remember tbl_users_update (update_where (\<lambda>x. ur_id x = user_id u)
           (\<lambda>x. x\<lparr>ur_status := ?st, ur_updated_at := now\<rparr>))))) w1 = (Inr (), w2)"
    and t: "tbl_users (view w') = tbl_users (view w2)"
    by (auto simp: users_save_def Let_def elim!: bnd_InrE split: option.splits
        dest!: keeps_usersD [OF keeps_users_writes(1) E] keeps_usersD [OF keeps_users_writes(2) E])
  from users_freshD [OF users_fresh_row E g] assms(3) have v: "view w1 = view w" by simp
  from session_get_row [OF E g [unfolded get_user_row_def]] assms(3)
  have r: "r \<in> set (tbl_users (view w))" "ur_id r = user_id u" by (auto simp: cached_users_def)
  show ?thesis
  proof (cases "?st = ur_status r")
    case True
    with upd v t have "tbl_users (view w') = tbl_users (view w)" by simp
    with r True assms(4) show ?thesis by (auto simp: distinct_map inj_on_def)
  next
    case False
    with upd show ?thesis
      by (auto simp: t utc_now_def reliable_sql [OF E] update_user_def update_where_def guarded_Inr_iff Let_def
          remember_def elim!: bnd_InrE split: sum.splits)
  qed
qed

text \<open>C17: once a ban has been committed, no request of that user's Telegram account is resolved to an
  actor: the account is refused in every later unit of work that sees the ban.\<close>

theorem banned_user_is_not_resolved:
  assumes "reliable E" and "valid_db (committed w)" and "uow E (ban_user E uid) w = (Inr u, w')"
  shows "user_id u = uid \<and> user_status u = UserBanned \<and>
    (case fst (uow E (resolve_current_actor E tid) w') of Inl _ \<Rightarrow> True | Inr a \<Rightarrow> user_id a \<noteq> uid)"
proof -
  note E = assms(1)
  from uow_reliable_Inr [OF E assms(3)] obtain w1 where b: "ban_user E uid (open_session w) = (Inr u, w1)"
    and w': "committed w' = view w1" by auto
  from b obtain u0 wa wb where g: "users_get E uid (open_session w) = (Inr (Some u0), wa)"
    and m: "call_method E 0 1 (\<lambda>_ t. ban (t 0) u0) wa = (Inr u, wb)" and s: "users_save E u wb = (Inr (), w1)"
    by (auto simp: ban_user_def change_user_def elim!: bnd_InrE split: option.splits)
  from users_get_Inr [OF E g] have "user_id u0 = uid" by (auto simp: open_session_def)
  with m have u: "user_id u = uid" "user_status u = UserBanned"
    by (auto simp: method_Inr ban_def split: if_splits)
  have "cached_users (open_session w)" by (simp add: cached_users_def open_session_def empty_db_def)
  with users_freshD [OF users_fresh_get E g] have wa: "view wa = committed w" "cached_users wa"
    by (simp_all add: idle_open)
  with m have wb: "view wb = committed w" "cached_users wb" by (auto simp: method_Inr cached_users_def)
  with users_save_status [OF E s] assms(2) u
  have banned: "\<forall>r \<in> set (tbl_users (committed w')). ur_id r = uid \<longrightarrow> ur_status r = ''banned''"
    by (simp add: w' valid_db_def keys_distinct_def)
  have "user_id a \<noteq> uid" if r: "uow E (resolve_current_actor E tid) w' = (Inr a, w2)" for a w2
  proof -
    from uow_reliable_Inr [OF E r] obtain w3 where
      "resolve_current_actor E tid (open_session w') = (Inr a, w3)" by auto
    from resolve_current_actor_Inr [OF E this] banned show ?thesis
      by (auto simp: open_session_def)
  qed
  with u show ?thesis by (auto split: sum.splits prod.splits) (metis prod.collapse)
qed

theorem banned_user_is_not_resolved_witness:
  "\<exists>u w'. uow quiet_env (ban_user quiet_env 1) (world_of sample_db) = (Inr u, w') \<and>
     (case fst (uow quiet_env (resolve_current_actor quiet_env 42) w') of Inl _ \<Rightarrow> True | Inr a \<Rightarrow> user_id a \<noteq> 1)"
proof -
  obtain r w' where b: "uow quiet_env (ban_user quiet_env 1) (world_of sample_db) = (r, w')" by fastforce
  have "case fst (uow quiet_env (ban_user quiet_env 1) (world_of sample_db)) of Inl _ \<Rightarrow> False | Inr _ \<Rightarrow> True"
    by code_simp
  with b obtain u where r: "r = Inr u" by (auto split: sum.splits)
  from banned_user_is_not_resolved [OF quiet_reliable _ b [unfolded r]] sample_valid b r show ?thesis by auto
qed


definition sample_identity :: telegram_identity where
  "sample_identity = \<lparr>tg_user_id = 77, tg_username = Some ''bob'', tg_first_name = None, tg_last_name = None\<rparr>"


end
