(* ===== verification/Turn_Recovery.thy ===== *)
theory Turn_Recovery
  imports Turn_Access
begin

section \<open>What becomes of a claimed key\<close>

text \<open>
  An attempt that holds the claim of its key settles the key whenever its turn started and its
  task was not cancelled; and a key that an earlier attempt left claimed is taken over by the
  first retry after the claim has expired. So no key is stuck for longer than the claim lives.
\<close>

subsection \<open>The claim under the parts of a turn\<close>

definition claimed_row :: "claim \<Rightarrow> idempotency_row \<Rightarrow> db \<Rightarrow> bool" where
  \<comment> \<open>the key's row, claimed under this token and not settled\<close>
  "claimed_row cl row d \<longleftrightarrow> row \<in> set (tbl_idem d) \<and> at_key idempotency_namespace (claim_key cl) row \<and>
     ir_state row = started \<and> ir_claim_token row = claim_token cl"

lemma start_turn_keeps_claims:
  assumes E: "reliable E" and "start_turn E cmd body w = (Inr c, w')"
  shows "tbl_idem (committed w') = tbl_idem (committed w)"
proof -
  from uow_reliable_Inr [OF E assms(2) [unfolded start_turn_def]] obtain w1 where
    b: "start_turn_body E cmd body (open_session w) = (Inr c, w1)" and w': "committed w' = view w1" by auto
  from start_turn_body_effect [OF E b] w' show ?thesis
    by (auto simp: Let_def added_db_def insert_message_def guarded_Inr_iff idle_open)
qed

lemma start_turn_refused:
  assumes E: "reliable E" and "start_turn E cmd body w = (Inl e, w')"
  shows "committed w' = committed w"
  using uow_reliable_Inl [OF E tx_local_start assms(2) [unfolded start_turn_def]] by auto

lemma read_only_runs_get: "read_only E (runs_get E i)"
  unfolding runs_get_def get_run_row_def run_to_domain_def by (intro read_onlys)

lemma settle_run_keeps_claims:
  assumes E: "reliable E" and "settle_run_body E reason w = (Inr (), w')"
  shows "tbl_idem (view w') = tbl_idem (view w)"
proof -
  from assms(2) obtain p w1 where g: "runs_get E (run_id (mem_run w)) w = (Inr p, w1)"
    and rest: "(let target = case p of None \<Rightarrow> mem_run w | Some p \<Rightarrow> p in
     if run_status target \<in> terminal_run_statuses then ret ()
     else bnd (call_method E 1 2 (\<lambda>ids t. fail_run reason (ids 0) (t 0) (t 1) target)) (\<lambda>failed.
       bnd (if p = None then modify (\<lambda>w. w\<lparr>mem_run := failed\<rparr>) else ret ()) (\<lambda>_. runs_save E failed))) w1 = (Inr (), w')"
    by (auto simp: settle_run_body_def elim!: bnd_InrE)
  have v1: "view w1 = view w"
    using read_onlyD [OF read_only_runs_get E g] by simp
  show ?thesis
  proof (cases "run_status (case p of None \<Rightarrow> mem_run w | Some p \<Rightarrow> p) \<in> terminal_run_statuses")
    case True
    with rest v1 show ?thesis by (simp add: Let_def)
  next
    case False
    let ?target = "case p of None \<Rightarrow> mem_run w | Some p \<Rightarrow> p"
    from rest False have "bnd (call_method E 1 2 (\<lambda>ids t. fail_run reason (ids 0) (t 0) (t 1) ?target)) (\<lambda>failed.
       bnd (if p = None then modify (\<lambda>w. w\<lparr>mem_run := failed\<rparr>) else ret ()) (\<lambda>_. runs_save E failed)) w1 = (Inr (), w')"
      by (simp add: Let_def)
    then obtain failed w2 where c: "call_method E 1 2 (\<lambda>ids t. fail_run reason (ids 0) (t 0) (t 1) ?target) w1 = (Inr failed, w2)"
      and rest2: "bnd (if p = None then modify (\<lambda>w. w\<lparr>mem_run := failed\<rparr>) else ret ()) (\<lambda>_. runs_save E failed) w2 = (Inr (), w')"
      by (rule bnd_InrE)
    from rest2 obtain u w3 where m: "(if p = None then modify (\<lambda>w. w\<lparr>mem_run := failed\<rparr>) else ret ()) w2 = ((Inr u :: exn + unit), w3)"
      and s: "runs_save E failed w3 = (Inr (), w')" by (rule bnd_InrE)
    have "view w2 = view w1" using c by (auto simp: call_method_def split: sum.splits)
    moreover have "view w3 = view w2" using m by (auto split: if_splits)
    ultimately show ?thesis using runs_save_idem [OF E s] v1 by simp
  qed
qed

lemma settle_failed_run_keeps_claims:
  assumes E: "reliable E" and "settle_failed_run E reason w = (r, w')"
  shows "tbl_idem (committed w') = tbl_idem (committed w)" and "r = Inr () \<or> (\<exists>e. r = Inl e \<and> \<not> is_exception e)"
proof -
  obtain x w1 where u: "uow E (settle_run_body E reason) w = (x, w1)" by fastforce
  have c: "tbl_idem (committed w1) = tbl_idem (committed w)"
  proof (cases x)
    case (Inl e)
    from uow_reliable_Inl [OF E tx_local_settle_run u [unfolded Inl]] show ?thesis by auto
  next
    case (Inr z)
    with uow_reliable_Inr [OF E u [unfolded Inr]] obtain w2 where
      "settle_run_body E reason (open_session w) = (Inr (), w2)" "committed w1 = view w2" by auto
    with settle_run_keeps_claims [OF E this(1)] show ?thesis by (simp add: idle_open)
  qed
  with u assms(2) show "tbl_idem (committed w') = tbl_idem (committed w)"
    and "r = Inr () \<or> (\<exists>e. r = Inl e \<and> \<not> is_exception e)"
    by (auto simp: settle_failed_run_def try_except_def log_event_def split: sum.splits if_splits)
qed

lemma settle_failed_claim_settles:
  assumes E: "reliable E" and "valid_db (committed w)" and "claimed_row cl row (committed w)"
  shows "\<exists>w'. settle_failed_claim E cl reason w = (Inr (), w') \<and>
    row\<lparr>ir_state := ''failed'', ir_result := [(''reason'', PStr reason)]\<rparr> \<in> set (tbl_idem (committed w'))"
proof -
  have "json_dict [(''reason'', PStr reason)]" by (simp add: json_dict_def)
  from idem_settle_owner [OF E, of "open_session w" row idempotency_namespace "claim_key cl" "claim_token cl" "[(''reason'', PStr reason)]" IdemFailed] this assms(2,3)
  obtain w1 where "idem_fail E idempotency_namespace (claim_key cl) reason (claim_token cl) (open_session w) = (Inr (), w1)"
    "view w1 = (committed w)\<lparr>tbl_idem := map (\<lambda>x. if x = row
       then row\<lparr>ir_state := ''failed'', ir_result := [(''reason'', PStr reason)]\<rparr> else x) (tbl_idem (committed w))\<rparr>"
    by (auto simp: claimed_row_def idle_open idem_fail_def)
  with assms(3) show ?thesis
    by (simp add: settle_failed_claim_def try_except_def reliable_uow [OF E] claimed_row_def)
qed

subsection \<open>An attempt settles its claim\<close>

definition attempt_ended :: "claim \<Rightarrow> exn + turn_result \<Rightarrow> idempotency_row \<Rightarrow> bool" where
  \<comment> \<open>what the key's row says after the attempt: the result, or the failure the caller was told\<close>
  "attempt_ended cl r row \<longleftrightarrow> at_key idempotency_namespace (claim_key cl) row \<and> ir_claim_token row = claim_token cl \<and>
     (case r of
        Inr res \<Rightarrow> ir_state row = ''completed'' \<and> ir_result row = result_to_stored res
      | Inl e \<Rightarrow> ir_state row = ''failed'' \<and> (\<exists>x. e = Nexa x \<and> ir_result row = [(''reason'', PStr (safe_message x))]))"

lemma lawful_settle_failed_run: "lawful E (settle_failed_run E reason)"
  unfolding settle_failed_run_def by (intro lawfuls)

lemma handle_failure_settles:
  assumes E: "reliable E" and valid: "valid_db (committed w)" "valid_db (view w)" and row: "claimed_row cl row (committed w)"
    and "handle_failure E (Some cl) e w = (r, w')"
  shows "(\<exists>row' \<in> set (tbl_idem (committed w')). attempt_ended cl r row') \<or> (\<exists>e'. r = Inl e' \<and> \<not> is_exception e')"
proof (cases "is_exception e")
  case False
  with assms(5) show ?thesis by (auto simp: handle_failure_def)
next
  case True
  let ?x = "normalized_error e"
  obtain w0 where w0: "normalize_failure e w = (Inr ?x, w0)" and same: "committed w0 = committed w" "view w0 = view w"
    by (cases e) (simp_all add: normalize_failure_def log_event_def bnd_apply)
  obtain s w1 where s: "settle_failed_run E (safe_message ?x) w0 = (s, w1)" by fastforce
  note k = settle_failed_run_keeps_claims [OF E s]
  show ?thesis
  proof (cases s)
    case (Inl e')
    with k(2) assms(5) True w0 s show ?thesis
      by (auto simp: handle_failure_def fail_turn_def bnd_apply)
  next
    case (Inr z)
    have "valid_db (committed w1)"
      using lawful_valid [OF lawful_settle_failed_run reliable_peers [OF E], of w0 "safe_message ?x"] valid same s by simp
    moreover have "claimed_row cl row (committed w1)" using row k(1) same by (simp add: claimed_row_def)
    ultimately obtain w2 where c: "settle_failed_claim E cl (safe_message ?x) w1 = (Inr (), w2)"
      and m: "row\<lparr>ir_state := ''failed'', ir_result := [(''reason'', PStr (safe_message ?x))]\<rparr> \<in> set (tbl_idem (committed w2))"
      using settle_failed_claim_settles [OF E] by blast
    from assms(5) True w0 s Inr c have "r = Inl (Nexa ?x)" "w' = w2"
      by (auto simp: handle_failure_def fail_turn_def bnd_apply)
    with m row show ?thesis by (auto simp: attempt_ended_def claimed_row_def at_key_def intro!: bexI [OF _ m])
  qed
qed

lemma finish_turn_settles:
  assumes E: "reliable E" and "finish_turn E c resp content (Some cl) w = (Inr res, w')"
  shows "\<exists>row \<in> set (tbl_idem (committed w')). attempt_ended cl (Inr res) row"
proof -
  from finish_turn_Inr [OF assms(2)] obtain m w3 where
    "uow E (persist_outcome E m res (Some cl)) w3 = (Inr (), w')" by blast
  from uow_reliable_Inr [OF E this] obtain w4 where
    "persist_outcome E m res (Some cl) (open_session w3) = (Inr (), w4)" "committed w' = view w4" by auto
  from persist_completes [OF E this(1)] this(2) show ?thesis by (auto simp: attempt_ended_def)
qed

definition attempt_left :: "claim \<Rightarrow> exn + turn_result \<Rightarrow> db \<Rightarrow> db \<Rightarrow> bool" where
  \<comment> \<open>the attempt ended without settling: it was cancelled, or its turn never started\<close>
  "attempt_left cl r d d' \<longleftrightarrow> (\<exists>e. r = Inl e \<and> (\<not> is_exception e \<or> d' = d))"

lemma execute_claimed_settles:
  assumes E: "reliable E" and valid: "valid_db (committed w)" "valid_db (view w)" and row: "claimed_row cl row (committed w)"
    and x: "execute_claimed E prompt cmd body (Some cl) w = (r, w')"
  shows "(\<exists>row' \<in> set (tbl_idem (committed w')). attempt_ended cl r row') \<or> attempt_left cl r (committed w) (committed w')"
proof -
  obtain s w1 where s: "start_turn E cmd body w = (s, w1)" by fastforce
  show ?thesis
  proof (cases s)
    case (Inl e)
    with x s start_turn_refused [OF E s [unfolded Inl]] show ?thesis
      by (auto simp: execute_claimed_def bnd_apply attempt_left_def)
  next
    case (Inr c)
    from lawful_valid [OF lawful_start_turn reliable_peers [OF E] valid, of cmd body] s
    have v1: "valid_db (committed w1)" by simp
    have r1: "claimed_row cl row (committed w1)"
      using row start_turn_keeps_claims [OF E s [unfolded Inr]] by (simp add: claimed_row_def)
    obtain a w2 where a: "answer_turn E prompt cmd c (Some cl) w1 = (a, w2)" by fastforce
    show ?thesis
    proof (cases a)
      case (Inr res)
      with x s a \<open>s = Inr c\<close> have "r = Inr res" "w' = w2"
        by (simp_all add: execute_claimed_def bnd_apply try_except_def)
      moreover from answer_turn_returns [OF a [unfolded Inr]] obtain resp content w3 where
        "finish_turn E c resp content (Some cl) w3 = (Inr res, w2)" by blast
      ultimately show ?thesis using finish_turn_settles [OF E] by blast
    next
      case (Inl e)
      with x s a \<open>s = Inr c\<close> have h: "handle_failure E (Some cl) e w2 = (r, w')"
        by (simp add: execute_claimed_def bnd_apply try_except_def)
      have c2: "committed w2 = committed w1"
        using answer_turn_raises [OF E a [unfolded Inl]] by (simp add: same_store_def)
      have "lawful E (answer_turn E prompt cmd c (Some cl))" unfolding answer_turn_def by (intro lawfuls)
      from lawful_valid [OF this reliable_peers [OF E], of w1]
        lawful_valid [OF lawful_start_turn reliable_peers [OF E] valid, of cmd body] s a
      have "valid_db (view w2)" by simp
      from handle_failure_settles [OF E _ this _ h] v1 r1 c2 show ?thesis by (auto simp: attempt_left_def)
    qed
  qed
qed

subsection \<open>Taking over an expired claim\<close>

lemma check_expired:
  assumes E: "reliable E" and "backend_ok E" and "valid_db (committed w)" and "row \<in> set (tbl_idem (committed w))"
    and "at_key idempotency_namespace key row" and "ir_state row = started" and "ir_claimed_at row = Utc t"
    and "default_claim_ttl_seconds * 1000000 \<le> clock E (clock_count w) - t"
  defines "token \<equiv> uuids E (uuid_count w)"
  defines "row' \<equiv> row\<lparr>ir_claimed_at := Utc (clock E (Suc (clock_count w))), ir_claim_token := token\<rparr>"
  shows "\<exists>w'. check_idempotency E key w = (Inr (None, Some \<lparr>claim_key = key, claim_token = token\<rparr>), w') \<and>
    committed w' = (committed w)\<lparr>tbl_idem := map (\<lambda>x. if x = row then row' else x) (tbl_idem (committed w))\<rparr> \<and>
    view w' = committed w'"
proof -
  let ?w1 = "(open_session w)\<lparr>sql_count := Suc (sql_count (open_session w))\<rparr>"
  have f: "filter (at_key idempotency_namespace key) (tbl_idem (view (open_session w))) = [row]"
    using idem_row_only(4) [OF assms(3,4)] assms(5) by (simp add: idle_open at_key_def)
  have v: "view ?w1 = committed w" "clock_count ?w1 = clock_count w" "uuid_count ?w1 = uuid_count w"
    by (simp_all add: idle_open open_session_def)
  from claim_existing_expired [OF E assms(2), of ?w1 row t default_claim_ttl_seconds, unfolded v] assms(3,4,6-8)
  obtain w2 where c: "claim_existing E row default_claim_ttl_seconds ?w1 = (Inr \<lparr>rec_namespace = ir_namespace row,
      rec_key = ir_key row, rec_state = IdemStarted, rec_result = ir_result row, rec_owned = True,
      rec_claim_token = Some token\<rparr>, w2)"
    and w2: "view w2 = (committed w)\<lparr>tbl_idem := map (\<lambda>x. if x = row then row' else x) (tbl_idem (committed w))\<rparr>"
    by (auto simp: token_def row'_def)
  from idem_start_existing [OF E f, of default_claim_ttl_seconds] c w2 show ?thesis
    by (simp add: check_idempotency_def bnd_apply reliable_uow [OF E])
qed

subsection \<open>Properties\<close>


definition late_env :: env where
  \<comment> \<open>the clock starts more than five minutes after the claim in the table\<close>
  "late_env = quiet_env\<lparr>clock := (\<lambda>i. 1000 * int i + 400000000)\<rparr>"

lemma late_env_ok: "reliable late_env" "backend_ok late_env"
  using quiet_reliable quiet_backend by (simp_all add: late_env_def reliable_def backend_ok_def)

lemma late_turn_answers:
  "case fst (execute late_env default_system_prompt keyed_command (turn_world_of (sample_db\<lparr>tbl_idem := [taken_row]\<rparr>))) of
     Inl _ \<Rightarrow> False | Inr res \<Rightarrow> True"
  by code_simp


end
