(* ===== verification/Turn_Faults.thy ===== *)
theory Turn_Faults
  imports Turn_Access
begin

section \<open>Results under faults and other workers\<close>

text \<open>
  What a returned result means when statements and commits may fail and other workers run the program
  at the same time. A request that returns has its result recorded under its key in the committed
  database, and every later request with the key that returns at all returns that result: a settled
  record is never changed, and a session that finds it claims nothing.
\<close>

definition result_recorded :: "string \<Rightarrow> turn_result \<Rightarrow> db \<Rightarrow> bool" where
  "result_recorded key res d \<longleftrightarrow> (\<exists>row \<in> set (tbl_idem d). at_key idempotency_namespace key row \<and>
     ir_state row = ''completed'' \<and> result_from_stored (ir_result row) = Inr res)"

lemma completed_is_settled: "row \<in> set (tbl_idem d) \<Longrightarrow> ir_state row = ''completed'' \<Longrightarrow> has_settled row d"
  by (simp add: has_settled_def started_def)

interpretation recorded_final: db_invariant fk "result_recorded key res" for fk key res
proof
  fix d d' assume c: "db_change fk d d'" and "result_recorded key res d"
  then obtain row where r: "row \<in> set (tbl_idem d)" "at_key idempotency_namespace key row"
    "ir_state row = ''completed''" "result_from_stored (ir_result row) = Inr res"
    by (auto simp: result_recorded_def)
  from settled_db_change [OF c completed_is_settled [OF r(1,3)]] r(2-4)
  show "result_recorded key res d'" by (auto simp: result_recorded_def has_settled_def)
qed

definition id_under_key :: "uuid \<Rightarrow> string \<Rightarrow> string \<Rightarrow> db \<Rightarrow> bool" where
  "id_under_key i ns key d \<longleftrightarrow> (\<exists>row \<in> set (tbl_idem d). ir_id row = i \<and> at_key ns key row)"

lemma idem_rows_change:
  assumes "db_change fk d d'"
  shows "tbl_idem d' = tbl_idem d \<or> (\<exists>r. tbl_idem d' = tbl_idem d @ [r]) \<or>
    (\<exists>p f. tbl_idem d' = update_where p f (tbl_idem d) \<and>
       (\<forall>r. ir_id (f r) = ir_id r \<and> ir_namespace (f r) = ir_namespace r \<and> ir_key (f r) = ir_key r))"
proof -
  have upd: "update_idem p f json d = Inr (n, d') \<Longrightarrow> tbl_idem d' = update_where p f (tbl_idem d)" for p f json n
    by (auto simp: update_idem_Inr_iff)
  show ?thesis
    apply (rule db_changeE [OF assms])
    apply ((clarsimp simp: insert_defs guarded_Inr_iff update_user_def update_run_def update_telegram_def
          update_conversation_def Let_def; fail) | (intro disjI2, blast dest: upd))+
    done
qed

lemma id_under_key_change:
  assumes "db_change fk d d'" and "id_under_key i ns key d"
  shows "id_under_key i ns key d'"
proof -
  from assms(2) obtain row where r: "row \<in> set (tbl_idem d)" "ir_id row = i" "at_key ns key row"
    by (auto simp: id_under_key_def)
  from idem_rows_change [OF assms(1)] show ?thesis
  proof (elim disjE exE conjE)
    fix p f
    assume u: "tbl_idem d' = update_where p f (tbl_idem d)"
      and f: "\<forall>r. ir_id (f r) = ir_id r \<and> ir_namespace (f r) = ir_namespace r \<and> ir_key (f r) = ir_key r"
    let ?row = "if p row then f row else row"
    have "?row \<in> set (tbl_idem d')" using r(1) by (auto simp: u update_where_def)
    moreover have "ir_id ?row = i \<and> at_key ns key ?row" using r(2,3) f by (simp add: at_key_def)
    ultimately show ?thesis unfolding id_under_key_def by blast
  qed (use r in \<open>auto simp: id_under_key_def\<close>)
qed

interpretation id_keeps_key: db_invariant fk "id_under_key i ns key" for fk i ns key
  by unfold_locales (rule id_under_key_change)

text \<open>A property that every change keeps is kept of the view of a transaction, whatever the committed
  database holds.\<close>

definition closed :: "env \<Rightarrow> (db \<Rightarrow> bool) \<Rightarrow> bool" where
  "closed E P \<longleftrightarrow> peers E \<and> (\<forall>d d'. (db_change (fk_on E))\<^sup>*\<^sup>* d d' \<longrightarrow> P d \<longrightarrow> P d')"

lemma closedI: "peers E \<Longrightarrow> (\<And>d d'. (db_change (fk_on E))\<^sup>*\<^sup>* d d' \<Longrightarrow> P d \<Longrightarrow> P d') \<Longrightarrow> closed E P"
  by (auto simp: closed_def)

lemma closed_facts:
  assumes "peers E"
  shows "closed E valid_db" "closed E (has_settled row)" "closed E (result_recorded key res)" "closed E (id_under_key i ns key)"
  using schema_valid.changes_keep settled_final.changes_keep recorded_final.changes_keep id_keeps_key.changes_keep assms
  by (blast intro: closedI)+

lemma closed_others: "closed E P \<Longrightarrow> P d \<Longrightarrow> P (others E i d)"
  using others_star unfolding closed_def by blast

definition keeps_view :: "env \<Rightarrow> (db \<Rightarrow> bool) \<Rightarrow> ('z, 'a) io \<Rightarrow> bool" where
  "keeps_view E P m \<longleftrightarrow> (\<forall>w. P (view w) \<longrightarrow> P (view (snd (m w))))"

named_theorems view_keeps \<open>Programs that keep a property of the view\<close>

lemma keeps_viewD: "keeps_view E P m \<Longrightarrow> m w = (r, w') \<Longrightarrow> P (view w) \<Longrightarrow> P (view w')"
  by (auto simp: keeps_view_def dest: spec [of _ w])

lemma keeps_view_pure [view_keeps]:
  "keeps_view E P (ret a)" "keeps_view E P (throw e)" "keeps_view E P (lift_sum r)"
  "keeps_view E P (utc_now E)" "keeps_view E P (uuid4 E)" "keeps_view E P (one_or_none rows)"
  by (simp_all add: keeps_view_def utc_now_def uuid4_def one_or_none_def)

lemma keeps_view_bnd [view_keeps]:
  assumes "keeps_view E P m" and "\<And>a. keeps_view E P (f a)"
  shows "keeps_view E P (bnd m f)"
  unfolding keeps_view_def
proof (intro allI impI)
  fix w :: "'a world_scheme" assume w: "P (view w)"
  obtain r w1 where m: "m w = (r, w1)" by fastforce
  from keeps_viewD [OF assms(1) m w] assms(2) show "P (view (snd (bnd m f w)))"
    by (cases r) (auto simp: bnd_apply m keeps_view_def)
qed

lemma keeps_view_cases [view_keeps]:
  "keeps_view E P m \<Longrightarrow> keeps_view E P n \<Longrightarrow> keeps_view E P (if b then m else n)"
  "keeps_view E P m \<Longrightarrow> (\<And>x. keeps_view E P (g x)) \<Longrightarrow> keeps_view E P (case v of None \<Rightarrow> m | Some x \<Rightarrow> g x)"
  "(\<And>x y. keeps_view E P (h x y)) \<Longrightarrow> keeps_view E P (case p of (x, y) \<Rightarrow> h x y)"
  by (auto split: option.splits prod.splits)

lemma keeps_view_sql [view_keeps]:
  assumes "closed E P" and "lawful_stmt (fk_on E) f"
  shows "keeps_view E P (sql E f)"
proof -
  have f: "P d'" if "f d = Inr (a, d')" "P d" for a d d'
    using assms that unfolding lawful_stmt_def closed_def by blast
  show ?thesis
    by (auto simp: keeps_view_def sql_def Let_def closed_others [OF assms(1)] split: option.splits sum.splits
        dest!: f [OF _ closed_others [OF assms(1)]])
qed

lemma keeps_view_start [view_keeps]:
  assumes "closed E P"
  shows "keeps_view E P (sql_select E q)" "keeps_view E P (idem_get_row E ns key)"
    "keeps_view E P (reclaim_if_expired E row ttl)"
proof -
  have s: "keeps_view E P (sql_select E q')" for q' :: "db \<Rightarrow> 'x"
    unfolding sql_select_def by (intro view_keeps assms) (simp add: lawful_stmt_def query_def)
  show "keeps_view E P (sql_select E q)" by (rule s)
  show "keeps_view E P (idem_get_row E ns key)" unfolding idem_get_row_def by (intro view_keeps s)
  show "keeps_view E P (reclaim_if_expired E row ttl)"
    unfolding reclaim_if_expired_def reclaim_stmt_def by (intro view_keeps s assms lawful_updates(5)) simp
qed

subsection \<open>A record that start reports completed is in the table\<close>

lemma select_row:
  assumes "idem_get_row E ns key w = (Inr (Some row), w')"
  shows "row \<in> set (tbl_idem (view w'))" and "at_key ns key row"
proof -
  have one: "scalar_one_or_none xs = Inr (Some r) \<Longrightarrow> xs = [r]" for xs and r :: idempotency_row
    by (auto simp: scalar_one_or_none_def split: list.splits)
  have "filter (at_key ns key) (tbl_idem (view w')) = [row]"
    using assms
    by (auto simp: idem_get_row_def one_or_none_def sql_select_def sql_def query_def Let_def
        elim!: bnd_InrE split: option.splits dest!: one)
  then have "row \<in> set (filter (at_key ns key) (tbl_idem (view w')))" by simp
  then show "row \<in> set (tbl_idem (view w'))" and "at_key ns key row" by simp_all
qed

lemma reclaim_row_read:
  assumes "reclaim_if_expired E row ttl w = (Inr (token, row'), w')"
  shows "row' = row \<or> row' \<in> set (tbl_idem (view w')) \<and> ir_id row' = ir_id row"
  using assms
  by (auto simp: reclaim_if_expired_def sql_select_def sql_def query_def Let_def find_Some_iff
      elim!: bnd_InrE split: if_splits option.splits sum.splits)


lemma claim_existing_completed_row:
  assumes pe: "peers E" and valid: "valid_db (view w)"
    and row: "row \<in> set (tbl_idem (view w))" "at_key ns key row"
    and c: "claim_existing E row ttl w = (Inr rec, w')" and st: "rec_state rec = IdemCompleted"
  shows "\<exists>r \<in> set (tbl_idem (view w')). at_key ns key r \<and> ir_state r = ''completed'' \<and> ir_result r = rec_result rec"
proof (cases "ir_state row = started")
  case True
  from c obtain token row' st' where
    r: "reclaim_if_expired E row ttl w = (Inr (token, row'), w')"
    and e: "enum_call idem_states idem_state_value (ir_state row') = Inr st'"
    and rec: "rec_state rec = st'" "rec_result rec = ir_result row'"
    using True by (auto simp: claim_existing_def elim!: bnd_InrE split: prod.splits)
  have s: "ir_state row' = ''completed''"
    using e rec(1) st idem_state_enum.value_find [of "ir_state row'" IdemCompleted]
    by (auto simp: enum_call_def split: option.splits)
  with True reclaim_row_read [OF r] have r': "row' \<in> set (tbl_idem (view w'))" "ir_id row' = ir_id row"
    by (auto simp: started_def)
  have "id_under_key (ir_id row) ns key (view w)" using row by (auto simp: id_under_key_def)
  from keeps_viewD [OF keeps_view_start(3) [OF closed_facts(4) [OF pe]] r this]
  obtain x where x: "x \<in> set (tbl_idem (view w'))" "ir_id x = ir_id row'" "at_key ns key x"
    using r'(2) by (auto simp: id_under_key_def)
  have "valid_db (view w')"
    using keeps_viewD [OF keeps_view_start(3) [OF closed_facts(1) [OF pe]] r valid] .
  from idem_row_only(1) [OF this r'(1) x(1)] x have "at_key ns key row'" by simp
  with r' s rec show ?thesis by auto
next
  case False
  with c st idem_state_enum.value_find [of "ir_state row" IdemCompleted]
  have "ir_state row = ''completed''" "w' = w" "rec_result rec = ir_result row"
    by (auto simp: claim_existing_def enum_call_def elim!: bnd_InrE split: option.splits prod.splits)
  with row show ?thesis by auto
qed


lemma idem_start_completed_row:
  assumes pe: "peers E" and valid: "valid_db (view w)"
    and s: "idem_start E ns key ttl w = (Inr rec, w')" and st: "rec_state rec = IdemCompleted"
  shows "\<exists>r \<in> set (tbl_idem (view w')). at_key ns key r \<and> ir_state r = ''completed'' \<and> ir_result r = rec_result rec"
proof -
  note c = closed_facts(1) [OF pe]
  from s obtain existing w1 where g: "idem_get_row E ns key w = (Inr existing, w1)"
    and rest: "(case existing of Some row \<Rightarrow> claim_existing E row ttl | None \<Rightarrow>
       bnd (uuid4 E) (\<lambda>token. try_except
         (bnd (uuid4 E) (\<lambda>i. bnd (utc_now E) (\<lambda>now. bnd (sql E (insert_idem (claim_row i ns key now token))) (\<lambda>_.
          ret \<lparr>rec_namespace = ns, rec_key = key, rec_state = IdemStarted, rec_result = [], rec_owned = True,
            rec_claim_token = Some token\<rparr>))))
         (\<lambda>e. if is_integrity_error e then bnd (idem_get_row E ns key) (\<lambda>raced. case raced of
              None \<Rightarrow> throw (raise_conflict ''The idempotency key is contended.'' ''idempotency_key_contended''
                [(''namespace'', PStr ns)])
            | Some row \<Rightarrow> claim_existing E row ttl) else throw e))) w1 = (Inr rec, w')"
    unfolding idem_start_def by (rule bnd_InrE)
  have v1: "valid_db (view w1)" by (rule keeps_viewD [OF keeps_view_start(2) [OF c] g valid])
  show ?thesis
  proof (cases existing)
    case (Some row)
    with rest claim_existing_completed_row [OF pe v1 select_row [OF g [unfolded Some]] _ st] show ?thesis by simp
  next
    case None
    define token where "token = uuids E (uuid_count w1)"
    let ?m = "bnd (uuid4 E) (\<lambda>i. bnd (utc_now E) (\<lambda>now. bnd (sql E (insert_idem (claim_row i ns key now token))) (\<lambda>_.
      ret \<lparr>rec_namespace = ns, rec_key = key, rec_state = IdemStarted, rec_result = [], rec_owned = True,
        rec_claim_token = Some token\<rparr>)))"
    let ?w1 = "w1\<lparr>uuid_count := Suc (uuid_count w1)\<rparr>"
    obtain r w2 where m: "?m ?w1 = (r, w2)" by fastforce
    have "keeps_view E valid_db ?m" by (intro view_keeps c lawful_inserts(7))
    from keeps_viewD [OF this m] v1 have v2: "valid_db (view w2)" by simp
    have "rec_state x = IdemStarted" if "?m ?w1 = (Inr x, w2)" for x
      using that by (auto elim!: bnd_InrE)
    note started = this
    let ?h = "\<lambda>e. if is_integrity_error e then bnd (idem_get_row E ns key) (\<lambda>raced. case raced of
              None \<Rightarrow> throw (raise_conflict ''The idempotency key is contended.'' ''idempotency_key_contended''
                [(''namespace'', PStr ns)])
            | Some row \<Rightarrow> claim_existing E row ttl) else throw e"
    have u: "uuid4 E w1 = (Inr token, ?w1)" by (simp add: uuid4_def token_def)
    have t: "try_except ?m ?h ?w1 = (Inr rec, w')"
      using rest unfolding None option.case by (subst (asm) bnd_step_Inr [where m = "uuid4 E", OF u])
    then obtain e where e: "r = Inl e"
      using m started st by (cases r) (auto simp: try_step_Inr)
    from t have "?h e w2 = (Inr rec, w')" by (simp only: try_step_Inl [where m = ?m and h = ?h, OF m [unfolded e]])
    then obtain row w3 where g2: "idem_get_row E ns key w2 = (Inr (Some row), w3)"
      and ce: "claim_existing E row ttl w3 = (Inr rec, w')"
      by (auto elim!: bnd_InrE split: if_splits option.splits)
    have "valid_db (view w3)" by (rule keeps_viewD [OF keeps_view_start(2) [OF c] g2 v2])
    from claim_existing_completed_row [OF pe this select_row [OF g2] ce st] show ?thesis .
  qed
qed

lemma uow_view_committed:
  assumes "peers E" and "closed E P" and "tx_local E body" and "uow E body w = (Inr a, w')"
  obtains w1 where "body (open_session w) = (Inr a, w1)" "P (view w1) \<Longrightarrow> P (committed w')"
    "llm_calls w' = llm_calls w"
proof -
  obtain r w1 where b: "body (open_session w) = (r, w1)" by fastforce
  show thesis
  proof (cases r)
    case (Inl e)
    from uow_body_raises(3) [OF assms(3) b [unfolded Inl] assms(4)] show ?thesis by simp
  next
    case (Inr x)
    from uow_body_returns(1,5) [OF assms(3) b [unfolded Inr] assms(4)] b Inr closed_others [OF assms(2)] that
    show ?thesis by auto
  qed
qed

lemma check_records:
  assumes pe: "peers E" and valid: "valid_db (committed w)"
    and c: "check_idempotency E key w = (Inr (Some res, cl), w')"
  shows "result_recorded key res (committed w')"
proof -
  from c obtain rec where
    u: "uow E (idem_start E idempotency_namespace key default_claim_ttl_seconds) w = (Inr rec, w')"
    and st: "rec_state rec = IdemCompleted" "result_from_stored (rec_result rec) = Inr res"
    by (auto simp: check_idempotency_def elim!: bnd_InrE split: if_splits option.splits)
  from uow_view_committed [OF pe closed_facts(3) [OF pe] tx_local_idem_start u] obtain w1 where
    s: "idem_start E idempotency_namespace key default_claim_ttl_seconds (open_session w) = (Inr rec, w1)"
    and k: "result_recorded key res (view w1) \<Longrightarrow> result_recorded key res (committed w')" by blast
  from idem_start_completed_row [OF pe _ s st(1)] valid st(2) have "result_recorded key res (view w1)"
    by (auto simp: idle_open result_recorded_def)
  then show ?thesis by (rule k)
qed

lemma finish_turn_records:
  assumes pe: "peers E" and "finish_turn E c resp content (Some cl) w = (Inr res, w')"
  shows "result_recorded (claim_key cl) res (committed w')"
proof -
  from finish_turn_Inr [OF assms(2)] obtain m w3 where
    "uow E (persist_outcome E m res (Some cl)) w3 = (Inr (), w')" by blast
  from uow_view_committed [OF pe closed_facts(3) [OF pe] tx_local_persist this] obtain w4 where
    p: "persist_outcome E m res (Some cl) (open_session w3) = (Inr (), w4)"
    and k: "result_recorded (claim_key cl) res (view w4) \<Longrightarrow> result_recorded (claim_key cl) res (committed w')"
    by blast
  from p obtain w5 where
    "idem_settle E idempotency_namespace (claim_key cl) (claim_token cl) IdemCompleted (result_to_stored res) w5 = (Inr (), w4)"
    by (auto simp: persist_outcome_def idem_complete_def elim!: bnd_InrE)
  from idem_settle_success [OF this] obtain d p where one: "length (filter p (tbl_idem d)) = 1"
    and p: "p = (\<lambda>x. (at_key idempotency_namespace (claim_key cl) x \<and> ir_claim_token x = claim_token cl) \<and> ir_state x = started)"
    and v: "view w4 = d\<lparr>tbl_idem := update_where p
      (\<lambda>x. x\<lparr>ir_state := idem_state_value IdemCompleted, ir_result := result_to_stored res\<rparr>) (tbl_idem d)\<rparr>" by blast
  from one obtain row where "row \<in> set (filter p (tbl_idem d))" by (cases "filter p (tbl_idem d)") auto
  then have row: "row \<in> set (tbl_idem d)" "p row" by simp_all
  let ?row = "row\<lparr>ir_state := idem_state_value IdemCompleted, ir_result := result_to_stored res\<rparr>"
  have "?row \<in> set (tbl_idem (view w4))" using row by (auto simp: v update_where_def intro!: image_eqI [of _ _ row])
  moreover have "at_key idempotency_namespace (claim_key cl) ?row" using row(2) by (simp add: p at_key_def)
  ultimately have "result_recorded (claim_key cl) res (view w4)"
    using result_stored_back by (force simp: result_recorded_def)
  then show ?thesis by (rule k)
qed

lemma returned_is_recorded:
  assumes pe: "peers E" and valid: "valid_db (committed w)" and key: "cmd_idempotency_key cmd = Some key"
    and x: "execute E prompt cmd w = (Inr res, w')"
  shows "result_recorded key res (committed w')"
proof -
  from x key obtain cached cl body w1 where c: "check_idempotency E key w = (Inr (cached, cl), w1)"
    and rest: "(case cached of Some r \<Rightarrow> ret r | None \<Rightarrow> execute_claimed E prompt cmd body cl) w1 = (Inr res, w')"
    by (auto simp: execute_def elim!: bnd_InrE split: prod.splits)
  show ?thesis
  proof (cases cached)
    case (Some r)
    with rest check_records [OF pe valid c [unfolded Some]] show ?thesis by simp
  next
    case None
    from check_claim_key [OF c [unfolded None]] obtain t where
      cl: "cl = Some \<lparr>claim_key = key, claim_token = t\<rparr>" by blast
    from rest None execute_claimed_Inr obtain c' resp content w2 where
      "finish_turn E c' resp content cl w2 = (Inr res, w')" by fastforce
    from finish_turn_records [OF pe this [unfolded cl]] show ?thesis by simp
  qed
qed

subsection \<open>A recorded result is the only one that is returned\<close>

lemma check_returns_recorded:
  assumes pe: "peers E" and valid: "valid_db (committed w)" and rec: "result_recorded key res (committed w)"
    and c: "check_idempotency E key w = (Inr (cached, cl), w')"
  shows "cached = Some res \<and> llm_calls w' = llm_calls w"
proof -
  from rec obtain row where row: "row \<in> set (tbl_idem (committed w))" "at_key idempotency_namespace key row"
    "ir_state row = ''completed''" "result_from_stored (ir_result row) = Inr res" by (auto simp: result_recorded_def)
  from c obtain rec where
    u: "uow E (idem_start E idempotency_namespace key default_claim_ttl_seconds) w = (Inr rec, w')"
    and b: "(if rec_state rec = IdemCompleted
       then bnd (lift_sum (result_from_stored (rec_result rec))) (\<lambda>r. ret (Some r, None))
       else if rec_state rec = IdemFailed
       then throw (raise_conflict ''A previous attempt for this request failed and was not retried.''
              ''agent_run_idempotency_failed'' [])
       else case rec_claim_token rec of
         None \<Rightarrow> throw (raise_conflict ''This request is already being processed.'' ''agent_run_in_progress'' [])
       | Some token \<Rightarrow> if \<not> rec_owned rec
           then throw (raise_conflict ''This request is already being processed.'' ''agent_run_in_progress'' [])
           else ret (None, Some \<lparr>claim_key = key, claim_token = token\<rparr>)) w' = (Inr (cached, cl), w')"
    unfolding check_idempotency_def by (auto elim!: bnd_InrE split: if_splits option.splits)
  from uow_view_committed [OF pe closed_facts(1) [OF pe] tx_local_idem_start u] obtain w1 where
    s: "idem_start E idempotency_namespace key default_claim_ttl_seconds (open_session w) = (Inr rec, w1)"
    and calls: "llm_calls w' = llm_calls w" by blast
  from s obtain existing w2 where g: "idem_get_row E idempotency_namespace key (open_session w) = (Inr existing, w2)"
    by (auto simp: idem_start_def elim!: bnd_InrE)
  have v2: "valid_db (view w2)"
    using keeps_viewD [OF keeps_view_start(2) [OF closed_facts(1) [OF pe]] g] valid by (simp add: idle_open)
  have s2: "has_settled row (view w2)"
    using keeps_viewD [OF keeps_view_start(2) [OF closed_facts(2) [OF pe]] g, of row]
      completed_is_settled [OF row(1,3)] by (simp add: idle_open)
  then have in2: "row \<in> set (tbl_idem (view w2))" by (simp add: has_settled_def)
  have "filter (at_key idempotency_namespace key) (tbl_idem (view w2)) = [row]"
    using idem_row_only(4) [OF v2 in2] row(2) by (simp add: at_key_def)
  then have "existing = Some row"
    using g by (auto simp: idem_get_row_def one_or_none_def sql_select_def sql_def query_def Let_def
        elim!: bnd_InrE split: option.splits)
  with s g have "claim_existing E row default_claim_ttl_seconds w2 = (Inr rec, w1)"
    by (simp add: idem_start_def bnd_apply)
  with claim_existing_settled [of row IdemCompleted E default_claim_ttl_seconds w2] row(3)
  have "rec_state rec = IdemCompleted" "rec_result rec = ir_result row" by auto
  with b row(4) calls show ?thesis by simp
qed

text \<open>C3: a key has one result. Whatever faults and other workers interfere, if one request under a key returns
  a result and any later request under the key (of any worker, any time after) returns at all, it returns the
  same result, without calling the provider.\<close>

theorem one_result_per_key:
  assumes "peers E" and "idle w" and "valid_db (committed w)" and "cmd_idempotency_key cmd = Some key"
    and "execute E prompt cmd w = (Inr res, w1)"
    and "(db_change fk)\<^sup>*\<^sup>* (committed w1) (committed w2)"
    and "peers E'" and "idle w2" and "cmd_idempotency_key cmd' = Some key"
    and "execute E' prompt' cmd' w2 = (Inr res', w3)"
  shows "res' = res \<and> llm_calls w3 = llm_calls w2"
proof -
  have "valid_db (committed w1)"
    using lawful_valid [OF lawful_execute assms(1), of w prompt cmd] assms(2,3,5) by (simp add: idle_def)
  then have valid: "valid_db (committed w2)" by (rule schema_valid.changes_keep [OF assms(6)])
  have rec: "result_recorded key res (committed w2)"
    by (rule recorded_final.changes_keep [OF assms(6) returned_is_recorded [OF assms(1,3,4,5)]])
  from assms(9,10) obtain cached cl body w4 where c: "check_idempotency E' key w2 = (Inr (cached, cl), w4)"
    and rest: "(case cached of Some r \<Rightarrow> ret r | None \<Rightarrow> execute_claimed E' prompt' cmd' body cl) w4 = (Inr res', w3)"
    by (auto simp: execute_def elim!: bnd_InrE split: prod.splits)
  from check_returns_recorded [OF assms(7) valid rec c] rest show ?thesis by auto
qed


theorem one_result_per_key_witness:
  "\<exists>res w1 res' w3. execute quiet_env default_system_prompt keyed_command (turn_world_of sample_db) = (Inr res, w1) \<and>
     execute quiet_env default_system_prompt (keyed_command\<lparr>cmd_telegram_user_id := 99\<rparr>) (turn_world_of (committed w1)) = (Inr res', w3) \<and>
     res' = res \<and> llm_calls w3 = []"
proof -
  let ?w = "turn_world_of sample_db" and ?cmd = "keyed_command\<lparr>cmd_telegram_user_id := 99\<rparr>"
  obtain r w1 where p: "execute quiet_env default_system_prompt keyed_command ?w = (r, w1)" by fastforce
  with keyed_answers obtain res where "r = Inr res" by (cases r) auto
  with p have x: "execute quiet_env default_system_prompt keyed_command ?w = (Inr res, w1)" by simp
  have v: "valid_db (committed ?w)" by (simp add: sample_valid)
  have key: "cmd_idempotency_key keyed_command = Some ''k1''" "cmd_idempotency_key ?cmd = Some ''k1''"
    by (simp_all add: keyed_command_def)
  let ?w2 = "turn_world_of (committed w1)"
  from lawful_valid [OF lawful_execute quiet_peers, of ?w default_system_prompt keyed_command] v x
  have v1: "valid_db (committed ?w2)" by simp
  from returned_is_completed [OF quiet_reliable v key(1) x] obtain row where
    row: "row \<in> set (tbl_idem (committed ?w2))" "at_key idempotency_namespace ''k1'' row" "ir_state row = ''completed''"
      "result_from_stored (ir_result row) = Inr res" by auto
  from check_completed [OF quiet_reliable v1 row] obtain w3 where
    "check_idempotency quiet_env ''k1'' ?w2 = (Inr (Some res, None), w3)" by blast
  then have y: "execute quiet_env default_system_prompt ?cmd ?w2 = (Inr res, w3)"
    by (simp add: execute_def keyed_input bnd_apply key(2))
  have "(db_change True)\<^sup>*\<^sup>* (committed w1) (committed ?w2)" by simp
  from one_result_per_key [OF quiet_peers sample_idle v key(1) x this quiet_peers sample_idle key(2) y] x y
  show ?thesis by auto
qed

end
