(* ===== verification/Turn_Crash.thy ===== *)
theory Turn_Crash
  imports Turn_Outcome
begin

section \<open>A turn whose statements fail\<close>

text \<open>
  What a turn leaves behind when any of its round trips to the database fails, when a commit fails
  before or after it took effect, and when the provider fails. \<open>calm E\<close> is the environment \<open>E\<close>
  without the faults of its driver. A program that returns under \<open>E\<close> met no fault, so it does the same
  under \<open>calm E\<close> (\<open>calms\<close>); a unit of work that raises left the database as it was, or as it would
  be had it returned.
\<close>

definition calm :: "env \<Rightarrow> env" where
  "calm E = E\<lparr>fault := \<lambda>_. None\<rparr>"

lemma calm_fields [simp]:
  "clock (calm E) = clock E" "uuids (calm E) = uuids E" "fault (calm E) i = None" "others (calm E) = others E"
  "backend_dt (calm E) = backend_dt E" "fk_on (calm E) = fk_on E" "llm (calm E) = llm E"
  by (simp_all add: calm_def)

subsection \<open>What does not depend on the faults\<close>

lemma calm_rows [simp]:
  "message_to_domain (calm E) = message_to_domain E" "step_to_domain (calm E) = step_to_domain E"
  by (simp_all add: fun_eq_iff message_to_domain_def step_to_domain_def)

lemma calm_pure [simp]:
  "run_of_rows (calm E) = run_of_rows E" "stored_history (calm E) = stored_history E"
  by (intro ext; simp add: run_of_rows_def stored_history_def)+

lemma calm_stored_run [simp]: "stored_run (calm E) = stored_run E"
  unfolding stored_run_def calm_pure ..

lemma calm_turn [simp]:
  "user_message (calm E) = user_message E" "started_run (calm E) = started_run E"
  "assistant_message (calm E) = assistant_message E" "answered_run (calm E) = answered_run E"
  "failed_run (calm E) = failed_run E"
  by (simp_all add: fun_eq_iff user_message_def started_run_def assistant_message_def answered_run_def failed_run_def)

subsection \<open>Programs that met no fault\<close>

definition calms :: "('z, 'a) io \<Rightarrow> ('z, 'a) io \<Rightarrow> bool" where
  "calms m m' \<longleftrightarrow> (\<forall>w a w'. m w = (Inr a, w') \<longrightarrow> m' w = (Inr a, w'))"

named_theorems calm_rules \<open>Programs that do the same without faults when they return\<close>

lemma calmsD: "calms m m' \<Longrightarrow> m w = (Inr a, w') \<Longrightarrow> m' w = (Inr a, w')"
  by (simp add: calms_def)

lemma calms_same: "calms m m"
  by (simp add: calms_def)

lemma calms_bnd [calm_rules]:
  "calms m m' \<Longrightarrow> (\<And>a. calms (f a) (f' a)) \<Longrightarrow> calms (bnd m f) (bnd m' f')"
  by (auto simp: calms_def intro: bnd_step_Inr [THEN trans] elim!: bnd_InrE)

lemma calms_leaves [calm_rules]:
  "calms (ret a) (ret a)" "calms (throw e) (throw e)" "calms (lift_sum r) (lift_sum r)" "calms (gets g) (gets g)"
  "calms (modify h) (modify h)" "calms (remember upd k) (remember upd k)" "calms (one_or_none rows) (one_or_none rows)"
  by (rule calms_same)+

lemma calms_env [calm_rules]:
  "calms (utc_now E) (utc_now (calm E))" "calms (uuid4 E) (uuid4 (calm E))"
  "calms (call_method E nu nc p) (call_method (calm E) nu nc p)" "calms (sql E f) (sql (calm E) f)"
  by (auto simp: calms_def utc_now_def uuid4_def call_method_def sql_def Let_def split: option.splits sum.splits)

lemma calms_select [calm_rules]: "calms (sql_select E q) (sql_select (calm E) q)"
  unfolding sql_select_def by (intro calm_rules)

lemma calms_cases [calm_rules]:
  "calms m m' \<Longrightarrow> calms n n' \<Longrightarrow> calms (if b then m else n) (if b then m' else n')"
  "calms m m' \<Longrightarrow> (\<And>x. calms (g x) (g' x)) \<Longrightarrow>
     calms (case v of None \<Rightarrow> m | Some x \<Rightarrow> g x) (case v of None \<Rightarrow> m' | Some x \<Rightarrow> g' x)"
  "(\<And>x y. calms (h x y) (h' x y)) \<Longrightarrow> calms (case p of (x, y) \<Rightarrow> h x y) (case p of (x, y) \<Rightarrow> h' x y)"
  by (auto split: option.splits prod.splits)

lemma calms_map_each [calm_rules]: "(\<And>x. calms (g x) (g' x)) \<Longrightarrow> calms (map_each g xs) (map_each g' xs)"
  by (induction xs) (auto intro!: calm_rules)

lemma calms_for_each [calm_rules]: "(\<And>x. calms (g x) (g' x)) \<Longrightarrow> calms (for_each xs g) (for_each xs g')"
  by (induction xs) (auto intro!: calm_rules)

lemma calms_session_get [calm_rules]: "calms (session_get E tbl upd p) (session_get (calm E) tbl upd p)"
  unfolding session_get_def by (intro calm_rules)

lemma calms_load [calm_rules]:
  "calms (load_role E row) (load_role (calm E) row)" "calms (load_messages E cid n) (load_messages (calm E) cid n)"
  "calms (run_to_domain E rrow) (run_to_domain (calm E) rrow)"
  unfolding load_role_def load_messages_def run_to_domain_def calm_rows calm_pure by (intro calm_rules)+

lemma calms_get [calm_rules]:
  "calms (get_by_telegram_identity E tid) (get_by_telegram_identity (calm E) tid)"
  "calms (conversations_get E cid n) (conversations_get (calm E) cid n)"
  "calms (runs_get E i) (runs_get (calm E) i)"
  unfolding get_by_telegram_identity_def users_get_def get_user_row_def user_to_domain_def load_roles_def
    conversations_get_def get_conversation_row_def conversation_to_domain_def runs_get_def get_run_row_def
    calm_rows calm_pure calm_fields
  by (intro calm_rules)+

lemma calms_write [calm_rules]:
  "calms (append_step E s) (append_step (calm E) s)"
  "calms (conversations_append_message E m) (conversations_append_message (calm E) m)"
  unfolding append_step_def conversations_append_message_def calm_fields by (intro calm_rules)+

lemma calms_runs [calm_rules]:
  "calms (runs_add E r) (runs_add (calm E) r)" "calms (runs_save E r) (runs_save (calm E) r)"
  "calms (idem_settle E ns key token st res) (idem_settle (calm E) ns key token st res)"
  unfolding runs_add_def runs_save_def get_run_row_def idem_settle_def idem_get_row_def Let_def calm_fields
  by (intro calm_rules)+

lemma calms_uow [calm_rules]:
  assumes "calms body body'"
  shows "calms (uow E body) (uow (calm E) body')"
  unfolding calms_def
proof (intro allI impI)
  fix w a w' assume u: "uow E body w = (Inr a, w')"
  obtain r w1 where b: "body (open_session w) = (r, w1)" by fastforce
  from u b obtain x where r: "r = Inr x"
    by (cases r) (auto simp: uow_def elim!: bnd_InrE)
  from calmsD [OF assms b [unfolded r]] u b r show "uow (calm E) body' w = (Inr a, w')"
    by (auto simp: uow_def uow_exit_def translate_database_errors_def commit_session_def try_finally_def try_except_def
        bnd_apply Let_def split: option.splits)
qed

lemma calms_start_body [calm_rules]: "calms (start_turn_body E cmd body) (start_turn_body (calm E) cmd body)"
  unfolding start_turn_body_def resolve_current_actor_def load_owned_conversation_def create_run_def run_method_def
  by (intro calm_rules)

lemma calms_turn [calm_rules]:
  "calms (start_turn E cmd body) (start_turn (calm E) cmd body)"
  "calms (persist_outcome E m res claim) (persist_outcome (calm E) m res claim)"
  "calms (settle_run_body E reason) (settle_run_body (calm E) reason)"
  "calms (idem_fail E ns key reason token) (idem_fail (calm E) ns key reason token)"
  unfolding start_turn_def persist_outcome_def idem_complete_def settle_run_body_def idem_fail_def Let_def
  by (intro calm_rules)+

lemma calms_finish [calm_rules]:
  "calms (finish_turn E c resp content claim) (finish_turn (calm E) c resp content claim)"
  unfolding finish_turn_def run_method_def Let_def by (intro calm_rules)

lemma call_model_calm [simp]: "call_model (calm E) = call_model E"
proof -
  have u: "utc_now (calm E) = (utc_now E :: ('b, datetime) io)" for E :: env
    by (intro ext) (simp add: utc_now_def)
  have p: "provider_complete (calm E) = (provider_complete E :: int \<Rightarrow> llm_request \<Rightarrow> ('a, llm_response) turn)"
    by (intro ext) (simp add: provider_complete_def)
  show ?thesis unfolding call_model_def remaining_microseconds_def u p ..
qed

lemma calms_answer [calm_rules]:
  "calms (answer_turn E prompt cmd c claim) (answer_turn (calm E) prompt cmd c claim)"
  unfolding answer_turn_def call_model_calm by (intro calm_rules calms_same)


subsection \<open>Units of work that raise\<close>

lemma calm_others: "reliable (calm E) \<Longrightarrow> others E i d = d"
  by (simp add: reliable_def)

lemma calm_others_run: "reliable (calm E) \<Longrightarrow> others_run E i j d = d"
proof -
  assume r: "reliable (calm E)"
  have "others_run (calm E) i j d = others_run E i j d" by (simp add: others_run_def)
  with others_run_reliable [OF r] show ?thesis by simp
qed

lemma uow_faulty:
  assumes E: "reliable (calm E)" and "tx_local E body" and "calms body body'" and "uow E body w = (r, w')"
  shows "committed w' = committed w \<and> (\<exists>e. r = Inl e) \<or>
    (\<exists>a w''. uow (calm E) body' w = (Inr a, w'') \<and> committed w' = committed w'' \<and> (\<forall>x. r = Inr x \<longrightarrow> x = a))"
proof -
  obtain q w1 where b: "body (open_session w) = (q, w1)" by fastforce
  show ?thesis
  proof (cases q)
    case (Inl e)
    from uow_body_raises(1,3) [OF assms(2) b [unfolded Inl] assms(4)] show ?thesis
      by (simp add: calm_others_run [OF E])
  next
    case (Inr a)
    from calmsD [OF assms(3) b [unfolded Inr]] have
      c: "uow (calm E) body' w = (Inr a, w1\<lparr>committed := view w1, sql_count := Suc (sql_count w1), tx_open := False\<rparr>)"
      by (simp add: reliable_uow [OF E])
    from uow_body_returns(1) [OF assms(2) b [unfolded Inr] assms(4)] c show ?thesis
      by (auto simp: calm_others [OF E] calm_others_run [OF E] split: if_splits)
  qed
qed

lemma caught_unit:
  assumes E: "reliable (calm E)" and "tx_local E body" and "calms body body'"
    and "try_except (uow E body) h w = (r, w')" and "\<And>e v. committed (snd (h e v)) = committed v"
  shows "committed w' = committed w \<or> (\<exists>a w''. uow (calm E) body' w = (Inr a, w'') \<and> committed w' = committed w'')"
proof -
  obtain q w1 where u: "uow E body w = (q, w1)" by fastforce
  have "committed w' = committed w1"
    using assms(4) u assms(5) by (cases q) (auto simp: try_except_def dest: arg_cong [of _ _ "\<lambda>p. committed (snd p)"])
  with uow_faulty [OF E assms(2,3) u] show ?thesis by auto
qed

subsection \<open>The parts of a turn that raises\<close>

lemma calm_call_method [simp]: "call_method (calm E) nu nc p = call_method E nu nc p"
  by (intro ext) (simp add: call_method_def)

lemma calm_run_method [simp]: "run_method (calm E) nu nc f = run_method E nu nc f"
  unfolding run_method_def calm_call_method ..

lemma finish_turn_faulty:
  assumes E: "reliable (calm E)" and "finish_turn E c resp content claim w = (Inl e, w')"
  shows "same_store w w' \<or> (\<exists>res w''. finish_turn (calm E) c resp content claim w = (Inr res, w'') \<and>
    committed w' = committed w'' \<and> run_id (mem_run w') = run_id (mem_run w))"
proof -
  let ?meta = "if resp_provider_metadata resp = [] then None else Some (resp_provider_metadata resp)"
  let ?A = "call_method E 1 2 (\<lambda>ids t. append_message RoleAssistant content ?meta (ids 0) (t 0) (t 1) c)"
  let ?B = "run_method E 1 1 (\<lambda>ids t. record_step StepValidation None (ids 0) (t 0))"
  let ?C = "run_method E 1 2 (\<lambda>ids t. finish_run content (Some (usage_dict (resp_usage resp))) (ids 0) (t 0) (t 1))"
  let ?R = "\<lambda>m c' run. \<lparr>res_run_id = run_id run, res_conversation_id = conv_id c', res_message_id = msg_id m,
    res_response = content, res_status = run_status run, res_usage = usage_dict (resp_usage resp)\<rparr>"
  consider "?A w = (Inl e, w')"
    | m c' w1 where "?A w = (Inr (m, c'), w1)" "?B w1 = (Inl e, w')"
    | m c' w1 w2 where "?A w = (Inr (m, c'), w1)" "?B w1 = (Inr (), w2)" "?C w2 = (Inl e, w')"
    | m c' w1 w2 w3 where "?A w = (Inr (m, c'), w1)" "?B w1 = (Inr (), w2)" "?C w2 = (Inr (), w3)"
        "uow E (persist_outcome E m (?R m c' (mem_run w3)) claim) w3 = (Inl e, w')"
    using assms(2) by (fastforce simp: finish_turn_def Let_def elim!: bnd_InlE split: prod.splits)
  then show ?thesis
  proof cases
    case 1
    then show ?thesis by (auto dest!: method_Inl simp: same_store_def)
  next
    case 2
    then show ?thesis by (auto dest!: run_method_Inl simp: same_store_def method_Inr)
  next
    case 3
    then show ?thesis
      by (auto dest!: run_method_Inl simp: same_store_def method_Inr run_method_Inr record_step_Inr_iff)
  next
    case 4
    let ?res = "?R m c' (mem_run w3)"
    have s3: "same_store w w3" using 4(1-3)
      by (auto simp: same_store_def method_Inr run_method_Inr record_step_Inr_iff finish_run_Inr_iff)
    have q: "mem_run w' = mem_run w3" "uuid_count w' = uuid_count w3"
      using quiet_progD [OF quiet_uow [OF quiet_persist] 4(4)] by simp_all
    from uow_faulty [OF E tx_local_persist calms_turn(2) 4(4)] show ?thesis
    proof (elim disjE exE conjE)
      assume "committed w' = committed w3"
      with s3 q show ?thesis by (simp add: same_store_def)
    next
      fix u w'' assume u: "uow (calm E) (persist_outcome (calm E) m ?res claim) w3 = (Inr u, w'')"
        and c: "committed w' = committed w''"
      have "finish_turn (calm E) c resp content claim w = (Inr ?res, w'')"
        using 4(1-3) u by (simp add: finish_turn_def Let_def bnd_apply)
      with c q s3 show ?thesis by (auto simp: same_store_def)
    qed
  qed
qed

lemma answer_turn_faulty:
  assumes E: "reliable (calm E)" and "answer_turn E prompt cmd c claim w = (Inl e, w')"
  shows "same_store w w' \<or> (\<exists>res w''. answer_turn (calm E) prompt cmd c claim w = (Inr res, w'') \<and>
    committed w' = committed w'' \<and> run_id (mem_run w') = run_id (mem_run w))"
proof -
  from assms(2) consider "w' = w" | req where "call_model E req w = (Inl e, w')"
    | req resp w1 where "call_model E req w = (Inr resp, w1)" "w' = w1"
    | req resp content w1 where "build_request prompt cmd c = Inr req" "call_model E req w = (Inr resp, w1)"
        "validate_response resp = Inr content" "finish_turn E c resp content claim w1 = (Inl e, w')"
    by (fastforce simp: answer_turn_def elim!: bnd_InlE)
  then show ?thesis
  proof cases
    case 4
    note fr = call_model_frame [OF 4(2)]
    from finish_turn_faulty [OF E 4(4)] show ?thesis
    proof (elim disjE exE conjE)
      assume "same_store w1 w'"
      with fr show ?thesis by (simp add: same_store_def)
    next
      fix res w'' assume "finish_turn (calm E) c resp content claim w1 = (Inr res, w'')"
        and "committed w' = committed w''" "run_id (mem_run w') = run_id (mem_run w1)"
      with 4 fr show ?thesis by (auto simp: answer_turn_def bnd_apply)
    qed
  qed (auto simp: same_store_def dest!: call_model_frame)
qed

subsection \<open>Settlements that may fail\<close>

definition claims_failed :: "db \<Rightarrow> db \<Rightarrow> bool" where
  \<comment> \<open>\<open>d'\<close> is \<open>d\<close> but for claims that were open and are failed\<close>
  "claims_failed d d' \<longleftrightarrow> (\<exists>q res. d' = d\<lparr>tbl_idem := update_where (\<lambda>r. q r \<and> ir_state r = started)
     (\<lambda>r. r\<lparr>ir_state := ''failed'', ir_result := res\<rparr>) (tbl_idem d)\<rparr>)"

lemma claims_failed_refl: "claims_failed d d"
proof -
  have "update_where (\<lambda>r. False \<and> ir_state r = started) f rows = rows" for f and rows :: "idempotency_row list"
    by (rule update_where_id) simp
  then show ?thesis
    unfolding claims_failed_def by (intro exI [of _ "\<lambda>_. False"]) simp
qed

definition completed_claims :: "db \<Rightarrow> idempotency_row set" where
  "completed_claims d = {r \<in> set (tbl_idem d). ir_state r = ''completed''}"

lemma claims_failed_frame:
  assumes "claims_failed d d'"
  shows "tbl_messages d' = tbl_messages d" and "stored_run E i d' = stored_run E i d"
    and "stored_history E i d' = stored_history E i d" and "completed_claims d' = completed_claims d"
proof -
  from assms show m: "tbl_messages d' = tbl_messages d" by (auto simp: claims_failed_def)
  from assms show "stored_run E i d' = stored_run E i d"
    by (intro stored_run_frame) (auto simp: claims_failed_def)
  show "stored_history E i d' = stored_history E i d" by (rule stored_history_frame [OF m])
  from assms show "completed_claims d' = completed_claims d"
    by (auto simp: claims_failed_def completed_claims_def update_where_def started_def)
qed

lemma settle_failed_claim_faulty:
  assumes E: "reliable (calm E)" and "settle_failed_claim E cl reason w = (r, w')"
  shows "claims_failed (committed w) (committed w')"
proof -
  let ?body = "\<lambda>E. idem_fail E idempotency_namespace (claim_key cl) reason (claim_token cl)"
  from caught_unit [OF E tx_local_idem(4) calms_turn(4) assms(2) [unfolded settle_failed_claim_def]]
  have "committed w' = committed w \<or> (\<exists>a w''. uow (calm E) (?body (calm E)) w = (Inr a, w'') \<and> committed w' = committed w'')"
    by (simp add: log_event_def)
  then show ?thesis
  proof (elim disjE exE conjE)
    assume "committed w' = committed w"
    then show ?thesis by (simp add: claims_failed_refl)
  next
    fix a :: unit and w'' assume u: "uow (calm E) (?body (calm E)) w = (Inr a, w'')" and c: "committed w' = committed w''"
    from uow_reliable_Inr [OF E u] obtain w1 where b: "?body (calm E) (open_session w) = (Inr (), w1)"
      and "committed w'' = view w1" by auto
    with idem_settle_success [OF b [unfolded idem_fail_def]] c show ?thesis
      unfolding claims_failed_def
      by (intro exI [of _ "\<lambda>x. at_key idempotency_namespace (claim_key cl) x \<and> ir_claim_token x = claim_token cl"]
          exI [of _ "[(''reason'', PStr reason)]"]) (simp add: calm_others [OF E] open_session_def)
  qed
qed

lemma settle_failed_run_faulty:
  assumes ready: "store_ready (calm E) r n (committed w)" and run: "run_status r = RunRunning"
    and rid: "run_id (mem_run w) = run_id r"
    and new: "uuids E (uuid_count w) \<notin> used_ids (committed w)"
    and s: "settle_failed_run E reason w = (x, w')"
  shows "\<exists>run. stored_run E (run_id r) (committed w') = Inr (Some run) \<and> run_status run \<in> {RunRunning, RunFailed} \<and>
    tbl_messages (committed w') = tbl_messages (committed w) \<and> tbl_idem (committed w') = tbl_idem (committed w)"
proof -
  have E: "reliable (calm E)" using ready by (simp add: store_ready_def)
  from caught_unit [OF E tx_local_settle_run calms_turn(3) s [unfolded settle_failed_run_def]]
  have "committed w' = committed w \<or>
      (\<exists>a w''. uow (calm E) (settle_run_body (calm E) reason) w = (Inr a, w'') \<and> committed w' = committed w'')"
    by (simp add: log_event_def)
  then show ?thesis
  proof (elim disjE exE conjE)
    assume "committed w' = committed w"
    with ready run show ?thesis by (intro exI [of _ r]) (simp add: store_ready_def)
  next
    fix a w'' assume u: "uow (calm E) (settle_run_body (calm E) reason) w = (Inr a, w'')" and c: "committed w' = committed w''"
    from settle_failed_run_effect [OF ready run rid, of reason] new obtain v where
      "settle_failed_run (calm E) reason w = (Inr (), v)"
      and e: "stored_run E (run_id r) (committed v) = Inr (Some (failed_run E r reason (uuid_count w) (clock_count w)))"
        "tbl_messages (committed v) = tbl_messages (committed w)" "tbl_idem (committed v) = tbl_idem (committed w)"
      by auto
    with u have "v = w''" by (simp add: settle_failed_run_def try_except_def)
    with e c show ?thesis by (simp add: failed_run_def)
  qed
qed

lemma settle_finished_run_faulty:
  assumes E: "reliable (calm E)" and st: "stored_run E (run_id (mem_run w)) (committed w) = Inr (Some run)"
    and "run_status run \<in> terminal_run_statuses" and "run_id run = run_id (mem_run w)"
    and s: "settle_failed_run E reason w = (x, w')"
  shows "committed w' = committed w"
proof -
  from caught_unit [OF E tx_local_settle_run calms_turn(3) s [unfolded settle_failed_run_def]]
  have "committed w' = committed w \<or>
      (\<exists>a w''. uow (calm E) (settle_run_body (calm E) reason) w = (Inr a, w'') \<and> committed w' = committed w'')"
    by (simp add: log_event_def)
  then show ?thesis
  proof (elim disjE exE conjE)
    fix a :: unit and w'' assume u: "uow (calm E) (settle_run_body (calm E) reason) w = (Inr a, w'')" and c: "committed w' = committed w''"
    from uow_reliable_Inr [OF E u] obtain w1 where b: "settle_run_body (calm E) reason (open_session w) = (Inr a, w1)"
      and v: "committed w'' = view w1" by auto
    have "stored_run (calm E) (run_id (mem_run w)) (view (open_session w)) = Inr (Some run)"
      "idmap (open_session w) = empty_db" "mem_run (open_session w) = mem_run w"
      using st by (simp_all add: open_session_def)
    with runs_get_found [OF E this(2,1) assms(4)] b assms(3) have "view w1 = view (open_session w)"
      by (auto simp: settle_run_body_def bnd_apply)
    then show ?thesis by (simp add: c v open_session_def)
  qed
qed


lemma handle_failure_faulty:
  fixes w w' :: "'z turn_world_scheme"
  assumes E: "reliable (calm E)" and "handle_failure E claim e w = (r, w')"
  shows "(\<exists>e'. r = Inl e') \<and> (committed w' = committed w \<or>
    (\<exists>(w0 :: 'z turn_world_scheme) reason x w1. committed w0 = committed w \<and> mem_run w0 = mem_run w \<and> uuid_count w0 = uuid_count w \<and>
       settle_failed_run E reason w0 = (x, w1) \<and> claims_failed (committed w1) (committed w')))"
proof (cases "is_exception e")
  case False
  with assms(2) show ?thesis by (auto simp: handle_failure_def)
next
  case True
  obtain w0 where w0: "normalize_failure e w = (Inr (normalized_error e), w0)"
    and same: "committed w0 = committed w" "mem_run w0 = mem_run w" "uuid_count w0 = uuid_count w"
    by (cases e) (simp_all add: normalize_failure_def log_event_def bnd_apply)
  let ?reason = "safe_message (normalized_error e)"
  obtain x w1 where s: "settle_failed_run E ?reason w0 = (x, w1)" by fastforce
  have f: "bnd (fail_turn E claim ?reason) (\<lambda>_. throw (Nexa (normalized_error e))) w0 = (r, w')"
    using assms(2) True w0 by (simp add: handle_failure_def bnd_apply)
  have "claims_failed (committed w1) (committed w')"
  proof (cases x)
    case (Inl e')
    with f s have "w' = w1" by (simp add: fail_turn_def bnd_apply)
    then show ?thesis by (simp add: claims_failed_refl)
  next
    case (Inr u)
    show ?thesis
    proof (cases claim)
      case None
      with f s Inr have "w' = w1" by (simp add: fail_turn_def bnd_apply)
      then show ?thesis by (simp add: claims_failed_refl)
    next
      case (Some cl)
      obtain y w2 where c: "settle_failed_claim E cl ?reason w1 = (y, w2)" by fastforce
      with f s Inr Some have "w' = w2" by (auto simp: fail_turn_def bnd_apply split: sum.splits)
      with settle_failed_claim_faulty [OF E c] show ?thesis by simp
    qed
  qed
  moreover have "\<exists>e'. r = Inl e'" using f by (auto simp: bnd_def split: prod.splits sum.splits)
  ultimately show ?thesis using same s
    by blast
qed

subsection \<open>No half answers\<close>

lemma stored_run_id: "stored_run E i d = Inr (Some r) \<Longrightarrow> run_id r = i"
  by (auto simp: stored_run_def run_of_rows_def sum_bind_Inr_iff find_Some_iff split: option.splits)

lemma stored_run_status:
  assumes "stored_run E i d = Inr (Some r)"
  shows "\<exists>row \<in> set (tbl_runs d). enum_call run_statuses run_status_value (ar_status row) = Inr (run_status r)"
proof -
  from assms obtain row where f: "find (\<lambda>x. ar_id x = i) (tbl_runs d) = Some row"
    and r: "run_of_rows E row (steps_of_run i d) = Inr r"
    by (auto simp: stored_run_def sum_bind_Inr_iff split: option.splits)
  from f have "row \<in> set (tbl_runs d)" by (auto simp: find_Some_iff)
  with r show ?thesis by (auto simp: run_of_rows_def sum_bind_Inr_iff)
qed

lemma calm_answer_stored [simp]: "answer_stored (calm E) = answer_stored E"
  by (intro ext) (simp add: answer_stored_def)

definition turn_unanswered :: "env \<Rightarrow> turn_command \<Rightarrow> message list \<Rightarrow> db \<Rightarrow> agent_run \<Rightarrow> db \<Rightarrow> bool" where
  \<comment> \<open>the user's message is stored and no answer, the run did not succeed, no claim was completed\<close>
  "turn_unanswered E cmd history d run d' \<longleftrightarrow> run_status run \<in> {RunRunning, RunFailed} \<and>
     stored_history E (cmd_conversation_id cmd) d' = Inr history \<and> completed_claims d' = completed_claims d"

lemma turn_started_claims: "turn_started E cmd body n t r d d' \<Longrightarrow> tbl_idem d' = tbl_idem d"
  by (auto simp: turn_started_def added_db_def insert_message_def guarded_Inr_iff)

lemma unanswered_failure:
  assumes ready: "store_ready (calm E) run n (committed w1)" and running: "run_status run = RunRunning"
    and same: "same_store w1 w2" and w1: "mem_run w1 = run" "uuid_count w1 = n"
    and hist: "stored_history E (cmd_conversation_id cmd) (committed w1) = Inr history"
    and h: "handle_failure E claim e w2 = (r, w')"
  shows "\<exists>run'. stored_run E (run_id run) (committed w') = Inr (Some run') \<and>
    turn_unanswered E cmd history (committed w1) run' (committed w')"
proof -
  have E: "reliable (calm E)" using ready by (simp add: store_ready_def)
  have c2: "committed w2 = committed w1" and rid: "run_id (mem_run w2) = run_id run"
    and k: "uuid_count w2 \<in> {n..<n + 4}" using same w1 by (auto simp: same_store_def)
  from handle_failure_faulty [OF E h] show ?thesis
  proof (elim conjE disjE exE)
    assume "committed w' = committed w2"
    with ready running hist c2 show ?thesis
      by (intro exI [of _ run]) (simp add: store_ready_def turn_unanswered_def)
  next
    fix w0 reason x w3
    assume c0: "committed w0 = committed w2" and m0: "mem_run w0 = mem_run w2" "uuid_count w0 = uuid_count w2"
      and s: "settle_failed_run E reason w0 = (x, w3)" and f: "claims_failed (committed w3) (committed w')"
    have "uuids E (uuid_count w0) \<notin> used_ids (committed w0)"
      using ready k by (simp add: store_ready_def fresh_ids_def c0 c2 m0)
    from settle_failed_run_faulty [OF _ running _ this s, of n] ready rid c0 c2 m0 obtain run' where
      "stored_run E (run_id run) (committed w3) = Inr (Some run')" "run_status run' \<in> {RunRunning, RunFailed}"
      "tbl_messages (committed w3) = tbl_messages (committed w1)" "tbl_idem (committed w3) = tbl_idem (committed w1)"
      by auto
    with claims_failed_frame [OF f] hist stored_history_frame [of "committed w3" "committed w1" E] show ?thesis
      by (intro exI [of _ run']) (simp add: turn_unanswered_def completed_claims_def)
  qed
qed

lemma answer_survives:
  assumes E: "reliable (calm E)" and rid: "run_id run = run_id (mem_run w2)"
    and st: "stored_run E (run_id run) (committed w2) = Inr (Some run)"
    and a: "answer_stored E cmd history claim res run (committed w2)"
    and h: "handle_failure E claim' e w2 = (r, w')"
  shows "stored_run E (run_id run) (committed w') = Inr (Some run) \<and>
    answer_stored E cmd history claim res run (committed w')"
proof -
  from handle_failure_faulty [OF E h] show ?thesis
  proof (elim conjE disjE exE)
    assume "committed w' = committed w2"
    with st a show ?thesis by simp
  next
    fix w0 reason x w3
    assume c0: "committed w0 = committed w2" and m0: "mem_run w0 = mem_run w2"
      and s: "settle_failed_run E reason w0 = (x, w3)" and f: "claims_failed (committed w3) (committed w')"
    have "run_status run \<in> terminal_run_statuses"
      using a by (simp add: answer_stored_def terminal_run_statuses_def)
    from settle_finished_run_faulty [OF E _ this _ s] st rid c0 m0 have c3: "committed w3 = committed w2" by simp
    have keep: "row \<in> set (tbl_idem (committed w'))"
      if "row \<in> set (tbl_idem (committed w2))" "ir_state row = ''completed''" for row
      using claims_failed_frame(4) [OF f] that by (auto simp: c3 completed_claims_def)
    from a st keep show ?thesis
      unfolding answer_stored_def claims_failed_frame(2,3) [OF f] c3 by blast
  qed
qed

text \<open>C2: no half answers. Whatever statements and commits fail during a turn, whether a failed commit took
  effect or not, and however the provider fails, the turn leaves the database in one of three ways: as it was;
  with the user's message and a run that did not succeed, no answer and no claim completed; or with the
  answer as the last message, the run succeeded and the claim completed with the result. A turn that returns
  always leaves the last, with the result it returns.\<close>

theorem faults_leave_no_half_answer:
  assumes "turn_ready (calm E) cmd (uuid_count w) (clock_count w) (committed w)" and "idle w"
    and "stored_history E (cmd_conversation_id cmd) (committed w) = Inr full"
    and "execute_claimed E prompt cmd body claim w = (r, w')"
  shows "(\<exists>e. r = Inl e) \<and> committed w' = committed w \<or>
    (\<exists>run. stored_run E (uuids E (uuid_count w + 1)) (committed w') = Inr (Some run) \<and>
     (let history = full @ [user_message E cmd body (uuid_count w) (clock_count w)] in
      (\<exists>e. r = Inl e) \<and> turn_unanswered E cmd history (committed w) run (committed w') \<or>
      (\<exists>res. answer_stored E cmd history claim res run (committed w') \<and> (\<forall>x. r = Inr x \<longrightarrow> x = res))))"
proof -
  let ?n = "uuid_count w" and ?t = "clock_count w"
  let ?h = "full @ [user_message E cmd body ?n ?t]"
  have E: "reliable (calm E)" using assms(1) by (simp add: turn_ready_def)
  have mono: "clock (calm E) i < clock (calm E) j" if "i < j" for i j
    using assms(1) that by (simp add: turn_ready_def clock_ahead_def)
  have started: "stored_run E (uuids E (?n + 1)) (committed v) = Inr (Some (mem_run v)) \<and>
      stored_history E (cmd_conversation_id cmd) (committed v) = Inr ?h \<and> run_status (mem_run v) = RunRunning \<and>
      tbl_idem (committed v) = tbl_idem (committed w) \<and> run_id (mem_run v) = uuids E (?n + 1) \<and>
      store_ready (calm E) (mem_run v) (uuid_count v) (committed v) \<and>
      (\<forall>x \<in> set (conversation_rows (cmd_conversation_id cmd) (committed v)). mr_created_at x < Utc (clock E (clock_count v)))"
    if "start_turn (calm E) cmd body w = (Inr c, v)" for c v
  proof -
    from start_turn_effect [OF assms(1,2) that] have
      st: "turn_started (calm E) cmd body ?n ?t (mem_run v) (committed w) (committed v)"
      and n: "uuid_count v = ?n + 4" "clock_count v = ?t + 5" by simp_all
    note s = turn_started_stored [OF st assms(1)]
    have "Utc (clock E ?t) < Utc (clock E (?t + 5))" using mono [of ?t "?t + 5"] by simp
    with s(8) have "\<forall>x \<in> set (conversation_rows (cmd_conversation_id cmd) (committed v)). mr_created_at x < Utc (clock E (?t + 5))"
      by (auto intro: le_less_trans)
    with s(1-3,6) s(2) [of full] started_store_ready [OF assms(1) st] turn_started_claims [OF st] assms(3) n show ?thesis
      by simp
  qed
  obtain q w1 where q: "start_turn E cmd body w = (q, w1)" by fastforce
  show ?thesis
  proof (cases q)
    case (Inl e)
    with q assms(4) have r: "r = Inl e" "w' = w1" by (simp_all add: execute_claimed_def bnd_apply)
    from uow_faulty [OF E tx_local_start calms_start_body q [unfolded start_turn_def]] Inl show ?thesis
    proof (elim disjE exE conjE)
      assume "committed w1 = committed w"
      with r show ?thesis by simp
    next
      fix c v assume "uow (calm E) (start_turn_body (calm E) cmd body) w = (Inr c, v)" and c: "committed w1 = committed v"
      then have "start_turn (calm E) cmd body w = (Inr c, v)" by (simp add: start_turn_def)
      from started [OF this] c r show ?thesis
        by (intro disjI2 exI [of _ "mem_run v"]) (simp add: turn_unanswered_def completed_claims_def)
    qed
  next
    case (Inr c)
    have st: "start_turn (calm E) cmd body w = (Inr c, w1)" by (rule calmsD [OF calms_turn(1) q [unfolded Inr]])
    note s = started [OF st]
    have conv: "conv_id c = cmd_conversation_id cmd" using start_turn_effect [OF assms(1,2) st] by simp
    have answered: "\<exists>run. stored_run E (uuids E (?n + 1)) (committed v) = Inr (Some run) \<and>
        answer_stored E cmd ?h claim res run (committed v)"
      if "answer_turn (calm E) prompt cmd c claim w1 = (Inr res, v)" for res v
      using answered_turn [OF _ conv _ _ mono that, of ?h] s by simp
    obtain ra wa where a: "answer_turn E prompt cmd c claim w1 = (ra, wa)" by fastforce
    show ?thesis
    proof (cases ra)
      case (Inr res)
      have "r = Inr res" "w' = wa"
        using assms(4) q a Inr \<open>q = Inr c\<close> by (simp_all add: execute_claimed_def bnd_apply try_except_def)
      with answered [OF calmsD [OF calms_answer a [unfolded Inr]]] show ?thesis by auto
    next
      case (Inl e)
      have h: "handle_failure E claim e wa = (r, w')"
        using assms(4) q a Inl \<open>q = Inr c\<close> by (simp add: execute_claimed_def bnd_apply try_except_def)
      obtain e' where r: "r = Inl e'" using handle_failure_faulty [OF E h] by blast
      from answer_turn_faulty [OF E a [unfolded Inl]] show ?thesis
      proof (elim disjE exE conjE)
        assume "same_store w1 wa"
        from unanswered_failure [OF _ _ this refl refl _ h, where cmd = cmd and history = ?h] s obtain run' where
          "stored_run E (uuids E (?n + 1)) (committed w') = Inr (Some run')"
          "turn_unanswered E cmd ?h (committed w1) run' (committed w')" by auto
        with s r show ?thesis
          by (intro disjI2 exI [of _ run']) (simp add: turn_unanswered_def completed_claims_def)
      next
        fix res v assume v: "answer_turn (calm E) prompt cmd c claim w1 = (Inr res, v)"
          and c: "committed wa = committed v" "run_id (mem_run wa) = run_id (mem_run w1)"
        from answered [OF v] obtain run where run: "stored_run E (uuids E (?n + 1)) (committed wa) = Inr (Some run)"
          "answer_stored E cmd ?h claim res run (committed wa)" by (auto simp: c)
        have rid: "run_id run = uuids E (?n + 1)" by (rule stored_run_id [OF run(1)])
        from answer_survives [OF E _ _ run(2) h] run(1) rid s c r show ?thesis by (auto simp: Let_def)
      qed
    qed
  qed
qed


subsection \<open>A commit that takes effect and fails\<close>

definition crash_env :: env where
  \<comment> \<open>the closing commit, the 17th round trip, takes effect and loses its acknowledgement\<close>
  "crash_env = quiet_env\<lparr>fault := (\<lambda>i. if i = 17 then Some (Sql DBAPIE []) else None), commit_landed := (\<lambda>_. True)\<rparr>"

lemma crash_ready: "turn_ready (calm crash_env) sample_command 0 0 sample_db"
  using sample_ready
  by (simp add: turn_ready_def reliable_def backend_ok_def fresh_ids_def clock_ahead_def crash_env_def calm_def)

lemma crash_leaves:
  "case execute_claimed crash_env default_system_prompt sample_command sample_text None (turn_world_of sample_db) of
     (r, w') \<Rightarrow> (case r of Inl _ \<Rightarrow> True | Inr _ \<Rightarrow> False) \<and> length (tbl_messages (committed w')) = 3 \<and>
       map ar_status (tbl_runs (committed w')) = [''succeeded'']"
  by code_simp

theorem faults_leave_no_half_answer_witness:
  "\<exists>e w' run res. execute_claimed crash_env default_system_prompt sample_command sample_text None
     (turn_world_of sample_db) = (Inl e, w') \<and>
   answer_stored crash_env sample_command ([sample_message_20] @
     [user_message crash_env sample_command sample_text 0 0]) None res run (committed w')"
proof -
  let ?w = "turn_world_of sample_db"
  obtain r w' where x: "execute_claimed crash_env default_system_prompt sample_command sample_text None ?w = (r, w')"
    by fastforce
  from crash_leaves x obtain e where e: "r = Inl e" by (cases r) auto
  from crash_leaves x have m: "length (tbl_messages (committed w')) = 3"
    and st: "map ar_status (tbl_runs (committed w')) = [''succeeded'']" by auto
  have h: "stored_history crash_env (cmd_conversation_id sample_command) (committed ?w) = Inr [sample_message_20]"
  proof -
    have "message_to_domain crash_env = message_to_domain quiet_env"
      by (intro ext) (simp add: message_to_domain_def crash_env_def)
    then show ?thesis using sample_history by (simp add: stored_history_def)
  qed
  have not: "\<not> turn_unanswered crash_env sample_command hs d run (committed w')"
    if s: "stored_run crash_env i (committed w') = Inr (Some run)" for hs d run i
  proof -
    from s obtain row where "row \<in> set (tbl_runs (committed w'))"
      and "enum_call run_statuses run_status_value (ar_status row) = Inr (run_status run)"
      using stored_run_status by blast
    moreover from this(1) st have "ar_status row \<in> set [''succeeded'']" by (metis image_eqI set_map)
    moreover have "enum_call run_statuses run_status_value ''succeeded'' = Inr RunSucceeded" by code_simp
    ultimately show ?thesis by (simp add: turn_unanswered_def)
  qed
  have "committed w' \<noteq> sample_db" using m by (auto simp: sample_db_def)
  with faults_leave_no_half_answer [of crash_env sample_command ?w, OF _ sample_idle h x] crash_ready e not x
  show ?thesis by (auto simp: Let_def)
qed

end
