(* ===== verification/Idempotency_Protocol.thy ===== *)
theory Idempotency_Protocol
  imports Idempotency_Repo
begin

section \<open>The claim protocol of one idempotency key under interleaving\<close>

text \<open>
  Any number of workers run the repository's \<open>start\<close>, \<open>complete\<close> and \<open>fail\<close> on one key.
  A step of the system is one statement of one worker, so the worker's read and the write
  that follows can be separated by steps of the others; the statements are the ones of
  \<open>Idempotency_Repo\<close>. A worker may crash at any point, and a claim may be taken over however
  young it is (whether it had expired is the repository's business; safety does not depend
  on it). A settlement counts when its transaction commits. Tokens are fresh, as
  \<open>uuid4()\<close> makes them. The rest of the application changes the database too
  (\<open>ps_elsewhere\<close>), away from this key.

  The abstract machine is a register that is free, held under a token, or done; the
  protocol refines it. In the register a settlement is final and needs the current token.
\<close>

datatype worker =
    Idle
  | SawNothing
  | SawRow idempotency_row
  | Holding uuid

record proto =
  pt_db :: db
  pt_issued :: "uuid set"
  pt_worker :: "nat \<Rightarrow> worker"
  pt_settled :: "(uuid \<times> idem_state \<times> pydict) list"

definition key_rows :: "string \<Rightarrow> string \<Rightarrow> db \<Rightarrow> idempotency_row list" where
  "key_rows ns key d = filter (at_key ns key) (tbl_idem d)"

definition worker_set :: "nat \<Rightarrow> worker \<Rightarrow> proto \<Rightarrow> proto" where
  "worker_set k x s = s\<lparr>pt_worker := (pt_worker s)(k := x)\<rparr>"

inductive proto_step :: "bool \<Rightarrow> string \<Rightarrow> string \<Rightarrow> proto \<Rightarrow> proto \<Rightarrow> bool" for fk ns key where
  ps_read_none: "key_rows ns key (pt_db s) = [] \<Longrightarrow> proto_step fk ns key s (worker_set k SawNothing s)"
| ps_read_row: "r \<in> set (key_rows ns key (pt_db s)) \<Longrightarrow> proto_step fk ns key s (worker_set k (SawRow r) s)"
| ps_insert: "pt_worker s k = SawNothing \<Longrightarrow> token \<notin> pt_issued s \<Longrightarrow>
     insert_idem (claim_row i ns key now token) (pt_db s) = Inr ((), d') \<Longrightarrow>
     proto_step fk ns key s
       (worker_set k (Holding token) (s\<lparr>pt_db := d', pt_issued := insert token (pt_issued s)\<rparr>))"
| ps_reclaim: "pt_worker s k = SawRow r \<Longrightarrow> ir_state r = started \<Longrightarrow> token \<notin> pt_issued s \<Longrightarrow>
     reclaim_stmt r token now (pt_db s) = Inr (n, d') \<Longrightarrow>
     proto_step fk ns key s (worker_set k (if n = 1 then Holding token else Idle)
       (s\<lparr>pt_db := d', pt_issued := insert token (pt_issued s)\<rparr>))"
| ps_settle: "pt_worker s k = Holding token \<Longrightarrow> st \<noteq> IdemStarted \<Longrightarrow>
     settle_stmt ns key token st result (pt_db s) = Inr (n, d') \<Longrightarrow>
     proto_step fk ns key s (worker_set k Idle (s\<lparr>pt_db := d',
       pt_settled := (if n = 1 then pt_settled s @ [(token, st, result)] else pt_settled s)\<rparr>))"
| ps_give_up: "proto_step fk ns key s (worker_set k Idle s)"
| ps_elsewhere: "db_change fk (pt_db s) d' \<Longrightarrow> key_rows ns key d' = key_rows ns key (pt_db s) \<Longrightarrow>
     proto_step fk ns key s (s\<lparr>pt_db := d'\<rparr>)"

inductive_cases proto_stepE: "proto_step fk ns key s s'"

definition proto_initial :: "string \<Rightarrow> string \<Rightarrow> proto \<Rightarrow> bool" where
  "proto_initial ns key s \<longleftrightarrow> valid_db (pt_db s) \<and> key_rows ns key (pt_db s) = [] \<and>
     pt_issued s = {} \<and> pt_worker s = (\<lambda>_. Idle) \<and> pt_settled s = []"

subsection \<open>The abstract register\<close>

datatype register = Free | Held uuid | Done uuid string pydict

inductive register_step :: "register \<Rightarrow> register \<Rightarrow> bool" where
  reg_claim: "register_step Free (Held t)"
| reg_take_over: "register_step (Held t) (Held t')"
| reg_settle: "register_step (Held t) (Done t st result)"

definition register_of :: "string \<Rightarrow> string \<Rightarrow> proto \<Rightarrow> register" where
  "register_of ns key s =
     (case key_rows ns key (pt_db s) of
        [] \<Rightarrow> Free
      | r # _ \<Rightarrow> if ir_state r = started then Held (ir_claim_token r)
               else Done (ir_claim_token r) (ir_state r) (ir_result r))"

subsection \<open>What a statement does to the key's row\<close>

definition is_row :: "string \<Rightarrow> string \<Rightarrow> idempotency_row option \<Rightarrow> db \<Rightarrow> bool" where
  \<comment> \<open>the key's row, if it has one\<close>
  "is_row ns key r d \<longleftrightarrow> key_rows ns key d = (case r of None \<Rightarrow> [] | Some x \<Rightarrow> [x])"

lemma valid_is_row:
  assumes "valid_db d"
  obtains r where "is_row ns key r d"
proof (cases "key_rows ns key d")
  case Nil
  then show ?thesis by (intro that [of None]) (simp add: is_row_def)
next
  case (Cons r rs)
  then have "r \<in> set (key_rows ns key d)" by simp
  then have r: "r \<in> set (tbl_idem d)" "ns = ir_namespace r" "key = ir_key r"
    by (auto simp: key_rows_def at_key_def)
  from idem_row_only(4) [OF assms r(1)] show ?thesis
    by (intro that [of "Some r"]) (simp add: is_row_def key_rows_def r)
qed

lemma insert_claim_row:
  assumes "insert_idem (claim_row i ns key now token) d = Inr ((), d')"
  shows "is_row ns key None d" and "is_row ns key (Some (claim_row i ns key now token)) d'"
proof -
  from assms have n: "(ns, key) \<notin> (\<lambda>r. (ir_namespace r, ir_key r)) ` set (tbl_idem d)"
    and d': "tbl_idem d' = tbl_idem d @ [claim_row i ns key now token]"
    by (auto simp: insert_idem_def guarded_Inr_iff claim_row_def)
  from n have "key_rows ns key d = []"
    by (auto simp: key_rows_def filter_empty_conv at_key_def)
  then show "is_row ns key None d" by (simp add: is_row_def)
  with d' show "is_row ns key (Some (claim_row i ns key now token)) d'"
    by (simp add: is_row_def key_rows_def) (simp add: at_key_def claim_row_def)
qed

lemma update_idem_key_rows:
  assumes "update_idem p f json d = Inr (n, d')"
    and "\<And>r. ir_namespace (f r) = ir_namespace r \<and> ir_key (f r) = ir_key r"
  shows "key_rows ns key d' = map (\<lambda>r. if p r then f r else r) (key_rows ns key d)"
proof -
  have "tbl_idem d' = map (\<lambda>r. if p r then f r else r) (tbl_idem d)"
    using assms(1) by (auto simp: update_idem_Inr_iff update_where_def)
  then show ?thesis
    unfolding key_rows_def using assms(2) by (simp add: filter_map_update at_key_def)
qed

lemma reclaim_row:
  assumes "reclaim_stmt r token now d = Inr (n, d')"
  shows "key_rows ns key d' = map (\<lambda>x. if (ir_id x = ir_id r \<and> ir_claim_token x = ir_claim_token r) \<and>
      ir_state x = started then x\<lparr>ir_claimed_at := now, ir_claim_token := token\<rparr> else x) (key_rows ns key d)"
  using update_idem_key_rows [OF assms [unfolded reclaim_stmt_def]] by simp

lemma settle_row:
  assumes "settle_stmt ns key token st result d = Inr (n, d')" and "is_row ns key (Some r) d"
  shows "n = (if ir_claim_token r = token \<and> ir_state r = started then 1 else 0)"
    and "is_row ns key (Some (if ir_claim_token r = token \<and> ir_state r = started
       then r\<lparr>ir_state := idem_state_value st, ir_result := result\<rparr> else r)) d'"
proof -
  have r: "at_key ns key r" and one: "filter (at_key ns key) (tbl_idem d) = [r]"
    using assms(2) by (auto simp: is_row_def key_rows_def filter_eq_Cons_iff)
  have "filter (\<lambda>x. (at_key ns key x \<and> ir_claim_token x = token) \<and> ir_state x = started) (tbl_idem d) =
      filter (\<lambda>x. ir_claim_token x = token \<and> ir_state x = started) (filter (at_key ns key) (tbl_idem d))"
    by (simp add: conj_ac)
  then show "n = (if ir_claim_token r = token \<and> ir_state r = started then 1 else 0)"
    using assms(1) by (simp add: settle_stmt_def update_idem_Inr_iff one)
  show "is_row ns key (Some (if ir_claim_token r = token \<and> ir_state r = started
       then r\<lparr>ir_state := idem_state_value st, ir_result := result\<rparr> else r)) d'"
    using update_idem_key_rows [OF assms(1) [unfolded settle_stmt_def], of ns key] r
    by (simp add: is_row_def key_rows_def one)
qed

lemma settle_no_row:
  assumes "settle_stmt ns key token st result d = Inr (n, d')" and "is_row ns key None d"
  shows "n = 0" and "is_row ns key None d'"
proof -
  have none: "filter (at_key ns key) (tbl_idem d) = []"
    using assms(2) by (simp add: is_row_def key_rows_def)
  then have "filter (\<lambda>x. (at_key ns key x \<and> ir_claim_token x = token) \<and> ir_state x = started) (tbl_idem d) = []"
    by (auto simp: filter_empty_conv)
  then show "n = 0" using assms(1) by (simp add: settle_stmt_def update_idem_Inr_iff)
  show "is_row ns key None d'"
    using update_idem_key_rows [OF assms(1) [unfolded settle_stmt_def], of ns key] none
    by (simp add: is_row_def key_rows_def)
qed

subsection \<open>The invariant\<close>

fun outcome_matches ::
  "idempotency_row list \<Rightarrow> (uuid \<times> idem_state \<times> pydict) list \<Rightarrow> bool" where
  \<comment> \<open>nothing settled and the row, if any, is open; or one settlement, and the row shows it\<close>
  "outcome_matches rows [] = (\<forall>r \<in> set rows. ir_state r = started)"
| "outcome_matches rows [(t, st, result)] = (st \<noteq> IdemStarted \<and>
     (\<exists>r. rows = [r] \<and> ir_claim_token r = t \<and> ir_state r = idem_state_value st \<and>
       ir_result r = result))"
| "outcome_matches rows (x # y # zs) = False"

definition settled_matches :: "string \<Rightarrow> string \<Rightarrow> proto \<Rightarrow> bool" where
  "settled_matches ns key s \<longleftrightarrow> outcome_matches (key_rows ns key (pt_db s)) (pt_settled s)"

lemma value_not_started: "st \<noteq> IdemStarted \<Longrightarrow> idem_state_value st \<noteq> started"
  using idem_state_enum.distinct_values [of st IdemStarted] by auto

lemma outcome_open: "outcome_matches [r] os \<Longrightarrow> ir_state r = started \<Longrightarrow> os = []"
  by (induction "[r]" os rule: outcome_matches.induct) (auto dest: value_not_started)

lemma outcome_none: "outcome_matches [] os \<Longrightarrow> os = []"
  by (induction "[] :: idempotency_row list" os rule: outcome_matches.induct) auto

lemma outcome_reclaim:
  "outcome_matches rows os \<Longrightarrow> outcome_matches (map (\<lambda>x. if p x \<and> ir_state x = started
     then x\<lparr>ir_claimed_at := now, ir_claim_token := token\<rparr> else x) rows) os"
  by (induction rows os rule: outcome_matches.induct) (auto dest: value_not_started)

definition tokens_known :: "string \<Rightarrow> string \<Rightarrow> proto \<Rightarrow> bool" where
  "tokens_known ns key s \<longleftrightarrow>
     (\<forall>r \<in> set (key_rows ns key (pt_db s)). ir_claim_token r \<in> pt_issued s) \<and>
     (\<forall>k t. pt_worker s k = Holding t \<longrightarrow> t \<in> pt_issued s)"

definition one_holder :: "proto \<Rightarrow> bool" where
  "one_holder s \<longleftrightarrow> (\<forall>k k' t. pt_worker s k = Holding t \<longrightarrow> pt_worker s k' = Holding t \<longrightarrow> k = k')"

definition proto_inv :: "string \<Rightarrow> string \<Rightarrow> proto \<Rightarrow> bool" where
  "proto_inv ns key s \<longleftrightarrow> valid_db (pt_db s) \<and> tokens_known ns key s \<and> one_holder s \<and>
     settled_matches ns key s"

lemma worker_set_simps [simp]:
  "pt_db (worker_set k x s) = pt_db s" "pt_issued (worker_set k x s) = pt_issued s"
  "pt_settled (worker_set k x s) = pt_settled s"
  "pt_worker (worker_set k x s) = (pt_worker s)(k := x)"
  by (simp_all add: worker_set_def)

lemma proto_inv_idle:
  "proto_inv ns key s \<Longrightarrow> (\<And>t. x \<noteq> Holding t) \<Longrightarrow> proto_inv ns key (worker_set k x s)"
  by (simp add: proto_inv_def tokens_known_def one_holder_def settled_matches_def)

lemma valid_reclaim: "reclaim_stmt r token now d = Inr (n, d') \<Longrightarrow> valid_db d \<Longrightarrow> valid_db d'"
  unfolding reclaim_stmt_def by (erule valid_update_idem) simp_all

lemma valid_settle: "settle_stmt ns key token st result d = Inr (n, d') \<Longrightarrow> valid_db d \<Longrightarrow> valid_db d'"
  unfolding settle_stmt_def by (erule valid_update_idem) simp_all

lemma proto_inv_insert:
  assumes "proto_inv ns key s" and "token \<notin> pt_issued s"
    and "insert_idem (claim_row i ns key now token) (pt_db s) = Inr ((), d')"
  shows "proto_inv ns key
    (worker_set k (Holding token) (s\<lparr>pt_db := d', pt_issued := insert token (pt_issued s)\<rparr>))"
proof -
  note row = insert_claim_row [OF assms(3)]
  have new: "key_rows ns key d' = [claim_row i ns key now token]" and old: "key_rows ns key (pt_db s) = []"
    using row by (simp_all add: is_row_def)
  have "pt_settled s = []"
    using assms(1) old by (auto simp: proto_inv_def settled_matches_def dest: outcome_none)
  moreover have "valid_db d'" using assms by (auto simp: proto_inv_def intro: valid_insert)
  moreover have "pt_worker s k' \<noteq> Holding token" for k'
    using assms(1,2) by (auto simp: proto_inv_def tokens_known_def)
  ultimately show ?thesis
    using assms(1) by (auto simp: proto_inv_def tokens_known_def one_holder_def settled_matches_def new
        claim_row_def)
qed

lemma proto_inv_reclaim:
  assumes "proto_inv ns key s" and "token \<notin> pt_issued s"
    and "reclaim_stmt r token now (pt_db s) = Inr (n, d')"
  shows "proto_inv ns key (worker_set k (if n = 1 then Holding token else Idle)
    (s\<lparr>pt_db := d', pt_issued := insert token (pt_issued s)\<rparr>))"
proof -
  note rows = reclaim_row [OF assms(3), of ns key]
  have "valid_db d'" using assms by (auto simp: proto_inv_def intro: valid_reclaim)
  moreover have "pt_worker s k' \<noteq> Holding token" for k'
    using assms(1,2) by (auto simp: proto_inv_def tokens_known_def)
  moreover have "settled_matches ns key (s\<lparr>pt_db := d'\<rparr>)"
    using assms(1) outcome_reclaim [of _ _ "\<lambda>x. ir_id x = ir_id r \<and> ir_claim_token x = ir_claim_token r"]
    by (simp add: proto_inv_def settled_matches_def rows)
  ultimately show ?thesis
    using assms(1) by (auto simp: proto_inv_def tokens_known_def one_holder_def settled_matches_def rows)
qed

lemma proto_inv_settle:
  assumes "proto_inv ns key s" and "pt_worker s k = Holding token" and "st \<noteq> IdemStarted"
    and "settle_stmt ns key token st result (pt_db s) = Inr (n, d')"
  shows "proto_inv ns key (worker_set k Idle (s\<lparr>pt_db := d',
    pt_settled := (if n = 1 then pt_settled s @ [(token, st, result)] else pt_settled s)\<rparr>))"
proof -
  have valid: "valid_db d'" using assms by (auto simp: proto_inv_def intro: valid_settle)
  from assms(1) have "valid_db (pt_db s)" by (simp add: proto_inv_def)
  then obtain r where r: "is_row ns key r (pt_db s)" by (rule valid_is_row)
  show ?thesis
  proof (cases r)
    case None
    with settle_no_row [OF assms(4)] r have "n = 0" "key_rows ns key d' = key_rows ns key (pt_db s)"
      by (auto simp: is_row_def)
    with assms(1) valid show ?thesis
      by (auto simp: proto_inv_def tokens_known_def one_holder_def settled_matches_def is_row_def)
  next
    case (Some x)
    note n = settle_row [OF assms(4) r [unfolded Some]]
    have old: "key_rows ns key (pt_db s) = [x]" using r Some by (simp add: is_row_def)
    show ?thesis
    proof (cases "ir_claim_token x = token \<and> ir_state x = started")
      case True
      have "pt_settled s = []"
        using assms(1) True old by (auto simp: proto_inv_def settled_matches_def dest: outcome_open)
      with n True assms(1,3) old valid show ?thesis
        by (auto simp: proto_inv_def tokens_known_def one_holder_def settled_matches_def is_row_def)
    next
      case False
      with n have "n = 0" "key_rows ns key d' = key_rows ns key (pt_db s)"
        by (auto simp: is_row_def old)
      with assms(1) valid show ?thesis
        by (auto simp: proto_inv_def tokens_known_def one_holder_def settled_matches_def is_row_def)
    qed
  qed
qed

lemma proto_inv_elsewhere:
  "proto_inv ns key s \<Longrightarrow> db_change fk (pt_db s) d' \<Longrightarrow>
     key_rows ns key d' = key_rows ns key (pt_db s) \<Longrightarrow> proto_inv ns key (s\<lparr>pt_db := d'\<rparr>)"
  using schema_valid.change_keeps
  by (auto simp: proto_inv_def tokens_known_def one_holder_def settled_matches_def is_row_def)

lemma proto_inv_step:
  assumes "proto_inv ns key s" and "proto_step fk ns key s s'"
  shows "proto_inv ns key s'"
  using assms(2)
proof (cases rule: proto_step.cases)
  case (ps_insert k token i now d')
  then show ?thesis using proto_inv_insert [OF assms(1)] by blast
next
  case (ps_reclaim k r token now n d')
  then show ?thesis using proto_inv_reclaim [OF assms(1)] by blast
next
  case (ps_settle k token st result n d')
  then show ?thesis using proto_inv_settle [OF assms(1)] by blast
next
  case (ps_elsewhere d')
  then show ?thesis using proto_inv_elsewhere [OF assms(1)] by blast
qed (use proto_inv_idle [OF assms(1)] in auto)

subsection \<open>Simulation\<close>

lemma register_is_row:
  "is_row ns key r (pt_db s) \<Longrightarrow> register_of ns key s = (case r of None \<Rightarrow> Free
     | Some x \<Rightarrow> if ir_state x = started then Held (ir_claim_token x)
                 else Done (ir_claim_token x) (ir_state x) (ir_result x))"
  by (cases r) (simp_all add: register_of_def is_row_def)

lemma register_worker [simp]:
  "register_of ns key (worker_set k x s) = register_of ns key s"
  "register_of ns key (s\<lparr>pt_issued := ts\<rparr>) = register_of ns key s"
  "register_of ns key (s\<lparr>pt_settled := os\<rparr>) = register_of ns key s"
  by (simp_all add: register_of_def)

lemma proto_simulates:
  assumes "proto_inv ns key s" and "proto_step fk ns key s s'"
  shows "register_of ns key s' = register_of ns key s \<or>
    register_step (register_of ns key s) (register_of ns key s')"
  using assms(2)
proof (cases rule: proto_step.cases)
  case (ps_insert k token i now d')
  note row = insert_claim_row [OF ps_insert(4)]
  have "register_of ns key s = Free" using row(1) by (simp add: register_is_row)
  moreover have "register_of ns key s' = Held token"
    using row(2) by (simp add: ps_insert(1) register_is_row [of _ _ "Some _"] claim_row_def
        register_of_def is_row_def)
  ultimately show ?thesis by (simp add: reg_claim)
next
  case (ps_reclaim k r token now n d')
  note rows = reclaim_row [OF ps_reclaim(5), of ns key]
  from assms(1) have "valid_db (pt_db s)" by (simp add: proto_inv_def)
  then obtain x where "is_row ns key x (pt_db s)" by (rule valid_is_row)
  then show ?thesis
    by (cases x) (auto simp: ps_reclaim(1) register_of_def is_row_def rows intro: register_step.intros)
next
  case (ps_settle k token st result n d')
  from assms(1) have "valid_db (pt_db s)" by (simp add: proto_inv_def)
  then obtain x where x: "is_row ns key x (pt_db s)" by (rule valid_is_row)
  show ?thesis
  proof (cases x)
    case None
    with settle_no_row [OF ps_settle(4)] x show ?thesis
      by (simp add: ps_settle(1) register_of_def is_row_def)
  next
    case (Some y)
    have "idem_state_value st \<noteq> started" using ps_settle(3) by (rule value_not_started)
    with settle_row [OF ps_settle(4) x [unfolded Some]] x Some show ?thesis
      by (auto simp: ps_settle(1) register_of_def is_row_def intro: register_step.intros)
  qed
qed (auto simp: register_of_def)

interpretation claim_protocol: refinement "proto_initial ns key" "proto_step fk ns key"
  "proto_inv ns key" "register_of ns key" register_step for fk ns key
proof
  show "proto_initial ns key s \<Longrightarrow> proto_inv ns key s" for s
    by (simp add: proto_initial_def proto_inv_def tokens_known_def one_holder_def settled_matches_def)
  show "proto_inv ns key s \<Longrightarrow> proto_step fk ns key s s' \<Longrightarrow> proto_inv ns key s'" for s s'
    by (rule proto_inv_step)
  show "proto_inv ns key s \<Longrightarrow> proto_step fk ns key s s' \<Longrightarrow>
      register_of ns key s' = register_of ns key s \<or>
      register_step (register_of ns key s) (register_of ns key s')" for s s'
    by (rule proto_simulates)
qed

subsection \<open>Properties\<close>

lemma register_done_final:
  assumes "register_step\<^sup>*\<^sup>* g g'" and "g = Done t st result"
  shows "g' = Done t st result"
  using assms by (induction rule: rtranclp_induct) (auto elim: register_step.cases)

definition sample_proto :: proto where
  "sample_proto = \<lparr>pt_db = empty_db, pt_issued = {}, pt_worker = (\<lambda>_. Idle), pt_settled = []\<rparr>"

definition sample_claim :: idempotency_row where
  "sample_claim = claim_row 1 ''agent_run'' ''k'' (Utc 0) 7"

definition sample_held :: proto where
  "sample_held = worker_set 0 (Holding 7) (worker_set 0 SawNothing sample_proto
     \<lparr>pt_db := empty_db\<lparr>tbl_idem := [sample_claim]\<rparr>, pt_issued := {7}\<rparr>)"

definition sample_done :: proto where
  "sample_done = worker_set 0 Idle (sample_held\<lparr>pt_db := empty_db\<lparr>tbl_idem :=
     [sample_claim\<lparr>ir_state := ''completed'', ir_result := []\<rparr>]\<rparr>,
     pt_settled := [(7, IdemCompleted, [])]\<rparr>)"

lemma sample_initial: "proto_initial ''agent_run'' ''k'' sample_proto"
  using valid_empty by (simp add: proto_initial_def sample_proto_def key_rows_def empty_db_def)

lemma sample_to_held: "(proto_step True ''agent_run'' ''k'')\<^sup>*\<^sup>* sample_proto sample_held"
proof -
  have "proto_step True ''agent_run'' ''k'' sample_proto (worker_set 0 SawNothing sample_proto)"
    by (rule ps_read_none) (simp add: key_rows_def sample_proto_def empty_db_def)
  moreover have "proto_step True ''agent_run'' ''k'' (worker_set 0 SawNothing sample_proto) sample_held"
    unfolding sample_held_def
    using ps_insert [of "worker_set 0 SawNothing sample_proto" 0 7 1 "''agent_run''" "''k''" "Utc 0"
        "empty_db\<lparr>tbl_idem := [sample_claim]\<rparr>" True]
    by (simp add: sample_proto_def insert_idem_def guarded_def sample_claim_def claim_row_def
        idempotency_check_def started_def empty_db_def)
  ultimately show ?thesis by simp
qed

lemma sample_to_done: "(proto_step True ''agent_run'' ''k'')\<^sup>*\<^sup>* sample_proto sample_done"
proof -
  have "settle_stmt ''agent_run'' ''k'' 7 IdemCompleted [] (pt_db sample_held) =
      Inr (1, empty_db\<lparr>tbl_idem := [sample_claim\<lparr>ir_state := ''completed'', ir_result := []\<rparr>]\<rparr>)"
    by (simp add: settle_stmt_def update_idem_def update_where_def sample_held_def at_key_def
        sample_claim_def claim_row_def idempotency_check_def started_def empty_db_def)
  from ps_settle [OF _ _ this, of 0 True]
  have "proto_step True ''agent_run'' ''k'' sample_held sample_done"
    by (simp add: sample_done_def) (simp add: sample_held_def sample_proto_def)
  with sample_to_held show ?thesis by (rule rtranclp.rtrancl_into_rtrancl)
qed

definition sample_stolen :: proto where
  "sample_stolen = worker_set 1 (Holding 8) (worker_set 1 (SawRow sample_claim) sample_held
     \<lparr>pt_db := empty_db\<lparr>tbl_idem := [sample_claim\<lparr>ir_claimed_at := Utc 9, ir_claim_token := 8\<rparr>]\<rparr>,
      pt_issued := {8, 7}\<rparr>)"

lemma sample_to_stolen: "(proto_step True ''agent_run'' ''k'')\<^sup>*\<^sup>* sample_proto sample_stolen"
proof -
  let ?s = "worker_set 1 (SawRow sample_claim) sample_held"
  have "proto_step True ''agent_run'' ''k'' sample_held ?s"
    by (rule ps_read_row) (simp add: key_rows_def sample_held_def at_key_def sample_claim_def claim_row_def)
  with sample_to_held have "(proto_step True ''agent_run'' ''k'')\<^sup>*\<^sup>* sample_proto ?s"
    by (rule rtranclp.rtrancl_into_rtrancl)
  moreover have "reclaim_stmt sample_claim 8 (Utc 9) (pt_db ?s) = Inr (1, empty_db\<lparr>tbl_idem :=
      [sample_claim\<lparr>ir_claimed_at := Utc 9, ir_claim_token := 8\<rparr>]\<rparr>)"
    by (simp add: reclaim_stmt_def update_idem_def update_where_def sample_held_def
        sample_claim_def claim_row_def idempotency_check_def started_def empty_db_def)
  from ps_reclaim [OF _ _ _ this, of 1 True "''agent_run''" "''k''"]
  have "proto_step True ''agent_run'' ''k'' ?s sample_stolen"
    by (simp add: sample_stolen_def) (simp add: sample_held_def sample_claim_def claim_row_def sample_proto_def)
  ultimately show ?thesis by (rule rtranclp.rtrancl_into_rtrancl)
qed

text \<open>C5: however the statements of any number of workers interleave, whoever crashes and
  whatever claims are taken over, at most one settlement of a key succeeds, and the stored
  record is the outcome of exactly that settlement.\<close>

theorem at_most_one_settlement:
  assumes "proto_initial ns key s0" and "(proto_step fk ns key)\<^sup>*\<^sup>* s0 s"
  shows "length (pt_settled s) \<le> 1 \<and>
    (\<forall>t st result. pt_settled s = [(t, st, result)] \<longrightarrow>
       register_of ns key s = Done t (idem_state_value st) result)"
proof -
  have "proto_inv ns key s"
    using claim_protocol.star_inv [OF assms(2) claim_protocol.inv_initial [OF assms(1)]] .
  then have m: "outcome_matches (key_rows ns key (pt_db s)) (pt_settled s)"
    by (simp add: proto_inv_def settled_matches_def)
  then have "length (pt_settled s) \<le> 1"
    by (cases "(key_rows ns key (pt_db s), pt_settled s)" rule: outcome_matches.cases) auto
  with m show ?thesis
    by (auto simp: register_of_def value_not_started)
qed

theorem at_most_one_settlement_witness:
  "register_of ''agent_run'' ''k'' sample_done = Done 7 ''completed'' []"
  using at_most_one_settlement [OF sample_initial sample_to_done]
  by (simp add: sample_done_def)



text \<open>Once the record of a key is settled, no step of any worker changes its state, its
  token or its result, so every retry replays the same outcome.\<close>

lemma settled_record_is_final:
  assumes "proto_initial ns key s0" and "(proto_step fk ns key)\<^sup>*\<^sup>* s0 s"
    and "register_of ns key s = Done t st result" and "(proto_step fk ns key)\<^sup>*\<^sup>* s s'"
  shows "register_of ns key s' = Done t st result"
proof -
  have "proto_inv ns key s"
    using claim_protocol.star_inv [OF assms(2) claim_protocol.inv_initial [OF assms(1)]] .
  from claim_protocol.star_simulates [OF assms(4) this] assms(3) show ?thesis
    by (rule register_done_final)
qed

lemma settled_record_is_final_witness:
  "register_of ''agent_run'' ''k'' (worker_set 5 Idle sample_done) = Done 7 ''completed'' []"
proof (rule settled_record_is_final [OF sample_initial sample_to_done])
  show "register_of ''agent_run'' ''k'' sample_done = Done 7 ''completed'' []"
    by (simp add: register_of_def key_rows_def sample_done_def at_key_def sample_claim_def
        claim_row_def started_def)
  show "(proto_step True ''agent_run'' ''k'')\<^sup>*\<^sup>* sample_done (worker_set 5 Idle sample_done)"
    by (intro r_into_rtranclp ps_give_up)
qed

text \<open>C19: a worker whose claim was taken over, or whose key is settled, cannot settle: its
  UPDATE matches no row and changes nothing.\<close>

theorem stale_owner_cannot_settle:
  assumes "proto_initial ns key s0" and "(proto_step fk ns key)\<^sup>*\<^sup>* s0 s"
    and "pt_worker s k = Holding t" and "register_of ns key s \<noteq> Held t"
    and "settle_stmt ns key t st result (pt_db s) = Inr (n, d')"
  shows "n = 0 \<and> key_rows ns key d' = key_rows ns key (pt_db s)"
proof -
  have "valid_db (pt_db s)"
    using claim_protocol.star_inv [OF assms(2) claim_protocol.inv_initial [OF assms(1)]]
    by (simp add: proto_inv_def)
  then obtain x where x: "is_row ns key x (pt_db s)" by (rule valid_is_row)
  show ?thesis
  proof (cases x)
    case None
    with settle_no_row [OF assms(5)] x show ?thesis by (simp add: is_row_def)
  next
    case (Some y)
    with assms(4) register_is_row [OF x] have "\<not> (ir_claim_token y = t \<and> ir_state y = started)"
      by (auto split: if_splits)
    with settle_row [OF assms(5) x [unfolded Some]] x Some show ?thesis by (auto simp: is_row_def)
  qed
qed

theorem stale_owner_cannot_settle_witness:
  "\<exists>n d'. settle_stmt ''agent_run'' ''k'' 7 IdemCompleted [] (pt_db sample_stolen) = Inr (n, d') \<and> n = 0"
proof -
  have "pt_worker sample_stolen 0 = Holding 7"
    by (simp add: sample_stolen_def sample_held_def)
  moreover have "register_of ''agent_run'' ''k'' sample_stolen \<noteq> Held 7"
    by (simp add: register_of_def key_rows_def sample_stolen_def at_key_def sample_claim_def claim_row_def)
  moreover obtain n d' where "settle_stmt ''agent_run'' ''k'' 7 IdemCompleted [] (pt_db sample_stolen) = Inr (n, d')"
    by (simp add: settle_stmt_def update_idem_def update_where_def sample_stolen_def
        sample_claim_def claim_row_def idempotency_check_def started_def at_key_def)
  ultimately show ?thesis
    using stale_owner_cannot_settle [OF sample_initial sample_to_stolen] by blast
qed

end
