(* ===== verification/Text_Search.thy ===== *)
theory Text_Search
  imports Py_Values
begin

section \<open>Searching and taking apart texts\<close>

text \<open>
  The \<open>str\<close> and \<open>re\<close> operations that settings and logging use: \<open>search\<close> for a compiled
  pattern, case folding on U+0000 to U+00FF, \<open>split\<close>, \<open>partition\<close> and \<open>rsplit\<close>.
\<close>

subsection \<open>Patterns\<close>

fun search :: "(string \<Rightarrow> bool) \<Rightarrow> string \<Rightarrow> bool" where
  \<comment> \<open>\<open>pattern.search(s)\<close>, for a pattern given by where it matches\<close>
  "search m [] = m []"
| "search m (c # cs) = (m (c # cs) \<or> search m cs)"

lemma search_iff: "search m s \<longleftrightarrow> (\<exists>p q. s = p @ q \<and> m q)"
proof (induction s)
  case (Cons c cs)
  have "(\<exists>p q. c # cs = p @ q \<and> m q) \<longleftrightarrow> m (c # cs) \<or> (\<exists>p q. cs = p @ q \<and> m q)"
    by (metis append_Cons append_Nil append_eq_Cons_conv)
  with Cons show ?case by simp
qed simp

definition lower_char :: "char \<Rightarrow> char" where
  \<comment> \<open>\<open>str.lower\<close> on U+0000 to U+00FF\<close>
  "lower_char c = (let n = (of_char c :: nat) in
     if 65 \<le> n \<and> n \<le> 90 \<or> 192 \<le> n \<and> n \<le> 222 \<and> n \<noteq> 215 then char_of (n + 32) else c)"

definition lower :: "string \<Rightarrow> string" where
  "lower s = map lower_char s"

definition has_word :: "string list \<Rightarrow> string \<Rightarrow> bool" where
  \<comment> \<open>an alternation of literal words, tried at the start of a text\<close>
  "has_word ws s = list_ex (\<lambda>p. prefix p s) ws"

definition names_api_key :: "string \<Rightarrow> bool" where
  \<comment> \<open>the alternative \<open>api[_-]?key\<close>\<close>
  "names_api_key s = has_word [''apikey'', ''api_key'', ''api-key''] s"

definition upper_char :: "char \<Rightarrow> string" where
  \<comment> \<open>\<open>str.upper\<close>; the upper-case forms of U+00B5 and U+00FF lie beyond U+00FF and are left as they are\<close>
  "upper_char c = (let n = (of_char c :: nat) in
     if 97 \<le> n \<and> n \<le> 122 \<or> 224 \<le> n \<and> n \<le> 254 \<and> n \<noteq> 247 then [char_of (n - 32)]
     else if n = 223 then ''SS'' else [c])"

definition upper :: "string \<Rightarrow> string" where
  "upper s = concat (map upper_char s)"

subsection \<open>Splitting\<close>

definition before :: "char \<Rightarrow> string \<Rightarrow> string" where
  \<comment> \<open>\<open>s.partition(c)[0]\<close>\<close>
  "before c s = takeWhile (\<lambda>x. x \<noteq> c) s"

definition after :: "char \<Rightarrow> string \<Rightarrow> string" where
  \<comment> \<open>\<open>s.partition(c)[2]\<close>\<close>
  "after c s = drop 1 (dropWhile (\<lambda>x. x \<noteq> c) s)"

definition after_last :: "char \<Rightarrow> string \<Rightarrow> string" where
  \<comment> \<open>\<open>s.rsplit(c, 1)[-1]\<close>\<close>
  "after_last c s = rev (before c (rev s))"

fun split_on :: "char \<Rightarrow> string \<Rightarrow> string list" where
  \<comment> \<open>\<open>s.split(c)\<close>\<close>
  "split_on c [] = [[]]"
| "split_on c (x # xs) =
     (if x = c then [] # split_on c xs
      else (x # hd (split_on c xs)) # tl (split_on c xs))"

definition join :: "string \<Rightarrow> string list \<Rightarrow> string" where
  \<comment> \<open>\<open>sep.join(parts)\<close>\<close>
  "join sep parts = (case parts of [] \<Rightarrow> [] | p # ps \<Rightarrow> p @ concat (map (\<lambda>x. sep @ x) ps))"

lemma split_on_not_Nil [simp]: "split_on c s \<noteq> []"
  by (cases s) simp_all

lemma before_append: "c \<notin> set s \<Longrightarrow> before c (s @ c # t) = s"
  by (simp add: before_def takeWhile_append)

lemma after_append: "c \<notin> set s \<Longrightarrow> after c (s @ c # t) = t"
  by (simp add: after_def dropWhile_append)

lemma before_id: "c \<notin> set s \<Longrightarrow> before c s = s"
  by (simp add: before_def takeWhile_eq_all_conv) blast

lemma after_none: "c \<notin> set s \<Longrightarrow> after c s = []"
  unfolding after_def by (subst dropWhile_eq_Nil_conv [THEN iffD2]) auto

lemma after_last_append: "after_last c (s @ c # t) = (if c \<in> set t then after_last c t else t)"
  by (auto simp: after_last_def before_def takeWhile_append takeWhile_eq_all_conv rev_swap)

lemma split_on_append: "split_on c (s @ c # t) = split_on c s @ split_on c t"
  by (induction s) (simp_all add: hd_append tl_append split: list.split)

lemma split_on_plain: "c \<notin> set s \<Longrightarrow> split_on c s = [s]"
  by (induction s) auto

lemma split_on_join: "join [c] (split_on c s) = s"
proof (induction s)
  case (Cons x xs)
  obtain p ps where "split_on c xs = p # ps" by (cases "split_on c xs") simp_all
  with Cons show ?case by (simp add: join_def)
qed (simp add: join_def)

subsection \<open>Normal forms\<close>

text \<open>What a routine that brings values to a normal form promises; redaction is one.\<close>

locale normaliser =
  fixes norm :: "'a \<Rightarrow> 'a" and normal :: "'a \<Rightarrow> bool"
  assumes normal_norm: "normal (norm x)"
    and norm_normal: "normal x \<Longrightarrow> norm x = x"
begin

lemma idem: "norm (norm x) = norm x"
  by (rule norm_normal) (rule normal_norm)

lemma normal_iff: "normal x \<longleftrightarrow> norm x = x"
  using normal_norm [of x] norm_normal [of x] by auto

end

end
