(* ===== verification/Log_Redaction.thy ===== *)
theory Log_Redaction
  imports Settings
begin

section \<open>Structured logs and their redaction (observability/logging.py, observability/context.py)\<close>

text \<open>
  The two compiled patterns as matchers, \<open>redact\<close>, the trace context, the two formatters and
  \<open>configure_logging\<close>.

  \<^item> \<open>match_url\<close> is the pattern for credentials in a URL, tried at the start of a text. Its
    two character classes exclude the character that must follow them, so a match is unique
    and greedy matching never backtracks; \<open>match_url_iff\<close> states the pattern declaratively.
  \<^item> \<open>mask_urls\<close> is \<open>re.sub\<close>: leftmost match, then on from the end of the match.
  \<^item> a \<open>log_value\<close> has a constructor for each type \<open>redact\<close> tells apart; the type of
    dictionary keys and of all other objects is left open, with \<open>str\<close> of a key a parameter.
\<close>

definition secret_key_at :: "string \<Rightarrow> bool" where
  "secret_key_at s = (names_api_key s \<or>
     has_word [''token'', ''secret'', ''password'', ''authorization''] s)"

definition is_secret_field :: "string \<Rightarrow> bool" where
  \<comment> \<open>\<open>SECRET_FIELD_PATTERN.search(key)\<close>, ignoring case\<close>
  "is_secret_field k = search secret_key_at (lower k)"

subsection \<open>Credentials in a URL\<close>

definition scheme_start :: "char \<Rightarrow> bool" where
  "scheme_start c = (let n = (of_char c :: nat) in 97 \<le> n \<and> n \<le> 122)"

definition scheme_char :: "char \<Rightarrow> bool" where
  "scheme_char c = (scheme_start c \<or> c \<in> set ''0123456789+.-'')"

definition user_char :: "char \<Rightarrow> bool" where
  "user_char c = (c \<noteq> CHR ''/'' \<and> \<not> py_space c \<and> c \<noteq> CHR ''@'')"

definition mask_text :: string where
  "mask_text = ''********''"

definition match_url :: "string \<Rightarrow> (string \<times> string \<times> string) option" where
  \<comment> \<open>the scheme group, the userinfo group and the text after the match\<close>
  "match_url s =
     (let scheme = takeWhile scheme_char s; rest = dropWhile scheme_char s;
          user = takeWhile user_char (drop 3 rest); after = dropWhile user_char (drop 3 rest)
      in if s \<noteq> [] \<and> scheme_start (hd s) \<and> prefix ''://'' rest \<and> user \<noteq> [] \<and> prefix ''@'' after
         then Some (scheme @ ''://'', user, drop 1 after) else None)"

lemma match_url_shorter: "match_url s = Some (a, u, t) \<Longrightarrow> length t < length s"
proof -
  assume "match_url s = Some (a, u, t)"
  then have t: "t = drop 1 (dropWhile user_char (drop 3 (dropWhile scheme_char s)))"
    and "prefix ''@'' (dropWhile user_char (drop 3 (dropWhile scheme_char s)))"
    by (simp_all add: match_url_def Let_def split: if_splits)
  then have "length t < length (dropWhile user_char (drop 3 (dropWhile scheme_char s)))"
    by (auto simp: prefix_def)
  also have "\<dots> \<le> length (drop 3 (dropWhile scheme_char s))" by (rule length_dropWhile_le)
  also have "\<dots> \<le> length (dropWhile scheme_char s)" by simp
  also have "\<dots> \<le> length s" by (rule length_dropWhile_le)
  finally show ?thesis .
qed

function mask_urls :: "string \<Rightarrow> string" where
  \<comment> \<open>\<open>URL_CREDENTIALS_PATTERN.sub(r"\g<scheme>********@", s)\<close>\<close>
  "mask_urls s =
     (case match_url s of
        Some (a, u, t) \<Rightarrow> a @ mask_text @ ''@'' @ mask_urls t
      | None \<Rightarrow> (case s of [] \<Rightarrow> [] | c # cs \<Rightarrow> c # mask_urls cs))"
  by pat_completeness auto
termination by (relation "measure length") (auto dest: match_url_shorter)

declare mask_urls.simps [simp del]

subsection \<open>The pattern, declaratively\<close>

definition is_scheme :: "string \<Rightarrow> bool" where
  "is_scheme a \<longleftrightarrow> (\<exists>c cs. a = c # cs @ ''://'' \<and> scheme_start c \<and> list_all scheme_char cs)"

lemma char_classes [simp]:
  "\<not> scheme_char CHR '':''" "\<not> scheme_char CHR ''/''" "\<not> user_char CHR ''/''" "\<not> user_char CHR ''@''"
  "\<not> scheme_start CHR '':''" "\<not> scheme_start CHR ''/''" "\<not> scheme_start CHR ''@''"
  "user_char CHR ''*''" "\<not> scheme_start CHR ''*''" "\<not> scheme_char CHR ''@''"
  by (simp_all add: scheme_char_def scheme_start_def user_char_def py_space_def)

lemma scheme_start_char [simp]: "scheme_start c \<Longrightarrow> scheme_char c"
  by (simp add: scheme_char_def)

lemma match_url_iff:
  "match_url s = Some (a, u, t) \<longleftrightarrow>
     s = a @ u @ ''@'' @ t \<and> is_scheme a \<and> u \<noteq> [] \<and> list_all user_char u"
proof
  assume m: "match_url s = Some (a, u, t)"
  let ?sch = "takeWhile scheme_char s" and ?rest = "dropWhile scheme_char s"
  define r where "r = drop 3 ?rest"
  from m have pre: "prefix ''://'' ?rest" and a: "a = ?sch @ ''://''" and u: "u = takeWhile user_char r" "u \<noteq> []"
    and at: "prefix ''@'' (dropWhile user_char r)" and t: "t = drop 1 (dropWhile user_char r)"
    and hd: "s \<noteq> []" "scheme_start (hd s)"
    unfolding match_url_def Let_def r_def by (simp_all split: if_split_asm)
  from pre have r: "?rest = ''://'' @ r" by (auto simp: r_def prefix_def)
  have "dropWhile user_char r = ''@'' @ t" using at t by (auto simp: prefix_def)
  then have "r = u @ ''@'' @ t" by (metis u(1) takeWhile_dropWhile_id)
  moreover have "s = ?sch @ ?rest" by simp
  ultimately have "s = a @ u @ ''@'' @ t" by (simp only: a r append_assoc)
  moreover have "is_scheme a"
  proof (cases s)
    case (Cons c cs)
    with hd(2) have "a = c # takeWhile scheme_char cs @ ''://''" by (simp add: a)
    with hd(2) Cons show ?thesis by (auto simp: is_scheme_def list_all_iff dest: set_takeWhileD)
  qed (use hd in simp)
  ultimately show "s = a @ u @ ''@'' @ t \<and> is_scheme a \<and> u \<noteq> [] \<and> list_all user_char u"
    using u by (auto simp: list_all_iff dest: set_takeWhileD)
next
  assume s: "s = a @ u @ ''@'' @ t \<and> is_scheme a \<and> u \<noteq> [] \<and> list_all user_char u"
  then obtain c cs where a: "a = c # cs @ ''://''" and c: "scheme_start c" and cs: "list_all scheme_char cs"
    by (auto simp: is_scheme_def)
  have sch: "takeWhile scheme_char s = c # cs" "dropWhile scheme_char s = ''://'' @ u @ ''@'' @ t"
    using s c cs by (simp_all add: a list_all_iff)
  have user: "takeWhile user_char (u @ ''@'' @ t) = u" "dropWhile user_char (u @ ''@'' @ t) = ''@'' @ t"
    using s by (simp_all add: list_all_iff)
  have "drop 3 (''://'' @ u @ ''@'' @ t) = u @ ''@'' @ t" "s \<noteq> []" "hd s = c" using s by (simp_all add: a)
  with s c user show "match_url s = Some (a, u, t)" unfolding match_url_def Let_def sch by (simp add: a)
qed

lemma match_url_Nil [simp]: "match_url [] = None"
  by (simp add: match_url_def)

lemma match_url_start: "\<not> scheme_start c \<Longrightarrow> match_url (c # cs) = None"
  by (simp add: match_url_def)

lemma mask_urls_match: "match_url s = Some (a, u, t) \<Longrightarrow> mask_urls s = a @ mask_text @ ''@'' @ mask_urls t"
  by (subst mask_urls.simps) simp

lemma mask_urls_skip: "match_url (c # cs) = None \<Longrightarrow> mask_urls (c # cs) = c # mask_urls cs"
  by (subst mask_urls.simps) simp

lemma mask_urls_Nil [simp]: "mask_urls [] = []"
  by (subst mask_urls.simps) simp

lemma mask_urls_cases:
  obtains (nil) "s = []" | (skip) c cs where "s = c # cs" "match_url s = None"
  | (match) a u t where "match_url s = Some (a, u, t)"
  by (cases "match_url s"; cases s) auto

lemma mask_urls_induct [case_names nil skip match]:
  assumes "P []" and "\<And>c cs. match_url (c # cs) = None \<Longrightarrow> P cs \<Longrightarrow> P (c # cs)"
    and "\<And>s a u t. match_url s = Some (a, u, t) \<Longrightarrow> P t \<Longrightarrow> P s"
  shows "P s"
proof (induction "length s" arbitrary: s rule: less_induct)
  case less
  show ?case
  proof (cases s rule: mask_urls_cases)
    case nil
    with assms(1) show ?thesis by simp
  next
    case (skip c cs)
    with less [of cs] assms(2) show ?thesis by simp
  next
    case (match a u t)
    with less [OF match_url_shorter [OF match]] assms(3) show ?thesis by blast
  qed
qed

text \<open>A run of characters other than a slash starts a text and its masked form alike, up to and
  including the character after the run.\<close>

lemma takeWhile_mask:
  assumes "\<not> p CHR ''/''"
  shows "takeWhile p (mask_urls s) = takeWhile p s"
    and "take 1 (dropWhile p (mask_urls s)) = take 1 (dropWhile p s)"
proof -
  have "takeWhile p (mask_urls s) = takeWhile p s \<and> take 1 (dropWhile p (mask_urls s)) = take 1 (dropWhile p s)"
  proof (induction s rule: mask_urls_induct)
    case (match s a u t)
    from match(1) have s: "s = a @ u @ ''@'' @ t" and "is_scheme a" by (simp_all add: match_url_iff)
    then have "CHR ''/'' \<in> set a" by (auto simp: is_scheme_def)
    with assms have "\<exists>x \<in> set a. \<not> p x" by blast
    then have run: "takeWhile p (a @ r) = takeWhile p a" "take 1 (dropWhile p (a @ r)) = take 1 (dropWhile p a)" for r
      by (auto simp: takeWhile_append1 dropWhile_append1 Suc_le_eq)
    show ?case unfolding mask_urls_match [OF match(1)] run unfolding s run by simp
  qed (simp_all add: mask_urls_skip)
  then show "takeWhile p (mask_urls s) = takeWhile p s"
    and "take 1 (dropWhile p (mask_urls s)) = take 1 (dropWhile p s)" by simp_all
qed

lemma mask_urls_hd: "take 1 (mask_urls s) = take 1 s"
  using takeWhile_mask(2) [of "\<lambda>c. False"] by (simp add: dropWhile_eq_self_iff)

lemma mask_urls_slash: "mask_urls (CHR ''/'' # s) = CHR ''/'' # mask_urls s"
  by (simp add: mask_urls_skip match_url_start)

text \<open>Masking what follows a character cannot create a match that begins at the character.\<close>

lemma match_url_mask_skip:
  assumes "match_url (c # cs) = None"
  shows "match_url (c # mask_urls cs) = None"
proof (rule ccontr)
  assume "match_url (c # mask_urls cs) \<noteq> None"
  then obtain a u t where m: "match_url (c # mask_urls cs) = Some (a, u, t)" by auto
  then obtain ds where a: "a = c # ds @ ''://''" and c: "scheme_start c" and ds: "list_all scheme_char ds"
    and s: "mask_urls cs = ds @ ''://'' @ u @ ''@'' @ t" and u: "u \<noteq> []" "list_all user_char u"
    by (auto simp: match_url_iff is_scheme_def)
  have "takeWhile scheme_char (mask_urls cs) = ds" "take 1 (dropWhile scheme_char (mask_urls cs)) = '':''"
    using ds by (simp_all add: s list_all_iff)
  then have run: "takeWhile scheme_char cs = ds" "take 1 (dropWhile scheme_char cs) = '':''"
    using takeWhile_mask [of scheme_char cs] by simp_all
  then obtain r where cs: "cs = ds @ '':'' @ r"
    by (metis append_take_drop_id takeWhile_dropWhile_id)
  have skip: "match_url (drop i ds @ '':'' @ r) = None" for i
  proof (rule ccontr)
    assume "match_url (drop i ds @ '':'' @ r) \<noteq> None"
    then obtain b v t' where "match_url (drop i ds @ '':'' @ r) = Some (b, v, t')" by auto
    then obtain e es where b: "drop i ds @ '':'' @ r = e # es @ ''://'' @ v @ ''@'' @ t'"
      and es: "scheme_start e" "list_all scheme_char es" and v: "v \<noteq> []" "list_all user_char v"
      by (auto simp: match_url_iff is_scheme_def)
    have "list_all scheme_char (drop i ds)" using ds by (auto simp: list_all_iff dest: in_set_dropD)
    then have "dropWhile scheme_char (drop i ds @ '':'' @ r) = '':'' @ r" by (simp add: list_all_iff)
    moreover have "dropWhile scheme_char (drop i ds @ '':'' @ r) = ''://'' @ v @ ''@'' @ t'"
      using es unfolding b by (simp add: list_all_iff)
    ultimately have "c # cs = (c # ds @ ''://'') @ v @ ''@'' @ t'" by (simp add: cs)
    moreover have "is_scheme (c # ds @ ''://'')" using c ds by (auto simp: is_scheme_def)
    ultimately have "match_url (c # cs) = Some (c # ds @ ''://'', v, t')" using v unfolding match_url_iff by blast
    with assms show False by simp
  qed
  have "mask_urls (drop (length ds - n) ds @ '':'' @ r) = drop (length ds - n) ds @ '':'' @ mask_urls r"
    if "n \<le> length ds" for n
    using that
  proof (induction n)
    case 0
    show ?case by (simp add: mask_urls_skip match_url_start)
  next
    case (Suc n)
    then have "drop (length ds - Suc n) ds = ds ! (length ds - Suc n) # drop (length ds - n) ds"
      by (metis Cons_nth_drop_Suc Suc_diff_Suc Suc_le_lessD diff_less length_greater_0_conv
          list.size(3) not_less0 zero_less_Suc)
    with Suc skip [of "length ds - Suc n"] show ?case by (simp add: mask_urls_skip)
  qed
  from this [of "length ds"] have "mask_urls cs = ds @ '':'' @ mask_urls r" by (simp add: cs)
  with s have r: "mask_urls r = ''//'' @ u @ ''@'' @ t" by simp
  then have "take 1 r = ''/''" using mask_urls_hd [of r] by simp
  then obtain r1 where r1: "r = CHR ''/'' # r1" by (cases r) simp_all
  with r have m1: "mask_urls r1 = ''/'' @ u @ ''@'' @ t" by (simp add: mask_urls_slash)
  then have "take 1 r1 = ''/''" using mask_urls_hd [of r1] by simp
  then obtain r2 where r2: "r1 = CHR ''/'' # r2" by (cases r1) simp_all
  with m1 have m2: "mask_urls r2 = u @ ''@'' @ t" by (simp add: mask_urls_slash)
  have "takeWhile user_char (mask_urls r2) = u" "take 1 (dropWhile user_char (mask_urls r2)) = ''@''"
    using u by (simp_all add: m2 list_all_iff)
  then have "takeWhile user_char r2 = u" "take 1 (dropWhile user_char r2) = ''@''"
    using takeWhile_mask [of user_char r2] by simp_all
  then obtain t2 where "r2 = u @ ''@'' @ t2" by (metis append_take_drop_id takeWhile_dropWhile_id)
  then have "c # cs = a @ u @ ''@'' @ t2" by (simp add: a cs r1 r2)
  moreover have "is_scheme a" using a c ds by (auto simp: is_scheme_def)
  ultimately have "match_url (c # cs) = Some (a, u, t2)" using u unfolding match_url_iff by blast
  with assms show False by simp
qed

definition url_masked_at :: "string \<Rightarrow> bool" where
  "url_masked_at s = (case match_url s of None \<Rightarrow> True | Some (a, u, t) \<Rightarrow> u = mask_text)"

lemma url_masked_at_skip: "\<not> scheme_start c \<Longrightarrow> url_masked_at (c # cs)"
  by (simp add: url_masked_at_def match_url_start)

lemma url_masked_suffix:
  assumes "list_all scheme_char ds"
  shows "url_masked_at (ds @ ''://'' @ mask_text @ ''@'' @ t)"
proof (cases "ds \<noteq> [] \<and> scheme_start (hd ds)")
  case True
  then have "is_scheme (ds @ ''://'')" using assms by (cases ds) (auto simp: is_scheme_def)
  then have "match_url ((ds @ ''://'') @ mask_text @ ''@'' @ t) = Some (ds @ ''://'', mask_text, t)"
    by (simp only: match_url_iff) (simp add: mask_text_def)
  then show ?thesis by (simp add: url_masked_at_def)
qed (cases ds; simp add: url_masked_at_skip)

lemma mask_urls_masked: "list_all url_masked_at (suffixes (mask_urls s))"
proof (induction s rule: mask_urls_induct)
  case nil
  show ?case by (simp add: url_masked_at_def)
next
  case (skip c cs)
  with match_url_mask_skip [OF skip(1)] show ?case
    by (simp add: mask_urls_skip) (simp add: url_masked_at_def)
next
  case (match s a u t)
  then have "is_scheme a" by (simp add: match_url_iff)
  then obtain d ds' where "a = (d # ds') @ ''://''" "list_all scheme_char (d # ds')" by (auto simp: is_scheme_def)
  then obtain ds where ds: "list_all scheme_char ds" and a: "a = ds @ ''://''" by blast
  have "list_all url_masked_at (suffixes (ds @ ''://'' @ mask_text @ ''@'' @ mask_urls t))"
    using ds
  proof (induction ds)
    case Nil
    with match(2) show ?case by (simp add: mask_text_def url_masked_at_skip)
  next
    case (Cons d ds)
    with url_masked_suffix [of "d # ds"] show ?case by simp
  qed
  then show ?case by (simp add: mask_urls_match [OF match(1)] a)
qed

lemma mask_urls_fixpoint: "list_all url_masked_at (suffixes s) \<Longrightarrow> mask_urls s = s"
proof (induction s rule: mask_urls_induct)
  case (match s a u t)
  from match(1) have s: "s = a @ u @ ''@'' @ t" by (simp add: match_url_iff)
  have "s \<in> set (suffixes s)" by simp
  with match(3) have "url_masked_at s" by (simp only: list_all_iff)
  with match(1) have "u = mask_text" by (simp add: url_masked_at_def)
  moreover have "set (suffixes t) \<subseteq> set (suffixes s)" by (auto simp: s suffix_def)
  then have "mask_urls t = t" using match(2,3) by (auto simp: list_all_iff)
  ultimately show ?case unfolding mask_urls_match [OF match(1)] by (simp add: s)
next
  case (skip c cs)
  then have "list_all url_masked_at (suffixes cs)" by (auto simp: list_all_iff suffix_Cons)
  with skip show ?case by (simp add: mask_urls_skip)
qed simp

interpretation masking: normaliser mask_urls "\<lambda>s. list_all url_masked_at (suffixes s)"
  by unfold_locales (rule mask_urls_masked, rule mask_urls_fixpoint)

lemma mask_urls_twin:
  assumes "is_scheme a" and "u \<noteq> []" "list_all user_char u" and "u' \<noteq> []" "list_all user_char u'"
    and "mask_urls t = mask_urls t'"
  shows "mask_urls (a @ u @ ''@'' @ t) = mask_urls (a @ u' @ ''@'' @ t')"
proof -
  have "match_url (a @ u @ ''@'' @ t) = Some (a, u, t)" "match_url (a @ u' @ ''@'' @ t') = Some (a, u', t')"
    using assms(1-5) unfolding match_url_iff by simp_all
  then show ?thesis using assms(6) by (simp only: mask_urls_match)
qed

subsection \<open>Redaction of a payload\<close>

datatype ('k, 'o) log_value =
    LDict "('k \<times> ('k, 'o) log_value) list"
  | LList "('k, 'o) log_value list"
  | LTuple "('k, 'o) log_value list"
  | LStr string
  | LOther 'o

fun redact :: "('k \<Rightarrow> string) \<Rightarrow> ('k, 'o) log_value \<Rightarrow> ('k, 'o) log_value" where
  \<comment> \<open>\<open>key_str\<close> is \<open>str\<close> of a key\<close>
  "redact key_str (LDict kvs) =
     LDict (map (\<lambda>(k, v). (k, if is_secret_field (key_str k) then LStr mask_text else redact key_str v)) kvs)"
| "redact key_str (LList vs) = LList (map (redact key_str) vs)"
| "redact key_str (LTuple vs) = LTuple (map (redact key_str) vs)"
| "redact key_str (LStr s) = LStr (mask_urls s)"
| "redact key_str (LOther v) = LOther v"

subsection \<open>Trace context\<close>

record trace_context =
  tc_request_id :: "string option"
  tc_user_id :: "string option"
  tc_conversation_id :: "string option"
  tc_agent_run_id :: "string option"
  tc_task_id :: "string option"

definition empty_trace :: trace_context where
  "empty_trace = \<lparr>tc_request_id = None, tc_user_id = None, tc_conversation_id = None,
     tc_agent_run_id = None, tc_task_id = None\<rparr>"

definition log_field_names :: "string list" where
  "log_field_names = [''request_id'', ''user_id'', ''conversation_id'', ''agent_run_id'', ''task_id'']"

definition as_log_fields :: "trace_context \<Rightarrow> (string \<times> string) list" where
  "as_log_fields c =
     map (\<lambda>(k, v). (k, the v)) (filter (\<lambda>(k, v). v \<noteq> None)
       [(''request_id'', tc_request_id c), (''user_id'', tc_user_id c),
        (''conversation_id'', tc_conversation_id c), (''agent_run_id'', tc_agent_run_id c),
        (''task_id'', tc_task_id c)])"

definition get_trace_context :: "trace_context option \<Rightarrow> trace_context" where
  \<comment> \<open>the context variable's value\<close>
  "get_trace_context v = (case v of None \<Rightarrow> empty_trace | Some c \<Rightarrow> c)"

definition bind_trace_context ::
  "trace_context \<Rightarrow> (trace_context option \<Rightarrow> 'a \<times> trace_context option) \<Rightarrow>
   trace_context option \<Rightarrow> 'a \<times> trace_context option" where
  \<comment> \<open>\<open>with bind_trace_context(c): body\<close>; \<open>'a\<close> carries the body's outcome, a raised one included\<close>
  "bind_trace_context c body v = (let (a, v') = body (Some c) in (a, v))"

subsection \<open>Formatting a record\<close>

record log_record =
  lr_level :: string
  lr_name :: string
  lr_message :: string
  lr_attrs :: "string \<rightharpoonup> string"
  lr_exception :: "string option"

definition trace_filter :: "trace_context option \<Rightarrow> log_record \<Rightarrow> log_record" where
  "trace_filter v r =
     r\<lparr>lr_attrs := foldl (\<lambda>m (k, x). m(k \<mapsto> x)) (lr_attrs r) (as_log_fields (get_trace_context v))\<rparr>"

definition json_char :: "char \<Rightarrow> string" where
  \<comment> \<open>\<open>json.dumps(..., ensure_ascii=False)\<close> of one character of a text\<close>
  "json_char c = (let n = (of_char c :: nat) in
     if n = 34 then [char_of (92 :: nat), c] else if n = 92 then [c, c]
     else if n = 8 then [char_of (92 :: nat), CHR ''b''] else if n = 9 then [char_of (92 :: nat), CHR ''t'']
     else if n = 10 then [char_of (92 :: nat), CHR ''n''] else if n = 12 then [char_of (92 :: nat), CHR ''f'']
     else if n = 13 then [char_of (92 :: nat), CHR ''r'']
     else if n < 32 then [char_of (92 :: nat), CHR ''u''] @ ''00'' @ hex2 n else [c])"

definition json_str :: "string \<Rightarrow> string" where
  "json_str s = [char_of (34 :: nat)] @ concat (map json_char s) @ [char_of (34 :: nat)]"

definition json_object :: "(string \<times> string) list \<Rightarrow> string" where
  "json_object kvs = ''{'' @ join '', '' (map (\<lambda>(k, v). json_str k @ '': '' @ json_str v) kvs) @ ''}''"

definition payload :: "string \<Rightarrow> log_record \<Rightarrow> (string \<times> string) list" where
  \<comment> \<open>\<open>now\<close> is the clock's time in ISO format; a field that is absent or empty is left out\<close>
  "payload now r =
     [(''timestamp'', now), (''level'', lr_level r), (''logger'', lr_name r), (''message'', lr_message r)]
     @ filter (\<lambda>(k, v). v \<noteq> []) (map (\<lambda>k. (k, get_or (lr_attrs r) k [])) log_field_names)
     @ (case lr_exception r of None \<Rightarrow> [] | Some x \<Rightarrow> [(''exception'', x)])"

fun str_items :: "(string, unit) log_value \<Rightarrow> (string \<times> string) list" where
  \<comment> \<open>the items of a dictionary of texts\<close>
  "str_items (LDict kvs) = map (\<lambda>(k, v). (k, case v of LStr s \<Rightarrow> s | _ \<Rightarrow> [])) kvs"
| "str_items _ = []"

definition format_json :: "string \<Rightarrow> log_record \<Rightarrow> string" where
  "format_json now r = json_object (str_items (redact id (LDict (map (\<lambda>(k, v). (k, LStr v)) (payload now r)))))"

definition format_console :: "string \<Rightarrow> log_record \<Rightarrow> string" where
  \<comment> \<open>\<open>logging.Formatter("%(asctime)s %(levelname)s [%(name)s] %(message)s")\<close>\<close>
  "format_console asctime r =
     (let line = asctime @ '' '' @ lr_level r @ '' ['' @ lr_name r @ ''] '' @ lr_message r
      in case lr_exception r of
           None \<Rightarrow> line
         | Some x \<Rightarrow> (if line \<noteq> [] \<and> last line = char_of (10 :: nat) then line else line @ [char_of (10 :: nat)]) @ x)"

subsection \<open>Configuration\<close>

record root_logger =
  root_level :: int
  root_handlers :: "log_format list"

definition configure_logging :: "string \<Rightarrow> log_format \<Rightarrow> root_logger \<Rightarrow> exn + root_logger" where
  \<comment> \<open>the handlers installed before are dropped; each handler has the trace filter\<close>
  "configure_logging level fmt root =
     (let root = root\<lparr>root_handlers := []\<rparr> in
      case level_number level of
        None \<Rightarrow> Inl (value_error level)
      | Some n \<Rightarrow> Inr (root\<lparr>root_level := n, root_handlers := [fmt]\<rparr>))"

definition emit :: "root_logger \<Rightarrow> string \<Rightarrow> trace_context option \<Rightarrow> log_record \<Rightarrow> string list" where
  \<comment> \<open>one text per handler\<close>
  "emit root now v r =
     map (\<lambda>f. case f of LogJson \<Rightarrow> format_json now (trace_filter v r) | LogConsole \<Rightarrow> format_console now (trace_filter v r))
       (root_handlers root)"

lemma format_json_masks: "format_json now r = json_object (map (\<lambda>(k, v). (k, mask_urls v)) (payload now r))"
proof -
  have "\<not> is_secret_field k" if "k \<in> fst ` set (payload now r)" for k
  proof -
    have "k \<in> set ([''timestamp'', ''level'', ''logger'', ''message'', ''exception''] @ log_field_names)"
      using that by (auto simp: payload_def split: option.splits)
    moreover have "list_all (\<lambda>k. \<not> is_secret_field k)
        ([''timestamp'', ''level'', ''logger'', ''message'', ''exception''] @ log_field_names)" by code_simp
    ultimately show ?thesis unfolding list_all_iff by blast
  qed
  then show ?thesis unfolding format_json_def
    by (intro arg_cong [of _ _ json_object]) (force simp: split: if_splits)
qed

end
