(* ===== verification/Settings_Properties.thy ===== *)
theory Settings_Properties
  imports Settings
begin

section \<open>Properties of the settings\<close>

text \<open>
  What \<open>load\<close> guarantees of the settings it returns and of the error it raises, and what the
  summary of the settings does not reveal.
\<close>

subsection \<open>Loading\<close>

lemma loaded_valid:
  assumes "load src = Inr s"
  shows "settings_valid s \<and> (app_environment (set_app s) \<noteq> EnvProduction \<or> production_ready s)"
  using assms
proof (cases rule: load_InrE)
  case (1 e fl p)
  have "settings_valid s"
    using load_app_Inr [OF 1(3)] load_parts(1) [OF 1(4)] load_parts(2) [OF 1(7)] by (simp add: settings_valid_def)
  moreover have "production_ready s" if "app_environment (set_app s) = EnvProduction"
  proof -
    from that load_app_Inr [OF 1(3)] have e: "e = EnvProduction" by simp
    note required = required_is_set [OF 1(2) [unfolded e]]
    have "llm_implemented (set_llm s)" using 1(2)
      by (auto simp: e validate_required_environment_def Let_def 1(9) load_llm_def llm_implemented_def split: if_splits)
    moreover have "database_url (set_database s) \<noteq> []"
      using load_parts(3) [OF 1(5)] required [of "''DATABASE_URL''"] by (auto simp: required_variables_def get_or_def)
    moreover have "has_secret (security_secret_key (set_security s))"
      using load_parts(2) [OF 1(7)] required [of "''NEXABOT_SECRET_KEY''"] optional_secret_has
      by (auto simp: required_variables_def)
    moreover have "enable_telegram fl \<longrightarrow> telegram_enabled (set_telegram s)"
      using load_parts(4) [OF 1(6)] required [of "''TELEGRAM_BOT_TOKEN''"] optional_secret_has
      by (auto simp: telegram_enabled_def required_variables_def)
    moreover have "enable_workers fl \<longrightarrow> redis_url (set_redis s) \<noteq> []"
      using required [of "''REDIS_URL''"]
      by (auto simp: 1(8) load_redis_def required_variables_def get_or_def)
    ultimately show ?thesis by (simp add: production_ready_def 1(10))
  qed
  ultimately show ?thesis by blast
qed

lemmas loaded_settings_valid = loaded_valid [THEN conjunct1]

text \<open>C23: settings that load are valid: the numbers are in range and the log level is one the logging
  library accepts. In production every secret that an enabled feature needs is present and the
  provider has an adapter.\<close>

theorem loaded_settings_are_valid:
  assumes "load src = Inr s"
  shows "settings_valid s \<and> (app_environment (set_app s) \<noteq> EnvProduction \<or> production_ready s)"
  using assms by (rule loaded_valid)

definition production_environ :: environ where
  "production_environ = [''NEXABOT_ENVIRONMENT'' \<mapsto> '' Production '', ''DATABASE_URL'' \<mapsto> ''postgresql://u:p@db/nexa'',
     ''NEXABOT_SECRET_KEY'' \<mapsto> ''k'', ''NEXABOT_API_PORT'' \<mapsto> ''8_080'', ''NEXABOT_LOG_LEVEL'' \<mapsto> ''debug'']"

lemma production_loads:
  "case load production_environ of Inl _ \<Rightarrow> False
   | Inr s \<Rightarrow> app_environment (set_app s) = EnvProduction \<and> api_port (set_api s) = 8080"
  by code_simp

theorem loaded_settings_are_valid_witness:
  "case load production_environ of Inl _ \<Rightarrow> False | Inr s \<Rightarrow> settings_valid s \<and> production_ready s"
proof -
  obtain s where "load production_environ = Inr s" "app_environment (set_app s) = EnvProduction"
    using production_loads by (auto split: sum.splits)
  with loaded_settings_are_valid [OF this(1)] show ?thesis by simp
qed

definition is_configuration_error :: "exn \<Rightarrow> bool" where
  "is_configuration_error e = (case e of Nexa x \<Rightarrow> err_class x = ClsConfiguration | _ \<Rightarrow> False)"

lemma configuration_errors [simp]: "is_configuration_error (configuration_error m c ds)"
  by (simp add: is_configuration_error_def configuration_error_def ConfigurationError_def)

lemma reading_errors:
  "as_bool src v b = Inl e \<Longrightarrow> is_configuration_error e"
  "as_int src v i = Inl e \<Longrightarrow> is_configuration_error e"
  "as_enum members val raw v d = Inl e \<Longrightarrow> is_configuration_error e"
  "validate_required_environment src env fl p = Inl e \<Longrightarrow> is_configuration_error e"
  "load_app src env = Inl e \<Longrightarrow> is_configuration_error e"
  by (auto simp: as_bool_def as_int_def as_enum_def validate_required_environment_def load_app_def mk_app_settings_def
      normalize_log_level_def Let_def sum_bind_Inl_iff split: if_splits option.splits sum.splits)

text \<open>C40: settings that do not load fail with a configuration error, except that an integer outside
  the bounds of its field ends in a Pydantic error.\<close>

theorem load_fails_with_configuration_error:
  assumes "load src = Inl e"
  shows "is_configuration_error e \<or>
    (\<exists>i. as_int src ''NEXABOT_API_PORT'' 8000 = Inr i \<and> (i < 1 \<or> 65535 < i) \<and> e = pydantic_error ''ApiSettings'') \<or>
    (\<exists>i j. as_int src ''NEXABOT_MAX_REQUESTS_PER_MINUTE'' 60 = Inr i \<and> as_int src ''NEXABOT_MAX_FILE_SIZE_MB'' 25 = Inr j \<and>
       (i < 1 \<or> j < 1) \<and> e = pydantic_error ''SecuritySettings'')"
  using assms
  by (auto simp: load_def load_features_def load_api_def load_database_def load_telegram_def load_security_def
      mk_api_settings_def mk_security_settings_def sum_bind_Inl_iff dest: reading_errors split: if_splits)

theorem load_fails_with_configuration_error_witness:
  "load [''NEXABOT_API_PORT'' \<mapsto> ''0''] = Inl (pydantic_error ''ApiSettings'') \<and>
     \<not> is_configuration_error (pydantic_error ''ApiSettings'')"
proof -
  have l: "load [''NEXABOT_API_PORT'' \<mapsto> ''0''] = Inl (pydantic_error ''ApiSettings'')" by code_simp
  from load_fails_with_configuration_error [OF l] l show ?thesis
    by (simp add: is_configuration_error_def pydantic_error_def)
qed

subsection \<open>The summary\<close>

definition plain_user_char :: "char \<Rightarrow> bool" where
  "plain_user_char c = (\<not> authority_end c \<and> c \<notin> set ''[]'' \<and> \<not> removed_url_char c)"

definition url_base :: "string \<Rightarrow> bool" where
  "url_base s = (s \<noteq> [] \<and> url_scheme_start (hd s) \<and> list_all url_scheme_char s)"

text \<open>Two connection URLs that differ in a credential: in the userinfo, or in the value of a sensitive
  query parameter. The list of names covers the parameter as the query decodes it.\<close>

inductive url_twin :: "url_lib \<Rightarrow> string \<Rightarrow> string \<Rightarrow> bool" for L where
  twin_refl: "url_twin L v v"
| twin_user: "url_base s \<Longrightarrow> list_all plain_user_char u \<Longrightarrow> list_all plain_user_char u' \<Longrightarrow>
    url_twin L (s @ ''://'' @ u @ ''@'' @ r) (s @ ''://'' @ u' @ ''@'' @ r)"
| twin_parameter: "url_base s \<Longrightarrow> set b \<inter> set ''?#'' = {} \<Longrightarrow> p = [] \<or> last p = CHR ''&'' \<Longrightarrow> CHR ''#'' \<notin> set p \<Longrightarrow>
    list_all (\<lambda>c. c \<notin> set ''&=#'' \<and> \<not> removed_url_char c) k \<Longrightarrow> is_sensitive_parameter (lib_unquote L k) \<Longrightarrow>
    set x \<inter> set ''&#'' = {} \<Longrightarrow> set x' \<inter> set ''&#'' = {} \<Longrightarrow> z = [] \<or> hd z \<in> set ''&#'' \<Longrightarrow>
    url_twin L (s @ ''://'' @ b @ ''?'' @ p @ k @ ''='' @ x @ z) (s @ ''://'' @ b @ ''?'' @ p @ k @ ''='' @ x' @ z)"

lemma url_chars [simp]:
  "\<not> removed_url_char CHR '':''" "\<not> removed_url_char CHR ''/''" "\<not> removed_url_char CHR ''@''"
  "\<not> removed_url_char CHR ''?''" "\<not> removed_url_char CHR ''=''" "\<not> removed_url_char CHR ''#''"
  "\<not> removed_url_char CHR ''&''"
  "\<not> url_scheme_char CHR '':''" "authority_end CHR ''/''" "authority_end CHR ''?''" "authority_end CHR ''#''"
  "\<not> authority_end CHR ''@''"
  by (simp_all add: removed_url_char_def url_scheme_char_def authority_end_def)

lemma url_base_chars: "url_base s \<Longrightarrow> c \<in> set s \<Longrightarrow> \<not> removed_url_char c \<and> c \<noteq> CHR '':'' \<and> \<not> (of_char c :: nat) \<le> 32"
  by (auto simp: url_base_def list_all_iff url_scheme_char_def removed_url_char_def dest!: bspec)

lemma clean_url_base:
  assumes "url_base s"
  shows "clean_url (s @ r) = s @ filter (\<lambda>c. \<not> removed_url_char c) r"
proof -
  have "filter (\<lambda>c. \<not> removed_url_char c) s = s" using assms by (auto simp: filter_id_conv dest: url_base_chars)
  moreover have "dropWhile (\<lambda>c. (of_char c :: nat) \<le> 32) (s @ r) = s @ r"
    using assms url_base_chars [OF assms, of "hd s"] by (cases s) (auto simp: url_base_def)
  ultimately show ?thesis by (simp add: clean_url_def)
qed

lemma split_scheme_base:
  assumes "url_base s"
  shows "split_scheme (s @ '':'' @ r) = (lower s, r)"
proof -
  have "CHR '':'' \<notin> set s" using url_base_chars [OF assms] by blast
  with assms show ?thesis by (simp add: split_scheme_def before_append after_append url_base_def)
qed

lemma redactable: "search (prefix ''://'') (s @ ''://'' @ r)"
  unfolding search_iff by (intro exI [of _ s] exI [of _ "''://'' @ r"]) simp

lemma urlsplit_base:
  assumes "url_base s"
  shows "urlsplit L (s @ ''://'' @ r) =
    (let r = filter (\<lambda>c. \<not> removed_url_char c) r; netloc = takeWhile (\<lambda>c. \<not> authority_end c) r;
         (path, query, fragment) = split_tail (dropWhile (\<lambda>c. \<not> authority_end c) r)
     in if netloc_ok L netloc
        then Inr \<lparr>us_scheme = lower s, us_netloc = netloc, us_path = path, us_query = query, us_fragment = fragment\<rparr>
        else Inl (value_error ''Invalid IPv6 URL''))"
proof -
  have "clean_url (s @ ''://'' @ r) = s @ '':'' @ (''//'' @ filter (\<lambda>c. \<not> removed_url_char c) r)"
    by (simp add: clean_url_base [OF assms])
  then have "split_scheme (clean_url (s @ ''://'' @ r)) = (lower s, ''//'' @ filter (\<lambda>c. \<not> removed_url_char c) r)"
    by (simp only: split_scheme_base [OF assms])
  then show ?thesis by (simp add: urlsplit_def Let_def)
qed

lemma redact_user:
  assumes "url_base s" and u: "list_all plain_user_char u"
  defines "f \<equiv> filter (\<lambda>c. \<not> removed_url_char c)"
  shows "redact_url L (s @ ''://'' @ u @ ''@'' @ r) =
    (let n = takeWhile (\<lambda>c. \<not> authority_end c) (f r);
         (path, query, fragment) = split_tail (dropWhile (\<lambda>c. \<not> authority_end c) (f r))
     in if netloc_ok L n
        then urlunsplit \<lparr>us_scheme = lower s, us_netloc = redaction @ ''@'' @ (if CHR ''@'' \<in> set n then after_last CHR ''@'' n else n),
               us_path = path, us_query = redact_query L query, us_fragment = fragment\<rparr>
        else redaction)"
proof -
  define n where "n = takeWhile (\<lambda>c. \<not> authority_end c) (f r)"
  have fu: "f (u @ ''@'' @ r) = u @ ''@'' @ f r"
    using u by (auto simp: f_def filter_id_conv list_all_iff plain_user_char_def)
  have tw: "takeWhile (\<lambda>c. \<not> authority_end c) (u @ ''@'' @ f r) = u @ ''@'' @ n"
    "dropWhile (\<lambda>c. \<not> authority_end c) (u @ ''@'' @ f r) = dropWhile (\<lambda>c. \<not> authority_end c) (f r)"
    using u by (auto simp: n_def list_all_iff plain_user_char_def takeWhile_append dropWhile_append)
  have br: "CHR ''['' \<notin> set u" "CHR '']'' \<notin> set u" using u by (auto simp: list_all_iff plain_user_char_def)
  then have "after CHR ''['' (u @ ''@'' @ n) = after CHR ''['' n"
    by (auto simp: after_def dropWhile_append)
  with br have ok: "netloc_ok L (u @ ''@'' @ n) = netloc_ok L n" by (simp add: netloc_ok_def)
  have "redact_netloc (u @ ''@'' @ n) = redaction @ ''@'' @ (if CHR ''@'' \<in> set n then after_last CHR ''@'' n else n)"
    using after_last_append [of "CHR ''@''" u n] by (simp add: redact_netloc_def)
  then show ?thesis unfolding redact_url_def urlsplit_base [OF assms(1)]
    using fu tw ok redactable [of s] by (simp add: n_def f_def Let_def split: prod.splits)
qed

lemma parse_query_at:
  assumes "p = [] \<or> last p = CHR ''&''" and "z = [] \<or> hd z = CHR ''&''"
  obtains xs ys where "\<And>w. CHR ''&'' \<notin> set w \<Longrightarrow> w \<noteq> [] \<Longrightarrow>
    filter (\<lambda>w. w \<noteq> []) (split_on CHR ''&'' (p @ w @ z)) = xs @ w # ys"
proof -
  obtain ys where ys: "\<And>w'. CHR ''&'' \<notin> set w' \<Longrightarrow> split_on CHR ''&'' (w' @ z) = w' # ys"
  proof (cases z)
    case Nil
    then show ?thesis using split_on_plain by (intro that [of "[]"]) simp
  next
    case (Cons c z')
    then have z: "z = CHR ''&'' # z'" using assms(2) by simp
    show ?thesis by (rule that [of "split_on CHR ''&'' z'"]) (simp add: z split_on_append split_on_plain)
  qed
  obtain xs where xs: "\<And>t. split_on CHR ''&'' (p @ t) = xs @ split_on CHR ''&'' t"
  proof (cases p rule: rev_cases)
    case Nil
    then show ?thesis by (intro that [of "[]"]) simp
  next
    case (snoc q c)
    then have p: "p = q @ ''&''" using assms(1) by simp
    show ?thesis by (rule that [of "split_on CHR ''&'' q"]) (simp add: p split_on_append)
  qed
  show ?thesis by (rule that [of "filter (\<lambda>w. w \<noteq> []) xs" "filter (\<lambda>w. w \<noteq> []) ys"]) (simp add: xs ys)
qed

lemma redact_query_parameter:
  assumes "p = [] \<or> last p = CHR ''&''" and "z = [] \<or> hd z = CHR ''&''"
    and "CHR ''&'' \<notin> set k" "CHR ''='' \<notin> set k" and "is_sensitive_parameter (lib_unquote L k)"
    and "CHR ''&'' \<notin> set x" "CHR ''&'' \<notin> set x'"
  shows "redact_query L (p @ k @ ''='' @ x @ z) = redact_query L (p @ k @ ''='' @ x' @ z)"
proof -
  obtain xs ys where "\<And>w. CHR ''&'' \<notin> set w \<Longrightarrow> w \<noteq> [] \<Longrightarrow>
    filter (\<lambda>w. w \<noteq> []) (split_on CHR ''&'' (p @ w @ z)) = xs @ w # ys" by (rule parse_query_at [OF assms(1,2)]) blast
  from this [of "k @ ''='' @ x"] this [of "k @ ''='' @ x'"] assms(3,6,7) have
    "filter (\<lambda>w. w \<noteq> []) (split_on CHR ''&'' (p @ k @ ''='' @ x @ z)) = xs @ (k @ ''='' @ x) # ys"
    "filter (\<lambda>w. w \<noteq> []) (split_on CHR ''&'' (p @ k @ ''='' @ x' @ z)) = xs @ (k @ ''='' @ x') # ys" by simp_all
  moreover have "before CHR ''='' (k @ ''='' @ v) = k" for v using assms(4) by (simp add: before_append)
  ultimately show ?thesis using assms(5) by (simp add: redact_query_def parse_qsl_def)
qed

lemma split_tail_query:
  assumes "set d \<inter> set ''?#'' = {}" and "CHR ''#'' \<notin> set q" and "z = [] \<or> hd z = CHR ''#''"
  shows "split_tail (d @ ''?'' @ q @ z) = (d, q, after CHR ''#'' z)"
proof -
  have h: "CHR ''#'' \<notin> set (d @ ''?'' @ q)" and d: "CHR ''?'' \<notin> set d" using assms(1,2) by auto
  have "before CHR ''#'' (d @ ''?'' @ q @ z) = d @ ''?'' @ q \<and> after CHR ''#'' (d @ ''?'' @ q @ z) = after CHR ''#'' z"
  proof (cases z)
    case Nil
    with before_id [OF h] after_none [OF h] show ?thesis by (simp add: after_def)
  next
    case (Cons c z')
    then have z: "z = CHR ''#'' # z'" using assms(3) by simp
    have "after CHR ''#'' z = z'" by (simp add: z after_def)
    then show ?thesis using before_append [OF h, of z'] after_append [OF h, of z'] by (simp add: z)
  qed
  then show ?thesis using d by (simp add: split_tail_def before_append after_append)
qed

lemma redact_parameter:
  assumes s: "url_base s" and b: "set b \<inter> set ''?#'' = {}" and "p = [] \<or> last p = CHR ''&''" and "CHR ''#'' \<notin> set p"
    and k: "list_all (\<lambda>c. c \<notin> set ''&=#'' \<and> \<not> removed_url_char c) k" "is_sensitive_parameter (lib_unquote L k)"
    and "set x \<inter> set ''&#'' = {}" and "set x' \<inter> set ''&#'' = {}" and "z = [] \<or> hd z \<in> set ''&#''"
  shows "redact_url L (s @ ''://'' @ b @ ''?'' @ p @ k @ ''='' @ x @ z) =
    redact_url L (s @ ''://'' @ b @ ''?'' @ p @ k @ ''='' @ x' @ z)"
proof -
  let ?f = "filter (\<lambda>c. \<not> removed_url_char c)" and ?a = "\<lambda>c. \<not> authority_end c"
  define z1 where "z1 = before CHR ''#'' (?f z)"
  define z2 where "z2 = dropWhile (\<lambda>c. c \<noteq> CHR ''#'') (?f z)"
  have z: "?f z = z1 @ z2" by (simp add: z1_def z2_def before_def)
  have hz: "?f z = [] \<or> hd (?f z) \<in> set ''&#''" using assms(9) by (cases z) auto
  have z1: "z1 = [] \<or> hd z1 = CHR ''&''" using hz by (cases "?f z") (auto simp: z1_def before_def)
  have z2: "z2 = [] \<or> hd z2 = CHR ''#''" 
    using hd_dropWhile [of "\<lambda>c. c \<noteq> CHR ''#''" "?f z"] unfolding z2_def by blast
  have z1h: "CHR ''#'' \<notin> set z1" by (auto simp: z1_def before_def dest: set_takeWhileD)
  have p: "?f p = [] \<or> last (?f p) = CHR ''&''" using assms(3) by (cases p rule: rev_cases) auto
  have fk: "?f k = k" using k(1) by (auto simp: filter_id_conv list_all_iff)
  define d where "d = dropWhile ?a (?f b)"
  define n where "n = takeWhile ?a (?f b)"
  have d: "set d \<inter> set ''?#'' = {}" using b by (auto simp: d_def dest: set_dropWhileD)
  have run: "takeWhile ?a (?f (b @ ''?'' @ t)) = n" "dropWhile ?a (?f (b @ ''?'' @ t)) = d @ ''?'' @ ?f t" for t
  proof -
    have "takeWhile ?a (y @ CHR ''?'' # w) = takeWhile ?a y \<and> dropWhile ?a (y @ CHR ''?'' # w) = dropWhile ?a y @ CHR ''?'' # w"
      for y w by (induction y) simp_all
    then show "takeWhile ?a (?f (b @ ''?'' @ t)) = n" "dropWhile ?a (?f (b @ ''?'' @ t)) = d @ ''?'' @ ?f t"
      by (simp_all add: n_def d_def)
  qed
  have tail: "split_tail (d @ ''?'' @ ?f (p @ k @ ''='' @ y @ z)) =
      (d, ?f p @ k @ ''='' @ ?f y @ z1, after CHR ''#'' z2)"
    if y: "set y \<inter> set ''&#'' = {}" for y
  proof -
    have "CHR ''#'' \<notin> set (?f p @ k @ ''='' @ ?f y @ z1)" using assms(4) k(1) y z1h by (auto simp: list_all_iff)
    from split_tail_query [OF d this z2] show ?thesis by (simp add: z fk)
  qed
  have q: "redact_query L (?f p @ k @ ''='' @ ?f x @ z1) = redact_query L (?f p @ k @ ''='' @ ?f x' @ z1)"
    using k assms(7,8) by (intro redact_query_parameter p z1) (auto simp: list_all_iff)
  show ?thesis unfolding redact_url_def urlsplit_base [OF s] Let_def run tail [OF assms(7)] tail [OF assms(8)] prod.case
    using redactable [of s] q by simp
qed

lemma redact_url_twin: "url_twin L v v' \<Longrightarrow> redact_url L v = redact_url L v'"
proof (induction rule: url_twin.induct)
  case (twin_user s u u' r)
  then show ?case by (simp only: redact_user)
next
  case (twin_parameter s b p k x x' z)
  then show ?case by (intro redact_parameter)
qed simp

definition secret_twin :: "secret option \<Rightarrow> secret option \<Rightarrow> bool" where
  "secret_twin a b = (has_secret a = has_secret b)"

definition settings_twin :: "url_lib \<Rightarrow> settings \<Rightarrow> settings \<Rightarrow> bool" where
  \<comment> \<open>the same settings but for the secrets, the credentials in the URLs and the database's pool\<close>
  "settings_twin L s s' \<longleftrightarrow>
     set_app s = set_app s' \<and> set_api s = set_api s' \<and> set_features s = set_features s' \<and>
     url_twin L (database_url (set_database s)) (database_url (set_database s')) \<and>
     url_twin L (redis_url (set_redis s)) (redis_url (set_redis s')) \<and>
     redis_queue_prefix (set_redis s) = redis_queue_prefix (set_redis s') \<and>
     secret_twin (telegram_bot_token (set_telegram s)) (telegram_bot_token (set_telegram s')) \<and>
     telegram_polling_enabled (set_telegram s) = telegram_polling_enabled (set_telegram s') \<and>
     llm_provider (set_llm s) = llm_provider (set_llm s') \<and>
     llm_default_model (set_llm s) = llm_default_model (set_llm s') \<and>
     secret_twin (llm_openai_api_key (set_llm s)) (llm_openai_api_key (set_llm s')) \<and>
     secret_twin (security_secret_key (set_security s)) (security_secret_key (set_security s')) \<and>
     security_max_requests_per_minute (set_security s) = security_max_requests_per_minute (set_security s') \<and>
     security_max_file_size_mb (set_security s) = security_max_file_size_mb (set_security s')"

text \<open>C22: the summary of the settings is the same whatever the secrets are: two settings that differ
  only in the bot token, the API key, the secret key, the userinfo of a connection URL or a sensitive
  query parameter of one have equal summaries.\<close>

theorem summary_hides_secrets:
  assumes "settings_twin L s s'"
  shows "safe_summary L s = safe_summary L s'"
  using assms redact_url_twin [of L "database_url (set_database s)" "database_url (set_database s')"]
    redact_url_twin [of L "redis_url (set_redis s)" "redis_url (set_redis s')"]
  by (simp add: settings_twin_def secret_twin_def safe_summary_def redact_secret_def telegram_enabled_def llm_implemented_def)

definition quote_char :: "char \<Rightarrow> string" where
  \<comment> \<open>\<open>quote_plus\<close> on ASCII\<close>
  "quote_char c = (let n = (of_char c :: nat) in
     if n = 32 then ''+'' else if url_scheme_char c \<and> n \<noteq> 43 \<or> c \<in> set ''_~'' then [c]
     else ''%'' @ [''0123456789ABCDEF'' ! (n div 16), ''0123456789ABCDEF'' ! (n mod 16)])"

definition ascii_lib :: url_lib where
  "ascii_lib = \<lparr>lib_bracket_ok = (\<lambda>h. CHR '':'' \<in> set h), lib_unquote = (\<lambda>s. s),
     lib_quote = (\<lambda>s. concat (map quote_char s))\<rparr>"

definition settings_with :: "string \<Rightarrow> string \<Rightarrow> settings" where
  "settings_with url key =
     \<lparr>set_app = \<lparr>app_name = ''NexaBot'', app_environment = EnvLocal, app_log_level = ''INFO'', app_log_format = LogJson\<rparr>,
      set_api = \<lparr>api_host = ''127.0.0.1'', api_port = 8000\<rparr>,
      set_database = \<lparr>database_url = url, database_pool_size = 5, database_max_overflow = 10\<rparr>,
      set_redis = \<lparr>redis_url = default_redis_url, redis_queue_prefix = ''nexabot''\<rparr>,
      set_telegram = \<lparr>telegram_bot_token = None, telegram_polling_enabled = False\<rparr>,
      set_llm = \<lparr>llm_provider = ProviderStub, llm_default_model = None, llm_openai_api_key = None\<rparr>,
      set_security = \<lparr>security_secret_key = Some (SecretStr key), security_max_requests_per_minute = 60,
        security_max_file_size_mb = 25\<rparr>,
      set_features = \<lparr>enable_telegram = False, enable_api = True, enable_workers = False\<rparr>\<rparr>"

theorem summary_hides_secrets_witness:
  "safe_summary ascii_lib (settings_with ''redis://ann:one@db/0?x=1'' ''k1'') =
   safe_summary ascii_lib (settings_with ''redis://bob:two@db/0?x=1'' ''k2'')"
proof (rule summary_hides_secrets)
  have "url_twin ascii_lib (''redis'' @ ''://'' @ ''ann:one'' @ ''@'' @ ''db/0?x=1'')
      (''redis'' @ ''://'' @ ''bob:two'' @ ''@'' @ ''db/0?x=1'')"
    by (rule twin_user) code_simp+
  then show "settings_twin ascii_lib (settings_with ''redis://ann:one@db/0?x=1'' ''k1'')
      (settings_with ''redis://bob:two@db/0?x=1'' ''k2'')"
    by (simp add: settings_twin_def settings_with_def secret_twin_def has_secret_def twin_refl)
qed

text \<open>A password that contains a slash is not recognised: the authority ends before its at sign,
  and the summary shows the URL as it is.\<close>

lemma slash_in_password_is_shown:
  "redact_url ascii_lib ''postgresql://u:pa/ss@db/nexa'' = ''postgresql://u:pa/ss@db/nexa'' \<and>
   redact_url ascii_lib ''postgresql://u:pass@db/nexa'' = ''postgresql://********@db/nexa''"
  by code_simp

end
