(* ===== verification/Log_Properties.thy ===== *)
theory Log_Properties
  imports Log_Redaction Settings_Properties
begin

section \<open>Properties of the logs\<close>

text \<open>
  What a log line can show: no credentials in a URL, nothing under a secret key, no line break of
  its own. The console format has none of these protections.
\<close>

fun redacted :: "('k \<Rightarrow> string) \<Rightarrow> ('k, 'o) log_value \<Rightarrow> bool" where
  \<comment> \<open>every text has only masked credentials and every secret field is masked, at every depth\<close>
  "redacted key_str (LDict kvs) = list_all (\<lambda>(k, v). redacted key_str v \<and>
     (\<not> is_secret_field (key_str k) \<or> v = LStr mask_text)) kvs"
| "redacted key_str (LList vs) = list_all (redacted key_str) vs"
| "redacted key_str (LTuple vs) = list_all (redacted key_str) vs"
| "redacted key_str (LStr s) = list_all url_masked_at (suffixes s)"
| "redacted key_str (LOther v) = True"

lemma mask_text_masked: "list_all url_masked_at (suffixes mask_text)"
  by code_simp

lemma redact_redacted: "redacted key_str (redact key_str v)"
  by (induction key_str v rule: redact.induct) (auto simp: list_all_iff masking.normal_norm [unfolded list_all_iff]
      mask_text_masked [unfolded list_all_iff])

lemma redacted_fixpoint: "redacted key_str v \<Longrightarrow> redact key_str v = v"
  by (induction key_str v rule: redact.induct) (auto simp: list_all_iff map_idI masking.norm_normal intro!: map_idI)

interpretation redaction: normaliser "redact key_str" "redacted key_str" for key_str
  by unfold_locales (rule redact_redacted, rule redacted_fixpoint)


text \<open>Payloads that differ only below secret keys and in the credentials of URLs.\<close>

inductive text_twin :: "string \<Rightarrow> string \<Rightarrow> bool" where
  twin_nil: "text_twin [] []"
| twin_char: "match_url (c # s) = None \<Longrightarrow> match_url (c # s') = None \<Longrightarrow> text_twin s s' \<Longrightarrow> text_twin (c # s) (c # s')"
| twin_credentials: "is_scheme a \<Longrightarrow> u \<noteq> [] \<Longrightarrow> list_all user_char u \<Longrightarrow> u' \<noteq> [] \<Longrightarrow> list_all user_char u' \<Longrightarrow>
    text_twin t t' \<Longrightarrow> text_twin (a @ u @ ''@'' @ t) (a @ u' @ ''@'' @ t')"

lemma text_twin_mask: "text_twin s s' \<Longrightarrow> mask_urls s = mask_urls s'"
proof (induction rule: text_twin.induct)
  case (twin_credentials a u u' t t')
  then show ?case by (intro mask_urls_twin)
qed (simp_all add: mask_urls_skip)

definition record_twin :: "log_record \<Rightarrow> log_record \<Rightarrow> bool" where
  "record_twin r r' \<longleftrightarrow> lr_level r = lr_level r' \<and> lr_name r = lr_name r' \<and> lr_attrs r = lr_attrs r' \<and>
     text_twin (lr_message r) (lr_message r') \<and> rel_option text_twin (lr_exception r) (lr_exception r')"

lemma control_free: "list_all (\<lambda>x. (32 :: nat) \<le> of_char x) (json_char c)"
proof -
  have "(32 :: nat) \<le> of_char x" if "x \<in> set (hex2 (of_char c))" for x
  proof -
    have "list_all (\<lambda>x. (32 :: nat) \<le> of_char x) ''0123456789abcdef''" by code_simp
    with that show ?thesis by (auto simp: hex2_def list_all_length)
  qed
  then show ?thesis by (auto simp: json_char_def Let_def list_all_iff)
qed

lemma json_str_control_free: "list_all (\<lambda>x. (32 :: nat) \<le> of_char x) (json_str s)"
  using control_free by (auto simp: json_str_def list_all_iff)


definition outage :: "string \<Rightarrow> log_record" where
  "outage url = \<lparr>lr_level = ''ERROR'', lr_name = ''nexabot'', lr_message = url, lr_attrs = Map.empty, lr_exception = None\<rparr>"


text \<open>Settings that load configure the logging they name: the level is known to the library and
  exactly one handler is installed, whatever was there before.\<close>

lemma loaded_settings_configure_logging:
  assumes "load src = Inr s"
  shows "\<exists>n. log_level_number (set_app s) = Some n \<and>
    configure_logging (app_log_level (set_app s)) (app_log_format (set_app s)) root =
      Inr (root\<lparr>root_level := n, root_handlers := [app_log_format (set_app s)]\<rparr>)"
proof -
  from assms obtain e where "load_app src e = Inr (set_app s)" by (rule load_InrE)
  then have "log_level_number (set_app s) \<noteq> None" by (blast dest: load_app_Inr)
  then show ?thesis by (auto simp: configure_logging_def log_level_number_def Let_def)
qed

text \<open>Without a log format in its environment a production process writes messages as they are: the
  console format redacts nothing, so a message that quotes a connection URL shows its password.\<close>

lemma default_format_shows_credentials:
  "case load production_environ of Inl _ \<Rightarrow> False
   | Inr s \<Rightarrow> (case configure_logging (app_log_level (set_app s)) (app_log_format (set_app s)) root of
       Inl _ \<Rightarrow> False
     | Inr root' \<Rightarrow> emit root' now v (outage url) = [now @ '' ERROR [nexabot] '' @ url])"
proof -
  have "case load production_environ of Inl _ \<Rightarrow> False
    | Inr s \<Rightarrow> app_log_format (set_app s) = LogConsole \<and> app_log_level (set_app s) = ''DEBUG''" by code_simp
  then show ?thesis
    by (auto simp: configure_logging_def level_number_def emit_def format_console_def trace_filter_def outage_def Let_def
        split: sum.splits)
qed

end
