(* ===== verification/Api.thy ===== *)
theory Api
  imports Identity Log_Redaction
begin

section \<open>The HTTP interface (interfaces/api, bootstrap, infrastructure/database/readiness.py)\<close>

text \<open>
  What the service's own code does around FastAPI: the request-id middleware, the error handler,
  the authentication boundary, the health endpoints with their readiness checks, and the wiring.

  The framework's side is a parameter: an ASGI application is the function from its scope and the
  value of the trace context variable to the messages it sends and its outcome; \<open>encode\<close> is
  FastAPI's \<open>jsonable_encoder\<close>; an authenticator and a database probe are functions or values of
  the type their protocol gives.
\<close>

subsection \<open>Request ids (middleware.py)\<close>

definition max_inbound_request_id_length :: nat where
  "max_inbound_request_id_length = 128"

definition is_ascii :: "char \<Rightarrow> bool" where
  "is_ascii c = ((of_char c :: nat) < 128)"

definition is_printable :: "char \<Rightarrow> bool" where
  \<comment> \<open>\<open>str.isprintable\<close> on U+0000 to U+00FF\<close>
  "is_printable c = (let n = (of_char c :: nat) in 32 \<le> n \<and> n \<noteq> 173 \<and> \<not> (127 \<le> n \<and> n \<le> 160))"

definition accept_inbound_request_id :: "string option \<Rightarrow> string option" where
  "accept_inbound_request_id raw =
     (case raw of
        None \<Rightarrow> None
      | Some r \<Rightarrow>
          let candidate = strip r in
          if candidate = [] \<or> max_inbound_request_id_length < length candidate then None
          else if \<not> list_all is_ascii candidate \<or> \<not> list_all is_printable candidate then None
          else Some candidate)"

definition uuid_hex :: "uuid \<Rightarrow> string" where
  \<comment> \<open>\<open>uuid4().hex\<close>\<close>
  "uuid_hex u = hex_digits 32 (unat u)"

type_synonym headers = "(string \<times> string) list"

record scope =
  scope_type :: string
  scope_headers :: headers
  scope_state :: "string \<rightharpoonup> string"

datatype asgi_message =
    ResponseStart int headers
  | ResponseBody string
  | OtherMessage string

type_synonym asgi_app =
  "scope \<Rightarrow> trace_context option \<Rightarrow> (asgi_message list \<times> (exn + unit)) \<times> trace_context option"

definition request_id_header :: string where
  "request_id_header = ''x-request-id''"

definition request_id_for :: "scope \<Rightarrow> uuid \<Rightarrow> string" where
  "request_id_for sc fresh =
     (case accept_inbound_request_id (map_of (scope_headers sc) request_id_header) of
        None \<Rightarrow> uuid_hex fresh
      | Some r \<Rightarrow> r)"

fun send_with_request_id :: "string \<Rightarrow> asgi_message \<Rightarrow> asgi_message" where
  "send_with_request_id rid (ResponseStart st hs) = ResponseStart st (hs @ [(request_id_header, rid)])"
| "send_with_request_id rid m = m"

definition trace_middleware :: "asgi_app \<Rightarrow> uuid \<Rightarrow> asgi_app" where
  "trace_middleware app fresh sc v =
     (if scope_type sc \<noteq> ''http'' then app sc v
      else
        let rid = request_id_for sc fresh;
            sc' = sc\<lparr>scope_state := (scope_state sc)(''request_id'' \<mapsto> rid)\<rparr>;
            ((sent, r), v') = bind_trace_context (empty_trace\<lparr>tc_request_id := Some rid\<rparr>) (app sc') v
        in ((map (send_with_request_id rid) sent, r), v'))"

definition request_id_of :: "scope \<Rightarrow> string option" where
  "request_id_of sc = scope_state sc ''request_id''"

subsection \<open>Errors (app.py)\<close>

record response =
  resp_status :: int
  resp_content :: pydict

definition server_side_categories :: "error_category list" where
  "server_side_categories = [CatExternalService, CatTaskExecution, CatAgentExecution, CatStorage, CatConfiguration,
     CatInternal]"

record api_log =
  al_level :: string
  al_message :: string
  al_traceback :: bool

definition nexabot_error_handler ::
  "(pydict \<Rightarrow> exn + pydict) \<Rightarrow> exn \<Rightarrow> api_log list \<times> (exn + response)" where
  "nexabot_error_handler encode e =
     (case e of
        Nexa x \<Rightarrow>
          let tail = '' code='' @ err_code x @ '' category='' @ category_value (category x);
              log = (if category x \<in> set server_side_categories
                then \<lparr>al_level = ''ERROR'', al_message = ''api.request_failed'' @ tail, al_traceback = True\<rparr>
                else \<lparr>al_level = ''INFO'', al_message = ''api.request_rejected'' @ tail, al_traceback = False\<rparr>)
          in ([log], sum_bind (encode (to_safe_dict x)) (\<lambda>c. Inr \<lparr>resp_status = http_status x, resp_content = c\<rparr>))
      | _ \<Rightarrow> ([], Inl e))"

subsection \<open>The authentication boundary (security.py)\<close>

type_synonym 'req authenticator = "'req \<Rightarrow> exn + user option"

definition get_authenticator :: "'req authenticator option \<Rightarrow> exn + 'req authenticator" where
  "get_authenticator installed =
     (case installed of
        None \<Rightarrow> Inl (Nexa (ConfigurationError ''Authentication is not configured for this deployment.''
                  ''authentication_not_configured'' []))
      | Some a \<Rightarrow> Inr a)"

definition require_actor :: "'req authenticator option \<Rightarrow> 'req \<Rightarrow> exn + user" where
  "require_actor installed request =
     sum_bind (get_authenticator installed) (\<lambda>a.
     sum_bind (a request) (\<lambda>found.
     case found of
       None \<Rightarrow> Inl (Nexa (AuthorizationError ''Authentication is required for this endpoint.''
                 ''authentication_required'' []))
     | Some u \<Rightarrow> sum_bind (user_ensure_active u) (\<lambda>_. Inr u)))"

subsection \<open>Health and readiness (health.py, container.py, readiness.py)\<close>

record component_health =
  ch_status :: string
  ch_details :: pydict

record readiness_report =
  rp_status :: string
  rp_components :: "(string \<times> component_health) list"

definition healthy :: component_health where
  "healthy = \<lparr>ch_status = ''ok'', ch_details = []\<rparr>"

definition live :: pydict where
  "live = [(''status'', PStr ''ok'')]"

definition dump_report :: "readiness_report \<Rightarrow> pydict" where
  \<comment> \<open>\<open>report.model_dump()\<close>\<close>
  "dump_report r = [(''status'', PStr (rp_status r)),
     (''components'', PDict (map (\<lambda>(k, c). (k, PDict [(''status'', PStr (ch_status c)), (''details'', PDict (ch_details c))]))
        (rp_components r)))]"

type_synonym checker = "exn + readiness_report"

definition ready :: "checker option \<Rightarrow> exn + response" where
  \<comment> \<open>the checker's \<open>check()\<close> as its outcome; an \<open>HTTPException\<close> is the response FastAPI makes of it\<close>
  "ready checker =
     sum_bind (case checker of
        None \<Rightarrow> Inr \<lparr>rp_status = ''degraded'', rp_components = [(''application'', healthy),
                 (''dependencies'', \<lparr>ch_status = ''unknown'', ch_details = []\<rparr>)]\<rparr>
      | Some c \<Rightarrow> c) (\<lambda>report.
     if rp_status report \<noteq> ''ok''
     then Inr \<lparr>resp_status = 503, resp_content = [(''detail'', PDict (dump_report report))]\<rparr>
     else Inr \<lparr>resp_status = 200, resp_content = dump_report report\<rparr>)"

definition aggregate_status :: "(string \<times> component_health) list \<Rightarrow> string" where
  "aggregate_status cs = (if list_all (\<lambda>(k, c). ch_status c = ''ok'') cs then ''ok'' else ''degraded'')"

definition static_check :: "(string \<times> component_health) list \<Rightarrow> checker" where
  "static_check cs = Inr \<lparr>rp_status = aggregate_status cs, rp_components = cs\<rparr>"

type_synonym component_checker = "exn + component_health"

definition composite_check :: "(string \<times> component_checker) list \<Rightarrow> checker" where
  \<comment> \<open>\<open>asyncio.gather\<close> of the outcomes; of several exceptions the model raises the first listed\<close>
  "composite_check cs =
     sum_bind (sum_map snd cs) (\<lambda>results.
     let components = zip (map fst cs) results in
     Inr \<lparr>rp_status = aggregate_status components, rp_components = components\<rparr>)"

definition default_readiness_timeout :: string where
  \<comment> \<open>the seconds of \<open>DEFAULT_READINESS_TIMEOUT_SECONDS\<close>, as they are logged\<close>
  "default_readiness_timeout = ''2.0''"

definition database_check :: "(exn + unit) \<Rightarrow> api_log list \<times> (exn + component_health)" where
  \<comment> \<open>the argument is the outcome of \<open>SELECT 1\<close> in a session under the timeout\<close>
  "database_check probe =
     (case probe of
        Inr _ \<Rightarrow> ([], Inr healthy)
      | Inl TimeoutExn \<Rightarrow>
          ([\<lparr>al_level = ''WARNING'', al_message = ''readiness.database_timeout timeout_seconds='' @ default_readiness_timeout, al_traceback = False\<rparr>],
           Inr \<lparr>ch_status = ''error'', ch_details = [(''error'', PStr ''timeout'')]\<rparr>)
      | Inl e \<Rightarrow>
          if is_exception e
          then ([\<lparr>al_level = ''ERROR'', al_message = ''readiness.database_unavailable'', al_traceback = True\<rparr>],
                Inr \<lparr>ch_status = ''error'', ch_details = [(''error'', PStr ''unavailable'')]\<rparr>)
          else ([], Inl e))"

subsection \<open>Wiring (container.py, main.py, app.py)\<close>

record db_engine =
  engine_url :: string
  engine_pool_size :: int
  engine_max_overflow :: int
  engine_pool_pre_ping :: bool

definition create_engine :: "string \<Rightarrow> int option \<Rightarrow> int option \<Rightarrow> db_engine" where
  \<comment> \<open>an argument that is left out takes its default\<close>
  "create_engine url pool_size max_overflow =
     \<lparr>engine_url = url, engine_pool_size = (case pool_size of None \<Rightarrow> 5 | Some n \<Rightarrow> n),
      engine_max_overflow = (case max_overflow of None \<Rightarrow> 10 | Some n \<Rightarrow> n), engine_pool_pre_ping = True\<rparr>"

record session_factory =
  sf_engine :: db_engine
  sf_expire_on_commit :: bool

definition create_sessionmaker :: "db_engine \<Rightarrow> session_factory" where
  "create_sessionmaker engine = \<lparr>sf_engine = engine, sf_expire_on_commit = False\<rparr>"

record container =
  ct_settings :: settings
  ct_engine :: db_engine
  ct_sessionmaker :: session_factory
  ct_checker :: "(exn + unit) \<Rightarrow> checker"

definition container_from_environment :: "environ \<Rightarrow> exn + container" where
  "container_from_environment src =
     sum_bind (load src) (\<lambda>s.
     let engine = create_engine (database_url (set_database s)) (Some (database_pool_size (set_database s)))
           (Some (database_max_overflow (set_database s)))
     in Inr \<lparr>ct_settings = s, ct_engine = engine, ct_sessionmaker = create_sessionmaker engine,
       ct_checker = (\<lambda>probe. composite_check [(''application'', Inr healthy), (''database'', snd (database_check probe))])\<rparr>)"

text \<open>The lifespan of the application as an asynchronous context manager around \<open>serving\<close>: what the
  process logged and which engines it disposed of is its state, and the outcome of disposing of the
  engine is a parameter.\<close>

record process =
  proc_log :: "(string \<times> pydict) list"
  proc_disposed :: "db_engine list"

type_synonym serving = "(process, exn, unit) prog"

definition log_info :: "string \<Rightarrow> pydict \<Rightarrow> serving" where
  "log_info msg extra = modify (\<lambda>p. p\<lparr>proc_log := proc_log p @ [(msg, extra)]\<rparr>)"

definition dispose_engine :: "(exn + unit) \<Rightarrow> db_engine \<Rightarrow> serving" where
  "dispose_engine outcome engine =
     bnd (modify (\<lambda>p. p\<lparr>proc_disposed := proc_disposed p @ [engine]\<rparr>)) (\<lambda>_. lift_sum outcome)"

definition lifespan :: "container \<Rightarrow> (exn + unit) \<Rightarrow> serving \<Rightarrow> serving" where
  "lifespan c disposing served =
     bnd (log_info ''api.startup''
       [(''environment'', PStr (environment_value (app_environment (set_app (ct_settings c)))))]) (\<lambda>_.
     finally_do served
       (bnd (dispose_engine disposing (ct_engine c)) (\<lambda>_. log_info ''api.shutdown'' [])))"

lemma lifespan_disposes_of_the_engine:
  assumes "served p0 = (r, p1)" and "p0 = p\<lparr>proc_log := proc_log p @ [(''api.startup'',
      [(''environment'', PStr (environment_value (app_environment (set_app (ct_settings c)))))])]\<rparr>"
  shows "\<exists>p'. lifespan c disposing served p = (sum_bind disposing (\<lambda>_. r), p') \<and>
    proc_disposed p' = proc_disposed p1 @ [ct_engine c]"
  using assms
  by (cases disposing) (auto simp: lifespan_def log_info_def dispose_engine_def finally_do_def bnd_apply)

record 'req api_app =
  api_title :: string
  api_settings_of :: settings
  api_checker :: "((exn + unit) \<Rightarrow> checker) option"
  api_lifespan :: "((exn + unit) \<Rightarrow> serving \<Rightarrow> serving) option"
  api_middleware :: "(asgi_app \<Rightarrow> uuid \<Rightarrow> asgi_app) list"
  api_error_handlers :: "((pydict \<Rightarrow> exn + pydict) \<Rightarrow> exn \<Rightarrow> api_log list \<times> (exn + response)) list"
  api_routes :: "string list"
  api_container :: "container option"
  api_authenticator :: "'req authenticator option"

definition health_router :: "string list" where
  \<comment> \<open>the paths of the handlers \<open>live\<close> and \<open>ready\<close>\<close>
  "health_router = [''/health/live'', ''/health/ready'']"

definition create_api_app ::
  "settings \<Rightarrow> ((exn + unit) \<Rightarrow> checker) option \<Rightarrow> ((exn + unit) \<Rightarrow> serving \<Rightarrow> serving) option \<Rightarrow> 'req api_app" where
  "create_api_app s checker life =
     \<lparr>api_title = app_name (set_app s), api_settings_of = s, api_checker = checker, api_lifespan = life,
      api_middleware = [trace_middleware], api_error_handlers = [nexabot_error_handler],
      api_routes = health_router, api_container = None, api_authenticator = None\<rparr>"

definition set_authenticator :: "'req authenticator \<Rightarrow> 'req api_app \<Rightarrow> 'req api_app" where
  "set_authenticator a app = app\<lparr>api_authenticator := Some a\<rparr>"

definition build_api_app :: "container \<Rightarrow> root_logger \<Rightarrow> exn + (root_logger \<times> 'req api_app)" where
  "build_api_app c root =
     sum_bind (configure_logging (app_log_level (set_app (ct_settings c))) (app_log_format (set_app (ct_settings c))) root)
       (\<lambda>root'. Inr (root',
          (create_api_app (ct_settings c) (Some (ct_checker c)) (Some (lifespan c)))\<lparr>api_container := Some c\<rparr>))"

definition run_api :: "environ \<Rightarrow> root_logger \<Rightarrow> exn + (root_logger \<times> 'req api_app \<times> string \<times> int)" where
  \<comment> \<open>what \<open>uvicorn.run\<close> is called with: application, host and port\<close>
  "run_api src root =
     sum_bind (container_from_environment src) (\<lambda>c.
     if \<not> enable_api (set_features (ct_settings c))
     then Inl (Nexa (ConfigurationError ''The API interface is disabled.'' ''api_disabled''
            [(''flag'', PStr ''NEXABOT_ENABLE_API'')]))
     else sum_bind (build_api_app c root) (\<lambda>(root', app).
       Inr (root', app, api_host (set_api (ct_settings c)), api_port (set_api (ct_settings c)))))"

end
