(* ===== verification/Api_Properties.thy ===== *)
theory Api_Properties
  imports Api Settings_Properties Unit_Of_Work
begin

section \<open>Properties of the HTTP interface\<close>

text \<open>
  Request ids are bounded printable text and the same everywhere; errors are answered from the
  taxonomy alone; a protected route is closed until an authenticator is installed; readiness
  reports the database's state and nothing of its errors.
\<close>

subsection \<open>Request ids\<close>

definition safe_id :: "string \<Rightarrow> bool" where
  "safe_id s = (s \<noteq> [] \<and> length s \<le> 128 \<and> list_all (\<lambda>c. (32 :: nat) \<le> of_char c \<and> of_char c < (127 :: nat)) s)"

lemma ascii_printable: "is_ascii c \<Longrightarrow> is_printable c \<Longrightarrow> (32 :: nat) \<le> of_char c \<and> of_char c < (127 :: nat)"
  unfolding is_ascii_def is_printable_def Let_def by linarith

lemma accepted_id_safe: "accept_inbound_request_id raw = Some r \<Longrightarrow> safe_id r"
  using ascii_printable by (auto simp: accept_inbound_request_id_def safe_id_def max_inbound_request_id_length_def
      Let_def list_all_iff split: option.splits if_splits)

lemma hex_digits_safe: "list_all (\<lambda>c. (32 :: nat) \<le> of_char c \<and> of_char c < (127 :: nat)) (hex_digits k n)"
proof (induction k arbitrary: n)
  case (Suc k)
  have "list_all (\<lambda>c. (32 :: nat) \<le> of_char c \<and> of_char c < (127 :: nat)) hex_chars" "length hex_chars = 16" by code_simp+
  then have "(32 :: nat) \<le> of_char (hex_chars ! (n mod 16)) \<and> of_char (hex_chars ! (n mod 16)) < (127 :: nat)"
    by (simp add: list_all_length)
  with Suc show ?case by simp
qed simp

lemma request_id_safe: "safe_id (request_id_for sc fresh)"
proof -
  have len: "length (uuid_hex fresh) = 32" unfolding uuid_hex_def by (rule length_hex_digits)
  then have "uuid_hex fresh \<noteq> []" by auto
  with len have "safe_id (uuid_hex fresh)" using hex_digits_safe [of 32 "unat fresh"]
    by (simp add: safe_id_def uuid_hex_def del: hex_digits.simps)
  then show ?thesis using accepted_id_safe by (auto simp: request_id_for_def split: option.splits)
qed

text \<open>C31: an HTTP request has one id, at most 128 printable ASCII characters whatever header came in: the
  application sees it in the scope and in the trace context, every response start carries it as its last
  header, and the trace context of the caller is back afterwards, also when the application raised.\<close>

theorem request_id_is_safe_and_consistent:
  assumes "scope_type sc = ''http''"
    and "app (sc\<lparr>scope_state := (scope_state sc)(''request_id'' \<mapsto> request_id_for sc fresh)\<rparr>)
           (Some (empty_trace\<lparr>tc_request_id := Some (request_id_for sc fresh)\<rparr>)) = ((sent, r), v')"
  shows "trace_middleware app fresh sc v = ((map (send_with_request_id (request_id_for sc fresh)) sent, r), v) \<and>
    safe_id (request_id_for sc fresh)"
  using assms request_id_safe by (simp add: trace_middleware_def bind_trace_context_def Let_def)

definition hostile_scope :: scope where
  "hostile_scope = \<lparr>scope_type = ''http'', scope_headers = [(''host'', ''h''), (''x-request-id'', ''a'' @ [char_of (10 :: nat)] @ ''b'')],
     scope_state = Map.empty\<rparr>"

definition echo_app :: asgi_app where
  "echo_app sc v = (([ResponseStart 200 [], ResponseBody ''ok''], Inl TimeoutExn), None)"

theorem request_id_is_safe_and_consistent_witness:
  "trace_middleware echo_app 255 hostile_scope (Some empty_trace) =
     (([ResponseStart 200 [(request_id_header, ''000000000000000000000000000000ff'')], ResponseBody ''ok''], Inl TimeoutExn),
      Some empty_trace)"
proof -
  have "request_id_for hostile_scope 255 = ''000000000000000000000000000000ff''" by code_simp
  with request_id_is_safe_and_consistent [of hostile_scope echo_app 255 _ _ None "Some empty_trace"] show ?thesis
    by (simp add: hostile_scope_def echo_app_def)
qed

subsection \<open>Errors\<close>

inductive taxonomy_error :: "nexabot_error \<Rightarrow> bool" where
  "taxonomy_error (ValidationError m c ds)"
| "taxonomy_error (AuthorizationError m c ds)"
| "taxonomy_error (NotFoundError m c ds)"
| "taxonomy_error (ConflictError m c ds)"
| "taxonomy_error (RateLimitError m c ds)"
| "taxonomy_error (ExternalServiceError m c rt ds)"
| "taxonomy_error (TaskExecutionError m c rt ds)"
| "taxonomy_error (AgentExecutionError m c rt ds)"
| "taxonomy_error (StorageError m c rt ds)"
| "taxonomy_error (ConfigurationError m c ds)"

text \<open>Every error of the taxonomy is answered with its own status and its safe dictionary and logged
  once, with a traceback exactly when the status is in the five hundreds: the handler's list of
  server-side categories and the classes' statuses agree.\<close>

lemma taxonomy_errors_are_answered:
  assumes "taxonomy_error e" and "encode (to_safe_dict e) = Inr content"
  shows "\<exists>log. nexabot_error_handler encode (Nexa e) = ([log], Inr \<lparr>resp_status = http_status e, resp_content = content\<rparr>) \<and>
    al_traceback log = (500 \<le> http_status e) \<and> 400 \<le> http_status e \<and> http_status e < 600"
  using assms by (cases rule: taxonomy_error.cases)
    (simp_all add: nexabot_error_handler_def Let_def error_defs server_side_categories_def)

lemma taxonomy_errors_are_answered_witness:
  "\<exists>log. nexabot_error_handler Inr (Nexa (NotFoundError ''Conversation not found.'' ''conversation_not_found'' [])) =
     ([log], Inr \<lparr>resp_status = 404, resp_content = to_safe_dict (NotFoundError ''Conversation not found.''
        ''conversation_not_found'' [])\<rparr>) \<and> \<not> al_traceback log"
  using taxonomy_errors_are_answered [of "NotFoundError ''Conversation not found.'' ''conversation_not_found'' []" Inr,
      OF taxonomy_error.intros(3) refl] by (simp add: error_defs)

text \<open>No text of a database driver reaches a client: the answer to a request whose unit of work failed,
  with what is logged of it, and the readiness report are functions of the class of the driver's error.\<close>

lemma driver_text_is_not_served:
  "nexabot_error_handler encode (translate_database_error op (Sql c t)) =
     nexabot_error_handler encode (translate_database_error op (Sql c t')) \<and>
   snd (database_check (Inl (Sql c t))) = Inr \<lparr>ch_status = ''error'', ch_details = [(''error'', PStr ''unavailable'')]\<rparr>"
  by (cases c) (simp_all add: database_check_def)

subsection \<open>Authentication\<close>

text \<open>C30: a protected route gets an actor exactly when an authenticator is installed, it names a user and
  that user is active; the application the service starts has none installed, so it refuses every
  protected request with a configuration error, an error of the server.\<close>

theorem protected_routes_are_closed:
  "(require_actor installed request = Inr u) = (\<exists>a. installed = Some a \<and> a request = Inr (Some u) \<and> user_status u = UserActive) \<and>
   (\<exists>e. require_actor (api_authenticator (create_api_app s checker life)) request = Inl (Nexa e) \<and>
      err_code e = ''authentication_not_configured'' \<and> http_status e = 500)"
  by (auto simp: require_actor_def get_authenticator_def create_api_app_def sum_bind_Inr_iff user_ensure_active_def
      sum_guard_Inr_iff ConfigurationError_def split: option.splits)

subsection \<open>Starting and readiness\<close>

lemma ready_of_probe:
  "ready (Some (composite_check [(''application'', Inr healthy), (''database'', snd (database_check probe))])) =
     (if probe = Inr () then Inr \<lparr>resp_status = 200, resp_content = [(''status'', PStr ''ok''),
        (''components'', PDict [(''application'', PDict [(''status'', PStr ''ok''), (''details'', PDict [])]),
          (''database'', PDict [(''status'', PStr ''ok''), (''details'', PDict [])])])]\<rparr>
      else if probe = Inl Cancelled then Inl Cancelled
      else Inr \<lparr>resp_status = 503, resp_content = [(''detail'', PDict [(''status'', PStr ''degraded''),
        (''components'', PDict [(''application'', PDict [(''status'', PStr ''ok''), (''details'', PDict [])]),
          (''database'', PDict [(''status'', PStr ''error''), (''details'', PDict [(''error'',
             PStr (if probe = Inl TimeoutExn then ''timeout'' else ''unavailable''))])])])])]\<rparr>)"
proof (cases probe)
  case (Inl e)
  then show ?thesis
    by (cases e) (simp_all add: ready_def composite_check_def database_check_def aggregate_status_def dump_report_def healthy_def Let_def)
qed (simp add: ready_def composite_check_def database_check_def aggregate_status_def dump_report_def healthy_def Let_def)

text \<open>C32: the API that starts runs on valid settings with the interface enabled and logging configured,
  serves the health routes only, has no authenticator, and answers readiness with 200 exactly when the
  database answered its probe; every exception of the probe gives a 503 report, and only a cancellation
  passes through. When serving ends, however it ends, its lifespan disposes of the engine that was made
  from the settings.\<close>

theorem started_api_reports_readiness:
  assumes "run_api src root = Inr (root', app, host, port)"
  shows "1 \<le> port \<and> port \<le> 65535 \<and> settings_valid (api_settings_of app) \<and> enable_api (set_features (api_settings_of app)) \<and>
    length (root_handlers root') = 1 \<and> api_authenticator app = None \<and> api_routes app = [''/health/live'', ''/health/ready''] \<and>
    (\<exists>check. api_checker app = Some check \<and>
      (ready (Some (check (Inr ()))) = Inr \<lparr>resp_status = 200, resp_content = [(''status'', PStr ''ok''),
         (''components'', PDict [(''application'', PDict [(''status'', PStr ''ok''), (''details'', PDict [])]),
           (''database'', PDict [(''status'', PStr ''ok''), (''details'', PDict [])])])]\<rparr>) \<and>
      (\<forall>e. case ready (Some (check (Inl e))) of Inl e' \<Rightarrow> e = Cancelled \<and> e' = Cancelled | Inr rsp \<Rightarrow> resp_status rsp = 503)) \<and>
    (\<exists>life engine. api_lifespan app = Some life \<and> engine_url engine = database_url (set_database (api_settings_of app)) \<and>
      (\<forall>disposing served p. suffix [engine] (proc_disposed (snd (life disposing served p)))))"
proof -
  let ?engine = "\<lambda>s. create_engine (database_url (set_database s)) (Some (database_pool_size (set_database s)))
    (Some (database_max_overflow (set_database s)))"
  from assms obtain s c where s: "load src = Inr s" and api: "enable_api (set_features s)" and p: "port = api_port (set_api s)"
    and app: "api_settings_of app = s" "api_authenticator app = None" "api_routes app = health_router"
      "api_checker app = Some (\<lambda>probe. composite_check [(''application'', Inr healthy), (''database'', snd (database_check probe))])"
      "api_lifespan app = Some (lifespan c)"
    and c: "ct_engine c = ?engine s"
    and log: "length (root_handlers root') = 1"
    by (auto simp: run_api_def container_from_environment_def build_api_app_def create_api_app_def configure_logging_def
        sum_bind_Inr_iff Let_def split: if_splits option.splits)
  from loaded_settings_valid [OF s] have "settings_valid s" .
  moreover have "suffix [?engine s] (proc_disposed (snd (lifespan c disposing served p)))" for disposing served p
    using lifespan_disposes_of_the_engine [of served _ _ _ p c disposing] unfolding c by (metis prod.collapse snd_conv suffixI)
  moreover have "engine_url (?engine s) = database_url (set_database s)" by (simp add: create_engine_def)
  ultimately show ?thesis using api p log unfolding app
    by (auto simp: ready_of_probe settings_valid_def health_router_def)
qed

definition sample_root :: root_logger where
  "sample_root = \<lparr>root_level = 30, root_handlers = []\<rparr>"

theorem started_api_reports_readiness_witness:
  "case run_api production_environ sample_root of Inl _ \<Rightarrow> False
   | Inr (root', app, host, port) \<Rightarrow> host = ''127.0.0.1'' \<and> port \<le> 65535 \<and> api_authenticator (app :: unit api_app) = None"
proof -
  have "case run_api production_environ sample_root of Inl _ \<Rightarrow> False | Inr (root', (app :: unit api_app), host, port) \<Rightarrow> host = ''127.0.0.1''"
    by code_simp
  then obtain root' and app :: "unit api_app" and port where
    r: "run_api production_environ sample_root = Inr (root', app, ''127.0.0.1'', port)"
    by (auto split: sum.splits prod.splits)
  from started_api_reports_readiness [OF r] r show ?thesis by simp
qed

end
