(* ===== verification/Sql_Schema.thy ===== *)
theory Sql_Schema
  imports Errors
begin

section \<open>Relational schemas and the operations that change them\<close>

text \<open>
  The language of the migrations and of the ORM's table metadata: columns with their types,
  constraints and indexes; CHECK conditions with SQL's three truth values; and the operations of
  Alembic that the migrations call.

  A table's rows are functions from column names to values; a column the table does not have reads as
  NULL. An operation acts on the schema and on the rows, and fails where PostgreSQL
  refuses it: a name that is taken or missing, a foreign key without its table, a table another one
  refers to, rows that a new constraint forbids.
\<close>

text \<open>Two texts are compared from the left, and no further than they agree.\<close>

lemma equal_list_lazy [code]:
  "HOL.equal [] ([] :: 'a list) = True" "HOL.equal [] (z # zs) = False" "HOL.equal (z # zs) [] = False"
  "HOL.equal (x # xs) (y # ys) = (if HOL.equal x y then HOL.equal xs ys else False)"
  for x y z :: "'a :: equal"
  by (simp_all add: equal)

subsection \<open>Values and conditions\<close>

datatype sql_value = SNull | SText string | SInt int | STime int | SBool bool | SJson string

datatype condition =
    IsIn string "string list"
  | Differs string string
  | Greater string int
  | AtLeast string int
  | IsNotNull string
  | And condition condition
  | Or condition condition
  | Neg condition

type_synonym sql_row = "string \<Rightarrow> sql_value"

fun and3 :: "bool option \<Rightarrow> bool option \<Rightarrow> bool option" where
  "and3 (Some False) b = Some False"
| "and3 (Some True) b = b"
| "and3 None b = (if b = Some False then Some False else None)"

definition not3 :: "bool option \<Rightarrow> bool option" where
  "not3 b = map_option (\<lambda>x. \<not> x) b"

definition or3 :: "bool option \<Rightarrow> bool option \<Rightarrow> bool option" where
  "or3 a b = not3 (and3 (not3 a) (not3 b))"

fun text_test :: "(string \<Rightarrow> bool) \<Rightarrow> sql_value \<Rightarrow> bool option" where
  \<comment> \<open>a comparison with a value of another type is not among the source's conditions\<close>
  "text_test p (SText s) = Some (p s)"
| "text_test p _ = None"

fun int_test :: "(int \<Rightarrow> bool) \<Rightarrow> sql_value \<Rightarrow> bool option" where
  "int_test p (SInt i) = Some (p i)"
| "int_test p _ = None"

fun truth :: "condition \<Rightarrow> sql_row \<Rightarrow> bool option" where
  "truth (IsIn c vs) r = text_test (\<lambda>s. s \<in> set vs) (r c)"
| "truth (Differs c v) r = text_test (\<lambda>s. s \<noteq> v) (r c)"
| "truth (Greater c i) r = int_test (\<lambda>x. x > i) (r c)"
| "truth (AtLeast c i) r = int_test (\<lambda>x. x \<ge> i) (r c)"
| "truth (IsNotNull c) r = Some (r c \<noteq> SNull)"
| "truth (And a b) r = and3 (truth a r) (truth b r)"
| "truth (Or a b) r = or3 (truth a r) (truth b r)"
| "truth (Neg a) r = not3 (truth a r)"

fun condition_columns :: "condition \<Rightarrow> string list" where
  "condition_columns (IsIn c vs) = [c]"
| "condition_columns (Differs c v) = [c]"
| "condition_columns (Greater c i) = [c]"
| "condition_columns (AtLeast c i) = [c]"
| "condition_columns (IsNotNull c) = [c]"
| "condition_columns (And a b) = condition_columns a @ condition_columns b"
| "condition_columns (Or a b) = condition_columns a @ condition_columns b"
| "condition_columns (Neg a) = condition_columns a"

definition check_passes :: "condition \<Rightarrow> sql_row \<Rightarrow> bool" where
  \<comment> \<open>a CHECK refuses a row only when its condition is false\<close>
  "check_passes c r = (truth c r \<noteq> Some False)"

subsection \<open>Tables\<close>

datatype col_type = TString nat | TText | TInteger | TBigInteger | TBoolean | TJson | TTimestamp

fun value_fits :: "col_type \<Rightarrow> sql_value \<Rightarrow> bool" where
  \<comment> \<open>the values of a type; NULL is a matter of the column\<close>
  "value_fits (TString n) v = (case v of SText s \<Rightarrow> length s \<le> n | _ \<Rightarrow> False)"
| "value_fits TText v = (case v of SText s \<Rightarrow> True | _ \<Rightarrow> False)"
| "value_fits TInteger v = (case v of SInt i \<Rightarrow> - (2 ^ 31) \<le> i \<and> i < 2 ^ 31 | _ \<Rightarrow> False)"
| "value_fits TBigInteger v = (case v of SInt i \<Rightarrow> - (2 ^ 63) \<le> i \<and> i < 2 ^ 63 | _ \<Rightarrow> False)"
| "value_fits TBoolean v = (case v of SBool b \<Rightarrow> True | _ \<Rightarrow> False)"
| "value_fits TJson v = (case v of SJson s \<Rightarrow> True | _ \<Rightarrow> False)"
| "value_fits TTimestamp v = (case v of STime t \<Rightarrow> True | _ \<Rightarrow> False)"

datatype server_default = DefaultValue sql_value | DefaultNow

record column =
  col_name :: string
  col_type :: col_type
  col_nullable :: bool
  col_default :: "server_default option"

datatype table_constraint =
    PrimaryKey string "string list"
  | ForeignKey string string string "string option"
  | UniqueKey string "string list"
  | CheckRow string condition

record index_def =
  ix_name :: string
  ix_columns :: "string list"
  ix_unique :: bool

record table_def =
  tab_name :: string
  tab_columns :: "column list"
  tab_constraints :: "table_constraint list"
  tab_indexes :: "index_def list"

datatype item =
    ItemColumn column
  | ItemKey column
  | ItemReference column table_constraint
  | ItemUnique string "string list"
  | ItemPrimaryKey string "string list"

fun item_columns :: "item \<Rightarrow> column list" where
  "item_columns (ItemColumn c) = [c]"
| "item_columns (ItemKey c) = [c]"
| "item_columns (ItemReference c f) = [c]"
| "item_columns (ItemUnique n cs) = []"
| "item_columns (ItemPrimaryKey n cs) = []"

fun item_constraints :: "string \<Rightarrow> item \<Rightarrow> table_constraint list" where
  \<comment> \<open>an unnamed primary key gets the naming convention's name\<close>
  "item_constraints t (ItemColumn c) = []"
| "item_constraints t (ItemKey c) = [PrimaryKey (''pk_'' @ t) [col_name c]]"
| "item_constraints t (ItemReference c f) = [f]"
| "item_constraints t (ItemUnique n cs) = [UniqueKey n cs]"
| "item_constraints t (ItemPrimaryKey n cs) = [PrimaryKey n cs]"

definition not_null :: "column \<Rightarrow> column" where
  "not_null c = c\<lparr>col_nullable := False\<rparr>"

definition check_name :: "string \<Rightarrow> string \<Rightarrow> string" where
  \<comment> \<open>the naming convention \<open>ck_%(table_name)s_%(constraint_name)s\<close>\<close>
  "check_name t n = ''ck_'' @ t @ ''_'' @ n"

fun constraint_columns :: "table_constraint \<Rightarrow> string list" where
  "constraint_columns (PrimaryKey n cs) = cs"
| "constraint_columns (ForeignKey n c t d) = [c]"
| "constraint_columns (UniqueKey n cs) = cs"
| "constraint_columns (CheckRow n c) = condition_columns c"

fun refers_to :: "string \<Rightarrow> table_constraint \<Rightarrow> bool" where
  "refers_to t (ForeignKey n c t' d) = (t' = t)"
| "refers_to t _ = False"

subsection \<open>Operations\<close>

datatype operation =
    CreateTable string "item list"
  | CreateIndex string string "string list" bool
  | AddColumn string column
  | DropDefault string string
  | SetNotNull string string
  | CopyColumn string string string
  | CreateCheck string string condition
  | DropCheck string string
  | DropColumn string string
  | DropIndex string string
  | DropTable string

type_synonym schema = "table_def list"
type_synonym contents = "string \<Rightarrow> sql_row list"

definition ddl_error :: "string \<Rightarrow> exn" where
  "ddl_error t = Sql DBAPIE t"

definition has_table :: "string \<Rightarrow> schema \<Rightarrow> bool" where
  "has_table t s = list_ex (\<lambda>x. tab_name x = t) s"

definition on_table :: "string \<Rightarrow> (table_def \<Rightarrow> bool) \<Rightarrow> (table_def \<Rightarrow> table_def) \<Rightarrow> schema \<Rightarrow> exn + schema" where
  \<comment> \<open>change a table that exists and is as the operation needs it\<close>
  "on_table t ok f s =
     (if list_ex (\<lambda>x. if tab_name x = t then ok x else False) s then Inr (map (\<lambda>x. if tab_name x = t then f x else x) s)
      else Inl (ddl_error t))"

definition has_column :: "string \<Rightarrow> table_def \<Rightarrow> bool" where
  "has_column c t = list_ex (\<lambda>x. col_name x = c) (tab_columns t)"

definition on_column :: "string \<Rightarrow> (column \<Rightarrow> column) \<Rightarrow> table_def \<Rightarrow> table_def" where
  "on_column c f t = t\<lparr>tab_columns := map (\<lambda>x. if col_name x = c then f x else x) (tab_columns t)\<rparr>"

definition is_check :: "string \<Rightarrow> table_constraint \<Rightarrow> bool" where
  "is_check n k = (case k of CheckRow m c \<Rightarrow> m = n | _ \<Rightarrow> False)"

definition new_table :: "string \<Rightarrow> item list \<Rightarrow> table_def" where
  "new_table t items = \<lparr>tab_name = t, tab_columns = concat (map item_columns items),
     tab_constraints = concat (map (item_constraints t) items), tab_indexes = []\<rparr>"

definition default_fits :: "column \<Rightarrow> bool" where
  "default_fits c = (case col_default c of None \<Rightarrow> True | Some (DefaultValue v) \<Rightarrow> value_fits (col_type c) v
     | Some DefaultNow \<Rightarrow> col_type c = TTimestamp)"

definition table_ok :: "table_def \<Rightarrow> bool" where
  \<comment> \<open>column names differ, defaults have their column's type, constraints and indexes name columns of the table\<close>
  "table_ok x = (distinct (map col_name (tab_columns x)) \<and> list_all default_fits (tab_columns x) \<and>
     list_all (\<lambda>k. list_all (\<lambda>c. has_column c x) (constraint_columns k)) (tab_constraints x) \<and>
     list_all (\<lambda>i. list_all (\<lambda>c. has_column c x) (ix_columns i)) (tab_indexes x))"

definition same_type :: "string \<Rightarrow> string \<Rightarrow> table_def \<Rightarrow> bool" where
  "same_type a b x = (case (find (\<lambda>y. col_name y = a) (tab_columns x), find (\<lambda>y. col_name y = b) (tab_columns x)) of
     (Some p, Some q) \<Rightarrow> col_nullable p \<and> col_type p = col_type q | _ \<Rightarrow> False)"

fun op_table :: "operation \<Rightarrow> string" where
  "op_table (CreateTable t items) = t"
| "op_table (CreateIndex n t cs u) = t"
| "op_table (AddColumn t c) = t"
| "op_table (DropDefault t c) = t"
| "op_table (SetNotNull t c) = t"
| "op_table (CopyColumn t a b) = t"
| "op_table (CreateCheck t n c) = t"
| "op_table (DropCheck t n) = t"
| "op_table (DropColumn t c) = t"
| "op_table (DropIndex n t) = t"
| "op_table (DropTable t) = t"

text \<open>What an operation needs of its table, and what it makes of it. A copy goes into a nullable column of
  the same type that no constraint mentions, so that it cannot fail on a row; a dropped column takes
  with it the constraints and indexes that mention it.\<close>

fun alter_ok :: "operation \<Rightarrow> table_def \<Rightarrow> bool" where
  "alter_ok (CreateIndex n t cs u) x = list_all (\<lambda>c. has_column c x) cs"
| "alter_ok (AddColumn t c) x = (\<not> has_column (col_name c) x \<and> default_fits c)"
| "alter_ok (DropDefault t c) x = has_column c x"
| "alter_ok (SetNotNull t c) x = has_column c x"
| "alter_ok (CopyColumn t a b) x =
     (same_type a b x \<and> list_all (\<lambda>k. a \<notin> set (constraint_columns k)) (tab_constraints x))"
| "alter_ok (CreateCheck t n c) x =
     (\<not> list_ex (is_check (check_name t n)) (tab_constraints x) \<and> list_all (\<lambda>y. has_column y x) (condition_columns c))"
| "alter_ok (DropCheck t n) x = list_ex (is_check (check_name t n)) (tab_constraints x)"
| "alter_ok (DropColumn t c) x = has_column c x"
| "alter_ok (DropIndex n t) x = list_ex (\<lambda>i. ix_name i = n) (tab_indexes x)"
| "alter_ok _ x = False"

fun alter :: "operation \<Rightarrow> table_def \<Rightarrow> table_def" where
  "alter (CreateIndex n t cs u) x =
     x\<lparr>tab_indexes := tab_indexes x @ [\<lparr>ix_name = n, ix_columns = cs, ix_unique = u\<rparr>]\<rparr>"
| "alter (AddColumn t c) x = x\<lparr>tab_columns := tab_columns x @ [c]\<rparr>"
| "alter (DropDefault t c) x = on_column c (\<lambda>y. y\<lparr>col_default := None\<rparr>) x"
| "alter (SetNotNull t c) x = on_column c not_null x"
| "alter (CreateCheck t n c) x = x\<lparr>tab_constraints := tab_constraints x @ [CheckRow (check_name t n) c]\<rparr>"
| "alter (DropCheck t n) x =
     x\<lparr>tab_constraints := filter (\<lambda>k. \<not> is_check (check_name t n) k) (tab_constraints x)\<rparr>"
| "alter (DropColumn t c) x =
     x\<lparr>tab_columns := filter (\<lambda>y. col_name y \<noteq> c) (tab_columns x),
       tab_constraints := filter (\<lambda>k. c \<notin> set (constraint_columns k)) (tab_constraints x),
       tab_indexes := filter (\<lambda>i. c \<notin> set (ix_columns i)) (tab_indexes x)\<rparr>"
| "alter (DropIndex n t) x = x\<lparr>tab_indexes := filter (\<lambda>i. ix_name i \<noteq> n) (tab_indexes x)\<rparr>"
| "alter _ x = x"

definition targets_exist :: "schema \<Rightarrow> string \<Rightarrow> table_constraint list \<Rightarrow> bool" where
  \<comment> \<open>every foreign key refers to the table itself or to a table of the schema\<close>
  "targets_exist s t ks =
     list_all (\<lambda>k. case k of ForeignKey n c t' d \<Rightarrow> (if t' = t then True else has_table t' s) | _ \<Rightarrow> True) ks"

fun schema_ok :: "operation \<Rightarrow> schema \<Rightarrow> bool" where
  \<comment> \<open>what an operation needs of the other tables\<close>
  "schema_ok (CreateTable t items) s =
     (\<not> has_table t s \<and> targets_exist s t (tab_constraints (new_table t items)) \<and> table_ok (new_table t items))"
| "schema_ok (CreateIndex n t cs u) s = (\<not> list_ex (\<lambda>x. list_ex (\<lambda>i. ix_name i = n) (tab_indexes x)) s)"
| "schema_ok (DropColumn t c) s = (if c = ''id'' then \<not> list_ex (\<lambda>x. list_ex (refers_to t) (tab_constraints x)) s else True)"
| "schema_ok (DropTable t) s =
     (\<not> list_ex (\<lambda>x. if tab_name x = t then False else list_ex (refers_to t) (tab_constraints x)) s)"
| "schema_ok _ s = True"

definition apply_schema :: "operation \<Rightarrow> schema \<Rightarrow> exn + schema" where
  "apply_schema x s =
     (if schema_ok x s then
        (case x of
           CreateTable t items \<Rightarrow> Inr (s @ [new_table t items])
         | DropTable t \<Rightarrow> (if has_table t s then Inr (filter (\<lambda>y. tab_name y \<noteq> t) s) else Inl (ddl_error t))
         | _ \<Rightarrow> on_table (op_table x) (alter_ok x) (alter x) s)
      else Inl (ddl_error (op_table x)))"

definition default_value :: "int \<Rightarrow> column \<Rightarrow> sql_value" where
  \<comment> \<open>the value existing rows get in a new column; \<open>now\<close> is the transaction's time\<close>
  "default_value now c =
     (case col_default c of None \<Rightarrow> SNull | Some (DefaultValue v) \<Rightarrow> v | Some DefaultNow \<Rightarrow> STime now)"

definition on_rows :: "string \<Rightarrow> (sql_row \<Rightarrow> bool) \<Rightarrow> (sql_row \<Rightarrow> sql_row) \<Rightarrow> contents \<Rightarrow> exn + contents" where
  "on_rows t ok f d =
     (if list_all (\<lambda>r. ok (f r)) (d t) then Inr (d(t := map f (d t))) else Inl (Sql IntegrityE t))"

fun apply_contents :: "int \<Rightarrow> operation \<Rightarrow> contents \<Rightarrow> exn + contents" where
  "apply_contents now (CreateTable t items) d = Inr (d(t := []))"
| "apply_contents now (AddColumn t c) d =
     on_rows t (\<lambda>r. col_nullable c \<or> r (col_name c) \<noteq> SNull) (\<lambda>r. r(col_name c := default_value now c)) d"
| "apply_contents now (SetNotNull t c) d = on_rows t (\<lambda>r. r c \<noteq> SNull) id d"
| "apply_contents now (CopyColumn t a b) d = on_rows t (\<lambda>r. True) (\<lambda>r. r(a := r b)) d"
| "apply_contents now (CreateCheck t n c) d = on_rows t (check_passes c) id d"
| "apply_contents now (DropColumn t c) d = on_rows t (\<lambda>r. True) (\<lambda>r. r(c := SNull)) d"
| "apply_contents now (DropTable t) d = Inr (d(t := []))"
| "apply_contents now _ d = Inr d"

fun run_operations :: "int \<Rightarrow> operation list \<Rightarrow> schema \<times> contents \<Rightarrow> exn + schema \<times> contents" where
  "run_operations now [] st = Inr st"
| "run_operations now (x # xs) (s, d) =
     sum_bind (apply_schema x s) (\<lambda>s'.
     sum_bind (apply_contents now x d) (\<lambda>d'. run_operations now xs (s', d')))"

fun run_schema :: "operation list \<Rightarrow> schema \<Rightarrow> exn + schema" where
  "run_schema [] s = Inr s"
| "run_schema (x # xs) s = sum_bind (apply_schema x s) (run_schema xs)"

fun run_contents :: "int \<Rightarrow> operation list \<Rightarrow> contents \<Rightarrow> exn + contents" where
  "run_contents now [] d = Inr d"
| "run_contents now (x # xs) d = sum_bind (apply_contents now x d) (run_contents now xs)"

lemma run_operations_Inr:
  "run_operations now xs (s, d) = Inr (s', d') \<longleftrightarrow> run_schema xs s = Inr s' \<and> run_contents now xs d = Inr d'"
  by (induction xs arbitrary: s d) (auto simp: sum_bind_Inr_iff)

lemma run_schema_append: "run_schema (xs @ ys) s = sum_bind (run_schema xs s) (run_schema ys)"
proof (induction xs arbitrary: s)
  case (Cons x xs)
  then show ?case by (cases "apply_schema x s") simp_all
qed simp

lemma run_contents_append: "run_contents now (xs @ ys) d = sum_bind (run_contents now xs d) (run_contents now ys)"
proof (induction xs arbitrary: d)
  case (Cons x xs)
  then show ?case by (cases "apply_contents now x d") simp_all
qed simp

subsection \<open>Rows of a table\<close>

definition model_checks :: "table_def \<Rightarrow> condition list" where
  "model_checks t = concat (map (\<lambda>k. case k of CheckRow n c \<Rightarrow> [c] | _ \<Rightarrow> []) (tab_constraints t))"

definition row_accepted :: "table_def \<Rightarrow> sql_row \<Rightarrow> bool" where
  \<comment> \<open>no CHECK of the table refuses the row\<close>
  "row_accepted t r = list_all (\<lambda>c. check_passes c r) (model_checks t)"

definition column_fits :: "column \<Rightarrow> sql_value \<Rightarrow> bool" where
  "column_fits c v = (if v = SNull then col_nullable c else value_fits (col_type c) v)"

definition row_fits :: "table_def \<Rightarrow> sql_row \<Rightarrow> bool" where
  \<comment> \<open>every column holds a value of its type, and no CHECK refuses the row\<close>
  "row_fits x r = (list_all (\<lambda>c. column_fits c (r (col_name c))) (tab_columns x) \<and> row_accepted x r)"

definition rows_fit :: "schema \<Rightarrow> contents \<Rightarrow> bool" where
  "rows_fit s d = list_all (\<lambda>x. list_all (row_fits x) (d (tab_name x))) s"

subsection \<open>Equal schemas\<close>

definition same_set :: "'a list \<Rightarrow> 'a list \<Rightarrow> bool" where
  "same_set xs ys = (if xs = ys then True else list_all (\<lambda>x. x \<in> set ys) xs \<and> list_all (\<lambda>y. y \<in> set xs) ys)"

definition same_table :: "table_def \<Rightarrow> table_def \<Rightarrow> bool" where
  "same_table x y = (if tab_name x = tab_name y
     then same_set (tab_columns x) (tab_columns y) \<and> same_set (tab_constraints x) (tab_constraints y) \<and>
       same_set (tab_indexes x) (tab_indexes y)
     else False)"

definition same_schema :: "schema \<Rightarrow> schema \<Rightarrow> bool" where
  "same_schema s s' = (list_all (\<lambda>x. list_ex (same_table x) s') s \<and> list_all (\<lambda>y. list_ex (\<lambda>x. same_table x y) s) s')"

end
