(* ===== verification/Schema_Laws.thy ===== *)
theory Schema_Laws
  imports Sql_Schema
begin

section \<open>What the operations keep of a schema and of its rows\<close>

text \<open>
  A schema is well formed when its names are unique, every table is consistent in itself and every foreign key has its
  table. Every operation that succeeds keeps this; and it keeps that every row holds values of
  the types of its columns that no CHECK refuses.
\<close>

subsection \<open>Columns of a table\<close>

definition column_names :: "table_def \<Rightarrow> string list" where
  "column_names x = map col_name (tab_columns x)"

definition index_names :: "table_def \<Rightarrow> string list" where
  "index_names x = map ix_name (tab_indexes x)"

lemma has_column_iff: "has_column c x \<longleftrightarrow> c \<in> set (column_names x)"
  by (auto simp: has_column_def column_names_def list_ex_iff)

lemma column_names_simps [simp]:
  "column_names (x\<lparr>tab_indexes := is\<rparr>) = column_names x" "column_names (x\<lparr>tab_constraints := ks\<rparr>) = column_names x"
  "column_names (x\<lparr>tab_columns := cs\<rparr>) = map col_name cs"
  by (simp_all add: column_names_def)

lemma notin_image_iff: "t \<notin> f ` A \<longleftrightarrow> (\<forall>y \<in> A. f y \<noteq> t)"
  by auto

lemma has_table_iff: "has_table t s \<longleftrightarrow> t \<in> tab_name ` set s"
  by (auto simp: has_table_def list_ex_iff)

lemma column_names_on_column [simp]:
  "(\<And>y. col_name (f y) = col_name y) \<Longrightarrow> column_names (on_column c f x) = column_names x"
  by (auto simp: column_names_def on_column_def)

lemma table_okI:
  assumes "distinct (column_names x)" and "\<And>c. c \<in> set (tab_columns x) \<Longrightarrow> default_fits c"
    and "\<And>k c. k \<in> set (tab_constraints x) \<Longrightarrow> c \<in> set (constraint_columns k) \<Longrightarrow> c \<in> set (column_names x)"
    and "\<And>i c. i \<in> set (tab_indexes x) \<Longrightarrow> c \<in> set (ix_columns i) \<Longrightarrow> c \<in> set (column_names x)"
  shows "table_ok x"
  using assms by (simp add: table_ok_def list_all_iff has_column_iff column_names_def)

lemma table_okD:
  assumes "table_ok x"
  shows "distinct (column_names x)" and "c \<in> set (tab_columns x) \<Longrightarrow> default_fits c"
    and "k \<in> set (tab_constraints x) \<Longrightarrow> y \<in> set (constraint_columns k) \<Longrightarrow> y \<in> set (column_names x)"
    and "i \<in> set (tab_indexes x) \<Longrightarrow> y \<in> set (ix_columns i) \<Longrightarrow> y \<in> set (column_names x)"
  using assms by (auto simp: table_ok_def list_all_iff has_column_iff column_names_def)

lemma tab_name_alter [simp]: "tab_name (alter op x) = tab_name x"
  by (cases op) (simp_all add: on_column_def)

lemma not_null_simps [simp]:
  "col_name (not_null c) = col_name c" "default_fits (not_null c) = default_fits c" "col_type (not_null c) = col_type c"
  by (auto simp: not_null_def default_fits_def split: option.splits server_default.splits)

lemma table_ok_on_column:
  assumes "table_ok x" and "\<And>y. col_name (f y) = col_name y" and "\<And>y. default_fits y \<Longrightarrow> default_fits (f y)"
  shows "table_ok (on_column c f x)"
proof -
  have names: "column_names (on_column c f x) = column_names x" by (rule column_names_on_column) (rule assms(2))
  show ?thesis
  proof (rule table_okI, unfold names)
    fix y assume "y \<in> set (tab_columns (on_column c f x))"
    then show "default_fits y" using table_okD(2) [OF assms(1)] assms(3) by (auto simp: on_column_def)
  qed (use table_okD [OF assms(1)] in \<open>auto simp: on_column_def\<close>)
qed

lemma table_ok_alter:
  assumes "table_ok x" and "alter_ok op x"
  shows "table_ok (alter op x)"
proof (cases op)
  case (CreateIndex n t cs u)
  with assms table_okD [OF assms(1)] show ?thesis by (intro table_okI) (auto simp: has_column_iff list_all_iff)
next
  case (AddColumn t c)
  then have n: "column_names (alter op x) = column_names x @ [col_name c]" by (simp add: column_names_def)
  show ?thesis
  proof (rule table_okI, unfold n)
  qed (use AddColumn assms table_okD [OF assms(1)] in \<open>auto simp: has_column_iff\<close>)
next
  case (DropDefault t c)
  then show ?thesis using table_ok_on_column [OF assms(1)] by (simp add: default_fits_def)
next
  case (SetNotNull t c)
  then show ?thesis using table_ok_on_column [OF assms(1)] by simp
next
  case (CreateCheck t n c)
  with assms table_okD [OF assms(1)] show ?thesis by (intro table_okI) (auto simp: has_column_iff list_all_iff)
next
  case (DropCheck t n)
  with table_okD [OF assms(1)] show ?thesis by (intro table_okI) auto
next
  case (DropColumn t c)
  then have n: "column_names (alter op x) = filter (\<lambda>y. y \<noteq> c) (column_names x)"
    by (simp add: column_names_def filter_map comp_def)
  show ?thesis
  proof (rule table_okI, unfold n)
  qed (use DropColumn table_okD [OF assms(1)] in auto)
next
  case (DropIndex n t)
  with table_okD [OF assms(1)] show ?thesis by (intro table_okI) auto
qed (use assms in auto)

subsection \<open>Well-formed schemas\<close>

fun target :: "table_constraint \<Rightarrow> string option" where
  "target (ForeignKey n c t d) = Some t"
| "target _ = None"

definition targets :: "table_def \<Rightarrow> string set" where
  "targets x = {t. \<exists>k \<in> set (tab_constraints x). target k = Some t}"

definition wf_schema :: "schema \<Rightarrow> bool" where
  "wf_schema s = (distinct (map tab_name s) \<and> list_all table_ok s \<and>
     list_all (\<lambda>x. targets_exist s (tab_name x) (tab_constraints x)) s \<and> distinct (concat (map index_names s)))"

lemma refers_to_iff: "refers_to t k \<longleftrightarrow> target k = Some t"
  by (cases k) auto

lemma targets_exist_iff: "targets_exist s (tab_name x) (tab_constraints x) \<longleftrightarrow> targets x \<subseteq> insert (tab_name x) (tab_name ` set s)"
proof -
  have "(case k of ForeignKey n c t' d \<Rightarrow> P t' | _ \<Rightarrow> True) \<longleftrightarrow> (\<forall>t'. target k = Some t' \<longrightarrow> P t')" for k P
    by (cases k) auto
  then show ?thesis unfolding targets_exist_def targets_def list_all_iff has_table_iff by (auto split: if_splits)
qed

lemma wf_schema_iff:
  "wf_schema s \<longleftrightarrow> distinct (map tab_name s) \<and> (\<forall>x \<in> set s. table_ok x \<and> targets x \<subseteq> tab_name ` set s) \<and>
     distinct (concat (map index_names s))"
  unfolding wf_schema_def list_all_iff targets_exist_iff by auto

lemma on_tableE:
  assumes "on_table t ok f s = Inr s'" and "distinct (map tab_name s)"
  obtains a x b where "s = a @ x # b" and "s' = a @ f x # b" and "tab_name x = t" and "ok x"
    and "t \<notin> tab_name ` set a" and "t \<notin> tab_name ` set b"
proof -
  from assms(1) obtain x where x: "x \<in> set s" "tab_name x = t" "ok x"
    and s': "s' = map (\<lambda>y. if tab_name y = t then f y else y) s"
    by (auto simp: on_table_def list_ex_iff split: if_splits)
  from x(1) obtain a b where s: "s = a @ x # b" by (auto simp: in_set_conv_decomp)
  from assms(2) x(2) s have n: "t \<notin> tab_name ` set a" "t \<notin> tab_name ` set b" by auto
  then have "map (\<lambda>y. if tab_name y = t then f y else y) a = a" "map (\<lambda>y. if tab_name y = t then f y else y) b = b"
    by (auto intro!: map_idI)
  with s s' x(2) have "s' = a @ f x # b" by simp
  with s x n that show ?thesis by blast
qed

text \<open>The cases of an operation that succeeded: a new table, a table less, or one table changed.\<close>

lemma apply_schema_cases [consumes 2, case_names create drop change]:
  assumes "apply_schema op s = Inr s'" and "distinct (map tab_name s)"
  obtains (create) t items where "op = CreateTable t items" and "schema_ok op s" and "s' = s @ [new_table t items]"
  | (drop) t where "op = DropTable t" and "schema_ok op s" and "has_table t s" and "s' = filter (\<lambda>x. tab_name x \<noteq> t) s"
  | (change) a x b where "s = a @ x # b" and "s' = a @ alter op x # b" and "tab_name x = op_table op"
      and "alter_ok op x" and "schema_ok op s" and "op_table op \<notin> tab_name ` set a" and "op_table op \<notin> tab_name ` set b"
proof -
  have ok: "schema_ok op s" using assms(1) by (auto simp: apply_schema_def split: if_splits)
  show ?thesis
  proof (cases "\<exists>t items. op = CreateTable t items \<or> op = DropTable t")
    case True
    with assms(1) ok that(1,2) show ?thesis by (auto simp: apply_schema_def split: if_splits)
  next
    case False
    with assms(1) ok have "on_table (op_table op) (alter_ok op) (alter op) s = Inr s'"
      by (auto simp: apply_schema_def split: operation.splits)
    from on_tableE [OF this assms(2)] ok that(3) show ?thesis by metis
  qed
qed

lemma targets_alter: "targets (alter op x) \<subseteq> targets x"
  by (cases op) (auto simp: targets_def on_column_def)

lemma index_names_alter:
  "index_names (alter op x) = index_names x \<or> (\<exists>n t cs u. op = CreateIndex n t cs u \<and> index_names (alter op x) = index_names x @ [n])
     \<or> (\<exists>P. index_names (alter op x) = map ix_name (filter P (tab_indexes x)))"
  by (cases op) (auto simp: index_names_def on_column_def)

lemma wf_schema_preserved:
  assumes "apply_schema op s = Inr s'" and "wf_schema s"
  shows "wf_schema s'"
proof -
  have d: "distinct (map tab_name s)" using assms(2) by (simp add: wf_schema_def)
  from assms(1) d show ?thesis
  proof (cases rule: apply_schema_cases)
    case (create t items)
    then have "targets (new_table t items) \<subseteq> insert t (tab_name ` set s)" "table_ok (new_table t items)" "t \<notin> tab_name ` set s"
      using targets_exist_iff [of s "new_table t items"] by (auto simp: has_table_iff new_table_def)
    with create assms(2) show ?thesis
      by (auto simp: wf_schema_iff index_names_def new_table_def)
  next
    case (drop t)
    have "targets x \<subseteq> tab_name ` set s'" if "x \<in> set s'" for x
    proof -
      from that drop have x: "x \<in> set s" "tab_name x \<noteq> t" by auto
      from drop(1,2) have "\<not> (\<exists>y \<in> set s. tab_name y \<noteq> t \<and> list_ex (refers_to t) (tab_constraints y))"
        by (auto simp: list_ex_iff)
      with x have "\<not> list_ex (refers_to t) (tab_constraints x)" by blast
      then have "t \<notin> targets x" by (auto simp: list_ex_iff refers_to_iff targets_def)
      with x assms(2) drop(4) show ?thesis by (fastforce simp: wf_schema_iff)
    qed
    moreover have "distinct (concat (map index_names (filter P s)))" if "distinct (concat (map index_names s))" for P
      using that by (induction s) auto
    ultimately show ?thesis using assms(2) drop by (auto simp: wf_schema_iff distinct_map_filter)
  next
    case (change a x b)
    have "distinct (concat (map index_names s'))"
      using index_names_alter [of op x]
    proof (elim disjE exE conjE)
      fix n t cs u assume op: "op = CreateIndex n t cs u" and i: "index_names (alter op x) = index_names x @ [n]"
      from change(5) op have "n \<notin> set (concat (map index_names s))" by (auto simp: list_ex_iff index_names_def)
      with i assms(2) change show ?thesis by (auto simp: wf_schema_iff)
    next
      fix P assume i: "index_names (alter op x) = map ix_name (filter P (tab_indexes x))"
      then have "set (index_names (alter op x)) \<subseteq> set (index_names x)" by (auto simp: index_names_def)
      moreover have "distinct (index_names (alter op x))"
        using assms(2) change i by (auto simp: wf_schema_iff index_names_def distinct_map_filter)
      ultimately show ?thesis using assms(2) change by (auto simp: wf_schema_iff)
    qed (use assms(2) change in \<open>auto simp: wf_schema_iff\<close>)
    moreover have "table_ok (alter op x)" using assms(2) change by (auto simp: wf_schema_iff intro: table_ok_alter)
    ultimately show ?thesis using assms(2) change targets_alter [of op x] by (auto simp: wf_schema_iff)
  qed
qed

subsection \<open>Rows\<close>

lemma truth_cong: "(\<And>c. c \<in> set (condition_columns k) \<Longrightarrow> r c = r' c) \<Longrightarrow> truth k r = truth k r'"
  by (induction k) auto

lemma check_passes_upd: "c \<notin> set (condition_columns k) \<Longrightarrow> check_passes k (r(c := v)) = check_passes k r"
  unfolding check_passes_def by (subst truth_cong [of k "r(c := v)" r]) auto

lemma row_accepted_iff: "row_accepted x r \<longleftrightarrow> (\<forall>n c. CheckRow n c \<in> set (tab_constraints x) \<longrightarrow> check_passes c r)"
  by (auto simp: row_accepted_def model_checks_def list_all_iff split: table_constraint.splits)

lemma row_fits_iff:
  "row_fits x r \<longleftrightarrow> (\<forall>c \<in> set (tab_columns x). column_fits c (r (col_name c))) \<and>
     (\<forall>n c. CheckRow n c \<in> set (tab_constraints x) \<longrightarrow> check_passes c r)"
  by (simp add: row_fits_def list_all_iff row_accepted_iff)

lemma column_fits_cong: "col_type c = col_type c' \<Longrightarrow> col_nullable c = col_nullable c' \<Longrightarrow> column_fits c v = column_fits c' v"
  by (simp add: column_fits_def)

lemma default_column_fits:
  "default_fits c \<Longrightarrow> col_nullable c \<or> default_value now c \<noteq> SNull \<Longrightarrow> column_fits c (default_value now c)"
  by (auto simp: column_fits_def default_fits_def default_value_def split: option.splits server_default.splits)

text \<open>What an operation makes of a row, and the rows it refuses.\<close>

fun row_change :: "int \<Rightarrow> operation \<Rightarrow> sql_row \<Rightarrow> sql_row" where
  "row_change now (AddColumn t c) r = r(col_name c := default_value now c)"
| "row_change now (CopyColumn t a b) r = r(a := r b)"
| "row_change now (DropColumn t c) r = r(c := SNull)"
| "row_change now _ r = r"

fun row_ok :: "operation \<Rightarrow> sql_row \<Rightarrow> bool" where
  "row_ok (AddColumn t c) r = (col_nullable c \<or> r (col_name c) \<noteq> SNull)"
| "row_ok (SetNotNull t c) r = (r c \<noteq> SNull)"
| "row_ok (CreateCheck t n c) r = check_passes c r"
| "row_ok _ r = True"

lemma row_functions:
  "row_change now (CreateIndex n t cs u) = id" "row_ok (CreateIndex n t cs u) = (\<lambda>r. True)"
  "row_change now (DropDefault t c) = id" "row_ok (DropDefault t c) = (\<lambda>r. True)"
  "row_change now (DropCheck t n) = id" "row_ok (DropCheck t n) = (\<lambda>r. True)"
  "row_change now (DropIndex n t) = id" "row_ok (DropIndex n t) = (\<lambda>r. True)"
  "row_change now (SetNotNull t c) = id" "row_ok (SetNotNull t c) = (\<lambda>r. r c \<noteq> SNull)"
  "row_change now (CreateCheck t n k) = id" "row_ok (CreateCheck t n k) = check_passes k"
  "row_change now (AddColumn t y) = (\<lambda>r. r(col_name y := default_value now y))"
  "row_ok (AddColumn t y) = (\<lambda>r. col_nullable y \<or> r (col_name y) \<noteq> SNull)"
  "row_change now (CopyColumn t c a) = (\<lambda>r. r(c := r a))" "row_ok (CopyColumn t c a) = (\<lambda>r. True)"
  "row_change now (DropColumn t c) = (\<lambda>r. r(c := SNull))" "row_ok (DropColumn t c) = (\<lambda>r. True)"
  by (simp_all add: fun_eq_iff)

lemma apply_contents_eq:
  "alter_ok op x \<Longrightarrow> apply_contents now op d = on_rows (op_table op) (row_ok op) (row_change now op) d"
  by (cases op) (simp_all add: row_functions on_rows_def list_all_iff)

lemma apply_contents_alter:
  assumes "apply_contents now op d = Inr d'" and "alter_ok op x"
  shows "d' = d(op_table op := map (row_change now op) (d (op_table op)))"
    and "r \<in> set (d (op_table op)) \<Longrightarrow> row_ok op (row_change now op r)"
  using assms(1) unfolding apply_contents_eq [OF assms(2)] by (auto simp: on_rows_def list_all_iff split: if_splits)

lemma row_fits_alter:
  assumes "row_fits x r" and "table_ok x" and "alter_ok op x" and "row_ok op (row_change now op r)"
  shows "row_fits (alter op x) (row_change now op r)"
proof -
  note x = assms(1) [unfolded row_fits_iff] table_okD [OF assms(2)]
  show ?thesis
  proof (cases op)
    case (AddColumn t c)
    with assms(3) have c: "col_name c \<notin> set (column_names x)" "default_fits c" by (auto simp: has_column_iff)
    with x(4) have "col_name c \<notin> set (condition_columns k)" if "CheckRow n k \<in> set (tab_constraints x)" for n k
      using that by force
    moreover have "col_name y \<noteq> col_name c" if "y \<in> set (tab_columns x)" for y
      using that c(1) unfolding column_names_def set_map notin_image_iff by blast
    ultimately show ?thesis using AddColumn c(2) x(1) assms(4)
      by (auto simp: row_fits_iff check_passes_upd default_column_fits)
  next
    case (DropDefault t c)
    with x show ?thesis by (auto simp: row_fits_iff on_column_def column_fits_def)
  next
    case (SetNotNull t c)
    with x assms(4) show ?thesis by (auto simp: row_fits_iff on_column_def column_fits_def not_null_def)
  next
    case (CopyColumn t a b)
    with assms(3) obtain p q where f: "find (\<lambda>y. col_name y = a) (tab_columns x) = Some p"
        "find (\<lambda>y. col_name y = b) (tab_columns x) = Some q" "col_nullable p" "col_type p = col_type q"
      by (auto simp: same_type_def split: option.splits)
    then have pq: "p \<in> set (tab_columns x)" "col_name p = a" "q \<in> set (tab_columns x)" "col_name q = b"
      by (auto simp: find_Some_iff)
    with x(2) have "y = p" if "y \<in> set (tab_columns x)" "col_name y = a" for y
      using that by (auto simp: column_names_def distinct_map inj_on_def)
    moreover have "column_fits p (r b)" using x(1) pq f by (auto simp: column_fits_def)
    moreover have "a \<notin> set (condition_columns k)" if "CheckRow n k \<in> set (tab_constraints x)" for n k
      using that assms(3) CopyColumn by (fastforce simp: list_all_iff)
    ultimately show ?thesis using CopyColumn x(1) by (auto simp: row_fits_iff check_passes_upd)
  next
    case (DropColumn t c)
    with x(1) show ?thesis by (auto simp: row_fits_iff check_passes_upd)
  qed (use x assms(4) in \<open>auto simp: row_fits_iff\<close>)
qed

lemma rows_fit_iff: "rows_fit s d \<longleftrightarrow> (\<forall>x \<in> set s. \<forall>r \<in> set (d (tab_name x)). row_fits x r)"
  by (simp add: rows_fit_def list_all_iff)

lemma rows_fit_preserved:
  assumes "apply_schema op s = Inr s'" and "apply_contents now op d = Inr d'" and "wf_schema s" and "rows_fit s d"
  shows "rows_fit s' d'"
proof -
  have d: "distinct (map tab_name s)" using assms(3) by (simp add: wf_schema_def)
  from assms(1) d show ?thesis
  proof (cases rule: apply_schema_cases)
    case (create t items)
    with assms(2,4) show ?thesis by (auto simp: rows_fit_iff new_table_def has_table_iff split: if_splits)
  next
    case (drop t)
    with assms(2,4) show ?thesis by (auto simp: rows_fit_iff)
  next
    case (change a x b)
    note c = apply_contents_alter [OF assms(2) change(4)]
    have "row_fits (alter op x) (row_change now op r)" if "r \<in> set (d (op_table op))" for r
      using assms(3,4) change(1,3,4) c(2) [OF that] that by (intro row_fits_alter) (auto simp: rows_fit_iff wf_schema_iff)
    moreover have "tab_name y \<noteq> op_table op" if "y \<in> set a \<union> set b" for y
      using that change(6,7) unfolding notin_image_iff by blast
    ultimately show ?thesis using assms(4) change(1-3) unfolding c(1) by (auto simp: rows_fit_iff)
  qed
qed

definition rows_within :: "schema \<Rightarrow> contents \<Rightarrow> bool" where
  \<comment> \<open>there are rows only in the schema's tables, with values only in their columns\<close>
  "rows_within s d = ((\<forall>t. t \<notin> tab_name ` set s \<longrightarrow> d t = []) \<and>
     (\<forall>x \<in> set s. \<forall>r \<in> set (d (tab_name x)). \<forall>c. c \<notin> set (column_names x) \<longrightarrow> r c = SNull))"

lemma column_names_alter:
  "alter_ok op x \<Longrightarrow> c \<notin> set (column_names (alter op x)) \<Longrightarrow>
     (c \<in> set (column_names x) \<and> (\<exists>t. op = DropColumn t c)) \<or> (c \<notin> set (column_names x) \<and> (\<forall>t y. op = AddColumn t y \<longrightarrow> col_name y \<noteq> c))"
  by (cases op) (auto simp: column_names_def on_column_def)

lemma row_change_outside:
  assumes "alter_ok op x" and "c \<notin> set (column_names (alter op x))" and "c \<notin> set (column_names x) \<Longrightarrow> r c = SNull"
  shows "row_change now op r c = SNull"
proof -
  have "same_type a b x \<Longrightarrow> a \<in> set (column_names x)" for a b
    by (auto simp: same_type_def column_names_def find_Some_iff split: option.splits)
  with column_names_alter [OF assms(1,2)] assms(1,3) show ?thesis by (cases op) auto
qed

lemma rows_within_preserved:
  assumes "apply_schema op s = Inr s'" and "apply_contents now op d = Inr d'" and "wf_schema s" and "rows_within s d"
  shows "rows_within s' d'"
proof -
  have d: "distinct (map tab_name s)" using assms(3) by (simp add: wf_schema_def)
  from assms(1) d show ?thesis
  proof (cases rule: apply_schema_cases)
    case (create t items)
    with assms(2,4) show ?thesis by (auto simp: rows_within_def new_table_def split: if_splits)
  next
    case (drop t)
    have "t' \<notin> tab_name ` set s" if "t' \<notin> tab_name ` set s'" "t' \<noteq> t" for t'
      using that unfolding drop(4) notin_image_iff by auto
    with drop assms(2,4) show ?thesis unfolding rows_within_def by auto
  next
    case (change a x b)
    note c = apply_contents_alter [OF assms(2) change(4)]
    have "row_change now op r k = SNull" if "r \<in> set (d (op_table op))" "k \<notin> set (column_names (alter op x))" for r k
      using that assms(4) change(1,3) by (intro row_change_outside [OF change(4) that(2)]) (auto simp: rows_within_def)
    moreover have "tab_name y \<noteq> op_table op" if "y \<in> set a \<union> set b" for y
      using that change(6,7) unfolding notin_image_iff by blast
    ultimately show ?thesis using assms(4) change(1-3) unfolding c(1) by (auto simp: rows_within_def)
  qed
qed

text \<open>All three for a list of operations.\<close>

lemma run_operations_preserves:
  assumes "run_operations now xs (s, d) = Inr (s', d')" and "wf_schema s"
  shows "wf_schema s'" and "rows_fit s d \<Longrightarrow> rows_fit s' d'" and "rows_within s d \<Longrightarrow> rows_within s' d'"
proof -
  have "wf_schema s' \<and> (rows_fit s d \<longrightarrow> rows_fit s' d') \<and> (rows_within s d \<longrightarrow> rows_within s' d')"
    using assms
  proof (induction xs arbitrary: s d)
    case (Cons x xs)
    then obtain s1 d1 where "apply_schema x s = Inr s1" "apply_contents now x d = Inr d1"
      "run_operations now xs (s1, d1) = Inr (s', d')" by (auto simp: sum_bind_Inr_iff)
    with Cons show ?case using wf_schema_preserved rows_fit_preserved rows_within_preserved by blast
  qed simp
  then show "wf_schema s'" "rows_fit s d \<Longrightarrow> rows_fit s' d'" "rows_within s d \<Longrightarrow> rows_within s' d'" by blast+
qed

end
