(* ===== verification/Orm_Metadata.thy ===== *)
theory Orm_Metadata
  imports Sql_Schema
begin

section \<open>The ORM's table metadata (infrastructure/database/models.py, base.py)\<close>

text \<open>
  The declarative classes as the table definitions SQLAlchemy derives from them: the naming
  convention of \<open>Base.metadata\<close>, the columns of \<open>TimestampMixin\<close>, an index for every
  \<open>index=True\<close>, and one unique index where a column is both unique and indexed. The Python-side
  defaults are no part of the schema.
\<close>

definition plain_column :: "string \<Rightarrow> col_type \<Rightarrow> bool \<Rightarrow> column" where
  "plain_column n t nullable = \<lparr>col_name = n, col_type = t, col_nullable = nullable, col_default = None\<rparr>"

datatype field =
    UuidPk
  | UuidFk string string bool
  | MappedColumn string col_type bool bool bool

definition uuid_pk :: field where
  "uuid_pk = UuidPk"

definition uuid_fk :: "string \<Rightarrow> string \<Rightarrow> bool \<Rightarrow> field" where
  \<comment> \<open>a column that refers to the \<open>id\<close> of a table, indexed\<close>
  "uuid_fk n target nullable = UuidFk n target nullable"

definition mapped_column :: "string \<Rightarrow> col_type \<Rightarrow> bool \<Rightarrow> bool \<Rightarrow> bool \<Rightarrow> field" where
  \<comment> \<open>name, type, nullable, index, unique\<close>
  "mapped_column n t nullable index unique = MappedColumn n t nullable index unique"

definition fk_name :: "string \<Rightarrow> string \<Rightarrow> string \<Rightarrow> string" where
  "fk_name t c target = ''fk_'' @ t @ ''_'' @ c @ ''_'' @ target"

definition pk_name :: "string \<Rightarrow> string" where
  "pk_name t = ''pk_'' @ t"

definition uq_name :: "string \<Rightarrow> string \<Rightarrow> string" where
  "uq_name t c = ''uq_'' @ t @ ''_'' @ c"

definition column_index :: "string \<Rightarrow> string \<Rightarrow> bool \<Rightarrow> index_def" where
  \<comment> \<open>the naming convention \<open>ix_%(column_0_label)s\<close>\<close>
  "column_index t c unique = \<lparr>ix_name = ''ix_'' @ t @ ''_'' @ c, ix_columns = [c], ix_unique = unique\<rparr>"

fun field_columns :: "field \<Rightarrow> column list" where
  "field_columns UuidPk = [plain_column ''id'' (TString 36) False]"
| "field_columns (UuidFk n target nullable) = [plain_column n (TString 36) nullable]"
| "field_columns (MappedColumn n t nullable index unique) = [plain_column n t nullable]"

fun field_constraints :: "string \<Rightarrow> field \<Rightarrow> table_constraint list" where
  "field_constraints t UuidPk = [PrimaryKey (pk_name t) [''id'']]"
| "field_constraints t (UuidFk n target nullable) = [ForeignKey (fk_name t n target) n target None]"
| "field_constraints t (MappedColumn n ty nullable index unique) =
     (if unique \<and> \<not> index then [UniqueKey (uq_name t n) [n]] else [])"

fun field_indexes :: "string \<Rightarrow> field \<Rightarrow> index_def list" where
  "field_indexes t UuidPk = []"
| "field_indexes t (UuidFk n target nullable) = [column_index t n False]"
| "field_indexes t (MappedColumn n ty nullable index unique) = (if index then [column_index t n unique] else [])"

datatype table_arg =
    ArgUnique string "string list"
  | ArgIndex string "string list"
  | ArgCheck string condition

fun arg_constraints :: "string \<Rightarrow> table_arg \<Rightarrow> table_constraint list" where
  "arg_constraints t (ArgUnique n cs) = [UniqueKey n cs]"
| "arg_constraints t (ArgIndex n cs) = []"
| "arg_constraints t (ArgCheck n c) = [CheckRow (check_name t n) c]"

fun arg_indexes :: "table_arg \<Rightarrow> index_def list" where
  "arg_indexes (ArgIndex n cs) = [\<lparr>ix_name = n, ix_columns = cs, ix_unique = False\<rparr>]"
| "arg_indexes _ = []"

definition timestamp_mixin :: "column list" where
  "timestamp_mixin = [plain_column ''created_at'' TTimestamp False, plain_column ''updated_at'' TTimestamp False]"

definition declarative :: "string \<Rightarrow> field list \<Rightarrow> table_arg list \<Rightarrow> table_def" where
  "declarative t fs args =
     \<lparr>tab_name = t, tab_columns = concat (map field_columns fs) @ timestamp_mixin,
      tab_constraints = concat (map (field_constraints t) fs) @ concat (map (arg_constraints t) args),
      tab_indexes = concat (map (field_indexes t) fs) @ concat (map arg_indexes args)\<rparr>"

definition association :: "string \<Rightarrow> (string \<times> string) list \<Rightarrow> table_def" where
  \<comment> \<open>a core table of cascading references that together are its key\<close>
  "association t refs =
     \<lparr>tab_name = t, tab_columns = map (\<lambda>(c, target). plain_column c (TString 36) False) refs,
      tab_constraints = map (\<lambda>(c, target). ForeignKey (fk_name t c target) c target (Some ''CASCADE'')) refs
        @ [PrimaryKey (pk_name t) (map fst refs)],
      tab_indexes = []\<rparr>"

subsection \<open>The tables\<close>

definition user_roles_table :: table_def where
  "user_roles_table = association ''user_roles'' [(''user_id'', ''users''), (''role_id'', ''roles'')]"

definition role_permissions_table :: table_def where
  "role_permissions_table = association ''role_permissions'' [(''role_id'', ''roles''), (''permission_id'', ''permissions'')]"

definition user_model :: table_def where
  "user_model = declarative ''users''
     [uuid_pk, mapped_column ''status'' (TString 32) False True False]
     [ArgCheck ''user_status_valid'' (IsIn ''status'' [''active'', ''banned'', ''disabled''])]"

definition telegram_identity_model :: table_def where
  "telegram_identity_model = declarative ''telegram_identities''
     [uuid_pk, uuid_fk ''user_id'' ''users'' False,
      mapped_column ''telegram_user_id'' TBigInteger False True True,
      mapped_column ''username'' (TString 255) True False False,
      mapped_column ''first_name'' (TString 255) True False False,
      mapped_column ''last_name'' (TString 255) True False False]
     [ArgUnique ''uq_telegram_identities_user_id'' [''user_id'']]"

definition role_model :: table_def where
  "role_model = declarative ''roles''
     [uuid_pk, mapped_column ''name'' (TString 128) False False True,
      mapped_column ''description'' TText True False False]
     []"

definition permission_model :: table_def where
  "permission_model = declarative ''permissions''
     [uuid_pk, mapped_column ''namespace'' (TString 128) False False False,
      mapped_column ''action'' (TString 128) False False False]
     [ArgUnique ''uq_permissions_namespace_action'' [''namespace'', ''action'']]"

definition conversation_model :: table_def where
  "conversation_model = declarative ''conversations''
     [uuid_pk, uuid_fk ''owner_id'' ''users'' False,
      mapped_column ''status'' (TString 32) False True False,
      mapped_column ''title'' (TString 255) True False False,
      mapped_column ''meta'' TJson False False False]
     [ArgIndex ''ix_conversations_owner_status'' [''owner_id'', ''status''],
      ArgCheck ''conversation_status_valid'' (IsIn ''status'' [''active'', ''archived'', ''deleted''])]"

definition message_model :: table_def where
  "message_model = declarative ''messages''
     [uuid_pk, uuid_fk ''conversation_id'' ''conversations'' False,
      mapped_column ''role'' (TString 32) False True False,
      mapped_column ''content'' TText False False False,
      mapped_column ''meta'' TJson False False False]
     [ArgIndex ''ix_messages_conversation_created'' [''conversation_id'', ''created_at''],
      ArgCheck ''message_role_valid'' (IsIn ''role'' [''system'', ''user'', ''assistant'', ''tool'']),
      ArgCheck ''message_content_not_empty'' (Differs ''content'' [])]"

definition agent_run_model :: table_def where
  "agent_run_model = declarative ''agent_runs''
     [uuid_pk, uuid_fk ''user_id'' ''users'' False,
      uuid_fk ''conversation_id'' ''conversations'' False,
      mapped_column ''status'' (TString 32) False True False,
      mapped_column ''provider'' (TString 128) False False False,
      mapped_column ''model'' (TString 128) False False False,
      mapped_column ''started_at'' TTimestamp True False False,
      mapped_column ''finished_at'' TTimestamp True False False,
      mapped_column ''failure_reason'' TText True False False,
      mapped_column ''final_response'' TText True False False,
      mapped_column ''usage_metadata'' TJson False False False,
      mapped_column ''max_steps'' TInteger False False False,
      mapped_column ''max_tool_calls'' TInteger False False False,
      mapped_column ''max_retries'' TInteger False False False,
      mapped_column ''max_execution_seconds'' TInteger False False False,
      mapped_column ''max_context_tokens'' TInteger False False False]
     [ArgCheck ''agent_run_status_valid'' (IsIn ''status'' [''pending'', ''running'', ''succeeded'', ''failed'', ''cancelled'']),
      ArgCheck ''agent_run_limits_positive'' (And (And (And (And (Greater ''max_steps'' 0) (Greater ''max_tool_calls'' 0)) (Greater ''max_retries'' 0))
        (Greater ''max_execution_seconds'' 0)) (Greater ''max_context_tokens'' 0)),
      ArgCheck ''agent_run_terminal_state_recorded'' (And (And (Or (Neg (IsIn ''status'' [''succeeded'', ''failed'', ''cancelled''])) (IsNotNull ''finished_at''))
        (Or (Differs ''status'' ''succeeded'') (IsNotNull ''final_response'')))
        (Or (Differs ''status'' ''failed'') (IsNotNull ''failure_reason'')))]"

definition agent_step_model :: table_def where
  "agent_step_model = declarative ''agent_steps''
     [uuid_pk, uuid_fk ''run_id'' ''agent_runs'' False,
      mapped_column ''index'' TInteger False False False,
      mapped_column ''type'' (TString 64) False False False,
      mapped_column ''meta'' TJson False False False]
     [ArgUnique ''uq_agent_steps_run_index'' [''run_id'', ''index''],
      ArgIndex ''ix_agent_steps_run_type'' [''run_id'', ''type''],
      ArgCheck ''agent_step_index_positive'' (AtLeast ''index'' 1)]"

definition tool_model :: table_def where
  "tool_model = declarative ''tools''
     [uuid_pk, mapped_column ''name'' (TString 128) False False False,
      mapped_column ''version'' (TString 64) False False False,
      mapped_column ''enabled'' TBoolean False False False,
      mapped_column ''sensitivity'' (TString 32) False False False]
     [ArgUnique ''uq_tools_name_version'' [''name'', ''version'']]"

definition tool_execution_model :: table_def where
  "tool_execution_model = declarative ''tool_executions''
     [uuid_pk, uuid_fk ''run_id'' ''agent_runs'' False, uuid_fk ''tool_id'' ''tools'' True,
      mapped_column ''name'' (TString 128) False False False,
      mapped_column ''status'' (TString 32) False True False,
      mapped_column ''input'' TJson False False False,
      mapped_column ''output'' TJson True False False,
      mapped_column ''failure_reason'' TText True False False]
     []"

definition memory_model :: table_def where
  "memory_model = declarative ''memories''
     [uuid_pk, uuid_fk ''owner_id'' ''users'' False,
      mapped_column ''type'' (TString 64) False False False,
      mapped_column ''status'' (TString 32) False True False]
     [ArgIndex ''ix_memories_owner_type'' [''owner_id'', ''type'']]"

definition memory_item_model :: table_def where
  "memory_item_model = declarative ''memory_items''
     [uuid_pk, uuid_fk ''memory_id'' ''memories'' False,
      mapped_column ''content'' TText False False False,
      mapped_column ''importance'' TInteger False False False,
      mapped_column ''meta'' TJson False False False]
     []"

definition file_model :: table_def where
  "file_model = declarative ''files''
     [uuid_pk, uuid_fk ''owner_id'' ''users'' False,
      mapped_column ''filename'' (TString 512) False False False,
      mapped_column ''mime_type'' (TString 255) False False False,
      mapped_column ''size_bytes'' TBigInteger False False False,
      mapped_column ''checksum_sha256'' (TString 64) False False False,
      mapped_column ''storage_key'' (TString 1024) False False True,
      mapped_column ''processing_status'' (TString 32) False True False]
     [ArgIndex ''ix_files_owner_status'' [''owner_id'', ''processing_status'']]"

definition file_chunk_model :: table_def where
  "file_chunk_model = declarative ''file_chunks''
     [uuid_pk, uuid_fk ''file_id'' ''files'' False,
      mapped_column ''index'' TInteger False False False,
      mapped_column ''content'' TText False False False,
      mapped_column ''meta'' TJson False False False]
     [ArgUnique ''uq_file_chunks_file_index'' [''file_id'', ''index'']]"

definition usage_record_model :: table_def where
  "usage_record_model = declarative ''usage_records''
     [uuid_pk, uuid_fk ''user_id'' ''users'' False,
      mapped_column ''dimension'' (TString 64) False False False,
      mapped_column ''amount'' TInteger False False False,
      mapped_column ''period'' (TString 32) False False False,
      mapped_column ''meta'' TJson False False False]
     [ArgIndex ''ix_usage_records_user_dimension_period'' [''user_id'', ''dimension'', ''period'']]"

definition subscription_model :: table_def where
  "subscription_model = declarative ''subscriptions''
     [uuid_pk, uuid_fk ''user_id'' ''users'' False,
      mapped_column ''plan'' (TString 64) False False False,
      mapped_column ''status'' (TString 32) False True False,
      mapped_column ''valid_until'' TTimestamp True False False]
     []"

definition task_model :: table_def where
  "task_model = declarative ''tasks''
     [uuid_pk, mapped_column ''type'' (TString 128) False True False,
      mapped_column ''state'' (TString 32) False True False,
      mapped_column ''payload'' TJson False False False,
      mapped_column ''attempts'' TInteger False False False,
      mapped_column ''max_attempts'' TInteger False False False,
      mapped_column ''idempotency_key'' (TString 255) True False False,
      mapped_column ''last_error'' TText True False False]
     [ArgUnique ''uq_tasks_type_idempotency_key'' [''type'', ''idempotency_key'']]"

definition task_attempt_model :: table_def where
  "task_attempt_model = declarative ''task_attempts''
     [uuid_pk, uuid_fk ''task_id'' ''tasks'' False,
      mapped_column ''attempt_number'' TInteger False False False,
      mapped_column ''status'' (TString 32) False False False,
      mapped_column ''error'' TText True False False]
     [ArgUnique ''uq_task_attempts_task_attempt'' [''task_id'', ''attempt_number'']]"

definition idempotency_record_model :: table_def where
  "idempotency_record_model = declarative ''idempotency_records''
     [uuid_pk, mapped_column ''namespace'' (TString 128) False False False,
      mapped_column ''key'' (TString 255) False False False,
      mapped_column ''state'' (TString 32) False True False,
      mapped_column ''result'' TJson False False False,
      mapped_column ''claimed_at'' TTimestamp False False False,
      mapped_column ''claim_token'' (TString 36) False False False]
     [ArgUnique ''uq_idempotency_namespace_key'' [''namespace'', ''key''],
      ArgIndex ''ix_idempotency_records_state_claimed_at'' [''state'', ''claimed_at''],
      ArgCheck ''idempotency_state_valid'' (IsIn ''state'' [''started'', ''completed'', ''failed''])]"

definition audit_log_model :: table_def where
  "audit_log_model = declarative ''audit_logs''
     [uuid_pk, uuid_fk ''actor_user_id'' ''users'' True,
      mapped_column ''action'' (TString 128) False True False,
      mapped_column ''target_type'' (TString 128) True False False,
      mapped_column ''target_id'' (TString 128) True False False,
      mapped_column ''outcome'' (TString 32) False False False,
      mapped_column ''meta'' TJson False False False]
     []"

definition orm_metadata :: schema where
  "orm_metadata = [user_roles_table, role_permissions_table,
     user_model, telegram_identity_model, role_model, permission_model,
     conversation_model, message_model, agent_run_model, agent_step_model,
     tool_model, tool_execution_model, memory_model, memory_item_model,
     file_model, file_chunk_model, usage_record_model, subscription_model,
     task_model, task_attempt_model, idempotency_record_model, audit_log_model]"

end
