(* ===== verification/Migrations.thy ===== *)
theory Migrations
  imports Orm_Metadata
begin

section \<open>The migrations (migrations/versions)\<close>

text \<open>
  The five revisions as lists of operations, in the order their \<open>upgrade\<close> and \<open>downgrade\<close> functions
  call them, and the walk along \<open>down_revision\<close> that leads from a revision to the head. A walk is
  one transaction: what fails changes nothing.
\<close>

subsection \<open>20260824_0001: the foundation schema\<close>

definition pk :: item where
  "pk = ItemKey (plain_column ''id'' (TString 36) False)"

definition fk :: "string \<Rightarrow> string \<Rightarrow> string \<Rightarrow> bool \<Rightarrow> string option \<Rightarrow> item" where
  \<comment> \<open>the table \<open>target\<close> refers to, by its \<open>id\<close>\<close>
  "fk t n target nullable ondelete =
     ItemReference (plain_column n (TString 36) nullable)
       (ForeignKey (''fk_'' @ t @ ''_'' @ n @ ''_'' @ target) n target ondelete)"

definition col :: "string \<Rightarrow> col_type \<Rightarrow> bool \<Rightarrow> item" where
  "col n t nullable = ItemColumn (plain_column n t nullable)"

definition timestamps :: "item list" where
  "timestamps = [col ''created_at'' TTimestamp False, col ''updated_at'' TTimestamp False]"

definition create_identity_tables :: "operation list" where
  "create_identity_tables = [
     CreateTable ''users'' ([pk, col ''status'' (TString 32) False] @ timestamps),
     CreateIndex ''ix_users_status'' ''users'' [''status''] False,
     CreateTable ''roles'' ([pk, col ''name'' (TString 128) False, col ''description'' TText True] @
        timestamps @ [ItemUnique ''uq_roles_name'' [''name'']]),
     CreateTable ''permissions'' ([pk, col ''namespace'' (TString 128) False,
        col ''action'' (TString 128) False] @ timestamps @
        [ItemUnique ''uq_permissions_namespace_action'' [''namespace'', ''action'']]),
     CreateTable ''user_roles'' ([fk ''user_roles'' ''user_id'' ''users'' False (Some ''CASCADE''),
        fk ''user_roles'' ''role_id'' ''roles'' False (Some ''CASCADE''),
        ItemPrimaryKey ''pk_user_roles'' [''user_id'', ''role_id'']]),
     CreateTable ''role_permissions''
        ([fk ''role_permissions'' ''role_id'' ''roles'' False (Some ''CASCADE''),
        fk ''role_permissions'' ''permission_id'' ''permissions'' False (Some ''CASCADE''),
        ItemPrimaryKey ''pk_role_permissions'' [''role_id'', ''permission_id'']]),
     CreateTable ''telegram_identities'' ([pk,
        fk ''telegram_identities'' ''user_id'' ''users'' False None,
        col ''telegram_user_id'' TBigInteger False, col ''username'' (TString 255) True,
        col ''first_name'' (TString 255) True, col ''last_name'' (TString 255) True] @ timestamps @
        [ItemUnique ''uq_telegram_identities_user_id'' [''user_id'']]),
     CreateIndex ''ix_telegram_identities_user_id'' ''telegram_identities'' [''user_id''] False,
     CreateIndex ''ix_telegram_identities_telegram_user_id'' ''telegram_identities''
        [''telegram_user_id''] True]"

definition create_conversation_tables :: "operation list" where
  "create_conversation_tables = [
     CreateTable ''conversations'' ([pk, fk ''conversations'' ''owner_id'' ''users'' False None,
        col ''status'' (TString 32) False, col ''title'' (TString 255) True,
        col ''meta'' TJson False] @ timestamps),
     CreateIndex ''ix_conversations_owner_id'' ''conversations'' [''owner_id''] False,
     CreateIndex ''ix_conversations_status'' ''conversations'' [''status''] False,
     CreateIndex ''ix_conversations_owner_status'' ''conversations'' [''owner_id'', ''status''] False,
     CreateTable ''messages'' ([pk, fk ''messages'' ''conversation_id'' ''conversations'' False None,
        col ''role'' (TString 32) False, col ''content'' TText False, col ''meta'' TJson False] @
        timestamps),
     CreateIndex ''ix_messages_conversation_id'' ''messages'' [''conversation_id''] False,
     CreateIndex ''ix_messages_role'' ''messages'' [''role''] False,
     CreateIndex ''ix_messages_conversation_created'' ''messages'' [''conversation_id'', ''created_at'']
        False,
     CreateTable ''agent_runs'' ([pk, fk ''agent_runs'' ''user_id'' ''users'' False None,
        fk ''agent_runs'' ''conversation_id'' ''conversations'' False None,
        col ''status'' (TString 32) False, col ''provider'' (TString 128) False,
        col ''model'' (TString 128) False, col ''started_at'' TTimestamp True,
        col ''finished_at'' TTimestamp True, col ''failure_reason'' TText True,
        col ''usage_metadata'' TJson False] @ timestamps),
     CreateIndex ''ix_agent_runs_user_id'' ''agent_runs'' [''user_id''] False,
     CreateIndex ''ix_agent_runs_conversation_id'' ''agent_runs'' [''conversation_id''] False,
     CreateIndex ''ix_agent_runs_status'' ''agent_runs'' [''status''] False,
     CreateTable ''agent_steps'' ([pk, fk ''agent_steps'' ''run_id'' ''agent_runs'' False None,
        col ''index'' TInteger False, col ''type'' (TString 64) False, col ''meta'' TJson False] @
        timestamps @ [ItemUnique ''uq_agent_steps_run_index'' [''run_id'', ''index'']]),
     CreateIndex ''ix_agent_steps_run_id'' ''agent_steps'' [''run_id''] False,
     CreateIndex ''ix_agent_steps_run_type'' ''agent_steps'' [''run_id'', ''type''] False]"

definition create_tool_and_memory_tables :: "operation list" where
  "create_tool_and_memory_tables = [
     CreateTable ''tools'' ([pk, col ''name'' (TString 128) False, col ''version'' (TString 64) False,
        col ''enabled'' TBoolean False, col ''sensitivity'' (TString 32) False] @ timestamps @
        [ItemUnique ''uq_tools_name_version'' [''name'', ''version'']]),
     CreateTable ''tool_executions'' ([pk, fk ''tool_executions'' ''run_id'' ''agent_runs'' False None,
        fk ''tool_executions'' ''tool_id'' ''tools'' True None, col ''name'' (TString 128) False,
        col ''status'' (TString 32) False, col ''input'' TJson False, col ''output'' TJson True,
        col ''failure_reason'' TText True] @ timestamps),
     CreateIndex ''ix_tool_executions_run_id'' ''tool_executions'' [''run_id''] False,
     CreateIndex ''ix_tool_executions_tool_id'' ''tool_executions'' [''tool_id''] False,
     CreateIndex ''ix_tool_executions_status'' ''tool_executions'' [''status''] False,
     CreateTable ''memories'' ([pk, fk ''memories'' ''owner_id'' ''users'' False None,
        col ''type'' (TString 64) False, col ''status'' (TString 32) False] @ timestamps),
     CreateIndex ''ix_memories_owner_id'' ''memories'' [''owner_id''] False,
     CreateIndex ''ix_memories_status'' ''memories'' [''status''] False,
     CreateIndex ''ix_memories_owner_type'' ''memories'' [''owner_id'', ''type''] False,
     CreateTable ''memory_items'' ([pk, fk ''memory_items'' ''memory_id'' ''memories'' False None,
        col ''content'' TText False, col ''importance'' TInteger False, col ''meta'' TJson False] @
        timestamps),
     CreateIndex ''ix_memory_items_memory_id'' ''memory_items'' [''memory_id''] False]"

definition create_file_and_usage_tables :: "operation list" where
  "create_file_and_usage_tables = [
     CreateTable ''files'' ([pk, fk ''files'' ''owner_id'' ''users'' False None,
        col ''filename'' (TString 512) False, col ''mime_type'' (TString 255) False,
        col ''size_bytes'' TBigInteger False, col ''checksum_sha256'' (TString 64) False,
        col ''storage_key'' (TString 1024) False, col ''processing_status'' (TString 32) False] @
        timestamps @ [ItemUnique ''uq_files_storage_key'' [''storage_key'']]),
     CreateIndex ''ix_files_owner_id'' ''files'' [''owner_id''] False,
     CreateIndex ''ix_files_processing_status'' ''files'' [''processing_status''] False,
     CreateIndex ''ix_files_owner_status'' ''files'' [''owner_id'', ''processing_status''] False,
     CreateTable ''file_chunks'' ([pk, fk ''file_chunks'' ''file_id'' ''files'' False None,
        col ''index'' TInteger False, col ''content'' TText False, col ''meta'' TJson False] @
        timestamps @ [ItemUnique ''uq_file_chunks_file_index'' [''file_id'', ''index'']]),
     CreateIndex ''ix_file_chunks_file_id'' ''file_chunks'' [''file_id''] False,
     CreateTable ''usage_records'' ([pk, fk ''usage_records'' ''user_id'' ''users'' False None,
        col ''dimension'' (TString 64) False, col ''amount'' TInteger False,
        col ''period'' (TString 32) False, col ''meta'' TJson False] @ timestamps),
     CreateIndex ''ix_usage_records_user_id'' ''usage_records'' [''user_id''] False,
     CreateIndex ''ix_usage_records_user_dimension_period'' ''usage_records'' [''user_id'',
        ''dimension'', ''period''] False,
     CreateTable ''subscriptions'' ([pk, fk ''subscriptions'' ''user_id'' ''users'' False None,
        col ''plan'' (TString 64) False, col ''status'' (TString 32) False,
        col ''valid_until'' TTimestamp True] @ timestamps),
     CreateIndex ''ix_subscriptions_user_id'' ''subscriptions'' [''user_id''] False,
     CreateIndex ''ix_subscriptions_status'' ''subscriptions'' [''status''] False]"

definition create_task_and_record_tables :: "operation list" where
  "create_task_and_record_tables = [
     CreateTable ''tasks'' ([pk, col ''type'' (TString 128) False, col ''state'' (TString 32) False,
        col ''payload'' TJson False, col ''attempts'' TInteger False,
        col ''max_attempts'' TInteger False, col ''idempotency_key'' (TString 255) True,
        col ''last_error'' TText True] @ timestamps @
        [ItemUnique ''uq_tasks_type_idempotency_key'' [''type'', ''idempotency_key'']]),
     CreateIndex ''ix_tasks_type'' ''tasks'' [''type''] False,
     CreateIndex ''ix_tasks_state'' ''tasks'' [''state''] False,
     CreateTable ''task_attempts'' ([pk, fk ''task_attempts'' ''task_id'' ''tasks'' False None,
        col ''attempt_number'' TInteger False, col ''status'' (TString 32) False,
        col ''error'' TText True] @ timestamps @
        [ItemUnique ''uq_task_attempts_task_attempt'' [''task_id'', ''attempt_number'']]),
     CreateIndex ''ix_task_attempts_task_id'' ''task_attempts'' [''task_id''] False,
     CreateTable ''idempotency_records'' ([pk, col ''namespace'' (TString 128) False,
        col ''key'' (TString 255) False, col ''state'' (TString 32) False,
        col ''result'' TJson False] @ timestamps @
        [ItemUnique ''uq_idempotency_namespace_key'' [''namespace'', ''key'']]),
     CreateIndex ''ix_idempotency_records_state'' ''idempotency_records'' [''state''] False,
     CreateTable ''audit_logs'' ([pk, fk ''audit_logs'' ''actor_user_id'' ''users'' True None,
        col ''action'' (TString 128) False, col ''target_type'' (TString 128) True,
        col ''target_id'' (TString 128) True, col ''outcome'' (TString 32) False,
        col ''meta'' TJson False] @ timestamps),
     CreateIndex ''ix_audit_logs_actor_user_id'' ''audit_logs'' [''actor_user_id''] False,
     CreateIndex ''ix_audit_logs_action'' ''audit_logs'' [''action''] False]"

definition upgrade_0001 :: "operation list" where
  "upgrade_0001 = create_identity_tables @ create_conversation_tables @ create_tool_and_memory_tables
     @ create_file_and_usage_tables @ create_task_and_record_tables"

definition downgrade_0001 :: "operation list" where
  "downgrade_0001 = map DropTable
     [''audit_logs'', ''idempotency_records'', ''task_attempts'', ''tasks'', ''subscriptions'', ''usage_records'',
      ''file_chunks'', ''files'', ''memory_items'', ''memories'', ''tool_executions'', ''tools'', ''agent_steps'',
      ''agent_runs'', ''messages'', ''conversations'', ''telegram_identities'', ''role_permissions'', ''user_roles'',
      ''permissions'', ''roles'', ''users'']"

subsection \<open>20260908_0002: agent run limits\<close>

definition limit_column :: "string \<Rightarrow> int \<Rightarrow> column" where
  "limit_column n d = (plain_column n TInteger False)\<lparr>col_default := Some (DefaultValue (SInt d))\<rparr>"

definition upgrade_0002 :: "operation list" where
  "upgrade_0002 =
     [AddColumn ''agent_runs'' (limit_column ''max_steps'' 12),
      AddColumn ''agent_runs'' (limit_column ''max_tool_calls'' 6),
      AddColumn ''agent_runs'' (limit_column ''max_retries'' 2),
      AddColumn ''agent_runs'' (limit_column ''max_execution_seconds'' 60),
      AddColumn ''agent_runs'' (limit_column ''max_context_tokens'' 12000),
      AddColumn ''agent_runs'' (plain_column ''final_response'' TText True)]
     @ map (DropDefault ''agent_runs'')
       [''max_steps'', ''max_tool_calls'', ''max_retries'', ''max_execution_seconds'', ''max_context_tokens'']"

definition downgrade_0002 :: "operation list" where
  "downgrade_0002 = map (DropColumn ''agent_runs'')
     [''final_response'', ''max_context_tokens'', ''max_execution_seconds'', ''max_retries'', ''max_tool_calls'',
      ''max_steps'']"

subsection \<open>20260917_0003: claim expiry\<close>

definition upgrade_0003 :: "operation list" where
  "upgrade_0003 =
     [AddColumn ''idempotency_records'' ((plain_column ''claimed_at'' TTimestamp False)\<lparr>col_default := Some DefaultNow\<rparr>),
      DropDefault ''idempotency_records'' ''claimed_at'',
      CreateIndex ''ix_idempotency_records_state_claimed_at'' ''idempotency_records'' [''state'', ''claimed_at''] False]"

definition downgrade_0003 :: "operation list" where
  "downgrade_0003 =
     [DropIndex ''ix_idempotency_records_state_claimed_at'' ''idempotency_records'',
      DropColumn ''idempotency_records'' ''claimed_at'']"

subsection \<open>20260924_0004: claim token\<close>

definition upgrade_0004 :: "operation list" where
  "upgrade_0004 =
     [AddColumn ''idempotency_records'' (plain_column ''claim_token'' (TString 36) True),
      CopyColumn ''idempotency_records'' ''claim_token'' ''id'',
      SetNotNull ''idempotency_records'' ''claim_token'',
      CreateCheck ''idempotency_records'' ''idempotency_state_valid''
        (IsIn ''state'' [''started'', ''completed'', ''failed''])]"

definition downgrade_0004 :: "operation list" where
  "downgrade_0004 =
     [DropCheck ''idempotency_records'' ''idempotency_state_valid'',
      DropColumn ''idempotency_records'' ''claim_token'']"

subsection \<open>20260924_0005: domain check constraints\<close>

definition domain_checks :: "(string \<times> string \<times> condition) list" where
  "domain_checks =
     [(''users'', ''user_status_valid'',
        IsIn ''status'' [''active'', ''banned'', ''disabled'']),
      (''conversations'', ''conversation_status_valid'',
        IsIn ''status'' [''active'', ''archived'', ''deleted'']),
      (''messages'', ''message_role_valid'',
        IsIn ''role'' [''system'', ''user'', ''assistant'', ''tool'']),
      (''messages'', ''message_content_not_empty'',
        Differs ''content'' []),
      (''agent_runs'', ''agent_run_status_valid'',
        IsIn ''status'' [''pending'', ''running'', ''succeeded'', ''failed'', ''cancelled'']),
      (''agent_runs'', ''agent_run_limits_positive'',
        And (And (And (And (Greater ''max_steps'' 0) (Greater ''max_tool_calls'' 0)) (Greater ''max_retries'' 0))
        (Greater ''max_execution_seconds'' 0)) (Greater ''max_context_tokens'' 0)),
      (''agent_runs'', ''agent_run_terminal_state_recorded'',
        And (And (Or (Neg (IsIn ''status'' [''succeeded'', ''failed'', ''cancelled''])) (IsNotNull ''finished_at''))
        (Or (Differs ''status'' ''succeeded'') (IsNotNull ''final_response'')))
        (Or (Differs ''status'' ''failed'') (IsNotNull ''failure_reason''))),
      (''agent_steps'', ''agent_step_index_positive'',
        AtLeast ''index'' 1)]"

definition upgrade_0005 :: "operation list" where
  "upgrade_0005 = map (\<lambda>(t, n, c). CreateCheck t n c) domain_checks"

definition downgrade_0005 :: "operation list" where
  "downgrade_0005 = map (\<lambda>(t, n, c). DropCheck t n) (rev domain_checks)"

subsection \<open>The chain\<close>

record revision =
  rev_id :: string
  rev_down :: "string option"
  rev_upgrade :: "operation list"
  rev_downgrade :: "operation list"

definition revision_0001 :: revision where
  "revision_0001 = \<lparr>rev_id = ''20260824_0001'', rev_down = None, rev_upgrade = upgrade_0001,
     rev_downgrade = downgrade_0001\<rparr>"

definition revision_0002 :: revision where
  "revision_0002 = \<lparr>rev_id = ''20260908_0002'', rev_down = Some ''20260824_0001'', rev_upgrade = upgrade_0002,
     rev_downgrade = downgrade_0002\<rparr>"

definition revision_0003 :: revision where
  "revision_0003 = \<lparr>rev_id = ''20260917_0003'', rev_down = Some ''20260908_0002'', rev_upgrade = upgrade_0003,
     rev_downgrade = downgrade_0003\<rparr>"

definition revision_0004 :: revision where
  "revision_0004 = \<lparr>rev_id = ''20260924_0004'', rev_down = Some ''20260917_0003'', rev_upgrade = upgrade_0004,
     rev_downgrade = downgrade_0004\<rparr>"

definition revision_0005 :: revision where
  "revision_0005 = \<lparr>rev_id = ''20260924_0005'', rev_down = Some ''20260924_0004'', rev_upgrade = upgrade_0005,
     rev_downgrade = downgrade_0005\<rparr>"

definition revisions :: "revision list" where
  \<comment> \<open>the files of migrations/versions\<close>
  "revisions = [revision_0001, revision_0002, revision_0003, revision_0004, revision_0005]"

lemmas chain_defs = revisions_def revision_0001_def revision_0002_def revision_0003_def revision_0004_def
  revision_0005_def

fun upgrade_path :: "nat \<Rightarrow> string option \<Rightarrow> revision list" where
  \<comment> \<open>the revisions after a revision; as much fuel as there are revisions is enough for a chain\<close>
  "upgrade_path 0 cur = []"
| "upgrade_path (Suc n) cur =
     (case find (\<lambda>r. rev_down r = cur) revisions of
        None \<Rightarrow> []
      | Some r \<Rightarrow> r # upgrade_path n (Some (rev_id r)))"

definition upgrade_head :: "int \<Rightarrow> string option \<Rightarrow> schema \<times> contents \<Rightarrow> exn + schema \<times> contents" where
  "upgrade_head now cur st =
     run_operations now (concat (map rev_upgrade (upgrade_path (length revisions) cur))) st"

end
