(* ===== verification/Schema_Build.thy ===== *)
theory Schema_Build
  imports Schema_Laws Migrations
begin

section \<open>Running lists of operations table by table\<close>

text \<open>
  A list of operations that creates tables, each followed by its indexes, builds exactly those tables when names
  and references fit; a list that only alters tables acts on every table by itself; a list of drops
  removes what it names. So a schema of many tables is computed one table at a time.
\<close>

subsection \<open>Creating tables\<close>

type_synonym block = "string \<times> item list \<times> (string \<times> string list \<times> bool) list"

fun add_to_blocks :: "operation \<Rightarrow> (string \<times> string list \<times> bool) list \<times> block list \<Rightarrow>
    (string \<times> string list \<times> bool) list \<times> block list" where
  "add_to_blocks (CreateTable t items) (ixs, bs) = ([], (t, items, ixs) # bs)"
| "add_to_blocks (CreateIndex n t cs u) (ixs, bs) = ((n, cs, u) # ixs, bs)"
| "add_to_blocks _ acc = acc"

definition blocks_of :: "operation list \<Rightarrow> block list" where
  \<comment> \<open>every table with the indexes that follow it\<close>
  "blocks_of xs = snd (foldr add_to_blocks xs ([], []))"

definition block_ops :: "block \<Rightarrow> operation list" where
  "block_ops b = (case b of (t, items, ixs) \<Rightarrow> CreateTable t items # map (\<lambda>(n, cs, u). CreateIndex n t cs u) ixs)"

definition built :: "block \<Rightarrow> table_def" where
  "built b = (case b of (t, items, ixs) \<Rightarrow>
     (new_table t items)\<lparr>tab_indexes := map (\<lambda>(n, cs, u). \<lparr>ix_name = n, ix_columns = cs, ix_unique = u\<rparr>) ixs\<rparr>)"

lemma tab_name_built [simp]: "tab_name (built b) = fst b"
  by (simp add: built_def new_table_def split: prod.splits)

definition block_form :: "operation list \<Rightarrow> bool" where
  "block_form xs = (concat (map block_ops (blocks_of xs)) = xs)"

definition block_ok :: "block \<Rightarrow> bool" where
  \<comment> \<open>the table is consistent in itself\<close>
  "block_ok b = (case b of (t, items, ixs) \<Rightarrow> table_ok (new_table t items) \<and>
     list_all (\<lambda>(n, cs, u). list_all (\<lambda>c. has_column c (new_table t items)) cs) ixs)"

definition block_targets :: "block \<Rightarrow> string list" where
  "block_targets b = concat (map (\<lambda>k. case target k of None \<Rightarrow> [] | Some t \<Rightarrow> [t]) (tab_constraints (built b)))"

definition block_indexes :: "block \<Rightarrow> string list" where
  "block_indexes b = map fst (snd (snd b))"

fun names_ok :: "string list \<Rightarrow> (string \<times> string list) list \<Rightarrow> bool" where
  \<comment> \<open>every table is new and refers to itself and the tables before it\<close>
  "names_ok seen [] = True"
| "names_ok seen ((t, rs) # bs) = (if t \<in> set seen then False
     else list_all (\<lambda>r. r \<in> set (t # seen)) rs \<and> names_ok (t # seen) bs)"

lemma on_last_table:
  assumes "t \<notin> tab_name ` set s" and "tab_name x = t"
  shows "on_table t ok f (s @ [x]) = (if ok x then Inr (s @ [f x]) else Inl (ddl_error t))"
proof -
  have "map (\<lambda>y. if tab_name y = t then f y else y) s = s"
    using assms(1) unfolding notin_image_iff by (auto intro!: map_idI)
  moreover have "\<not> list_ex (\<lambda>y. if tab_name y = t then ok y else False) s"
    using assms(1) unfolding notin_image_iff by (auto simp: list_ex_iff)
  ultimately show ?thesis using assms(2) by (simp add: on_table_def)
qed

definition schema_indexes :: "schema \<Rightarrow> string set" where
  "schema_indexes s = (\<Union>x \<in> set s. set (index_names x))"

lemma schema_indexes_simps [simp]:
  "schema_indexes [] = {}" "schema_indexes (s @ s') = schema_indexes s \<union> schema_indexes s'"
  "schema_indexes (x # s) = set (index_names x) \<union> schema_indexes s"
  by (auto simp: schema_indexes_def)

lemma apply_index:
  "apply_schema (CreateIndex n t cs u) s =
     (if n \<in> schema_indexes s then Inl (ddl_error t) else on_table t (alter_ok (CreateIndex n t cs u)) (alter (CreateIndex n t cs u)) s)"
  by (auto simp: apply_schema_def schema_indexes_def index_names_def list_ex_iff)

lemma run_indexes:
  assumes "t \<notin> tab_name ` set s" and "tab_name x = t"
  shows "run_schema (map (\<lambda>(n, cs, u). CreateIndex n t cs u) ixs) (s @ [x]) = Inr s' \<longleftrightarrow>
    distinct (map fst ixs) \<and> set (map fst ixs) \<inter> schema_indexes (s @ [x]) = {} \<and>
    list_all (\<lambda>(n, cs, u). list_all (\<lambda>c. has_column c x) cs) ixs \<and>
    s' = s @ [x\<lparr>tab_indexes := tab_indexes x @ map (\<lambda>(n, cs, u). \<lparr>ix_name = n, ix_columns = cs, ix_unique = u\<rparr>) ixs\<rparr>]"
  using assms(2)
proof (induction ixs arbitrary: x)
  case (Cons i ixs)
  obtain n cs u where i: "i = (n, cs, u)" by (cases i)
  define y where "y = alter (CreateIndex n t cs u) x"
  have y: "tab_name y = t" "has_column c y = has_column c x" "schema_indexes (s @ [y]) = insert n (schema_indexes (s @ [x]))" for c
    using Cons.prems by (auto simp: y_def has_column_def index_names_def)
  show ?case
    unfolding i by (auto simp: apply_index on_last_table [OF assms(1) Cons.prems] Cons.IH [OF y(1), unfolded y_def] y(2) [unfolded y_def]
        y(3) [unfolded y_def] simp del: alter.simps schema_indexes_simps) (auto simp: y_def)
qed auto

lemma block_targets_iff: "set (block_targets b) = targets (built b)"
  by (auto simp: block_targets_def targets_def split: option.splits)

lemma run_block:
  "run_schema (block_ops b) s = Inr s' \<longleftrightarrow> fst b \<notin> tab_name ` set s \<and> block_ok b \<and>
     list_all (\<lambda>r. r \<in> insert (fst b) (tab_name ` set s)) (block_targets b) \<and>
     distinct (block_indexes b) \<and> set (block_indexes b) \<inter> schema_indexes s = {} \<and> s' = s @ [built b]"
proof -
  obtain t items ixs where b: "b = (t, items, ixs)" by (cases b)
  let ?x = "new_table t items"
  have x: "tab_name ?x = t" "tab_indexes ?x = []" by (simp_all add: new_table_def)
  have tg: "targets_exist s t (tab_constraints ?x) \<longleftrightarrow> list_all (\<lambda>r. r \<in> insert t (tab_name ` set s)) (block_targets b)"
    using targets_exist_iff [of s ?x] unfolding list_all_iff block_targets_iff x(1)
    by (auto simp: targets_def built_def b)
  have "run_schema (block_ops b) s = Inr s' \<longleftrightarrow> t \<notin> tab_name ` set s \<and> targets_exist s t (tab_constraints ?x) \<and> table_ok ?x \<and>
      run_schema (map (\<lambda>(n, cs, u). CreateIndex n t cs u) ixs) (s @ [?x]) = Inr s'"
    by (auto simp: block_ops_def b apply_schema_def has_table_iff)
  also have "\<dots> \<longleftrightarrow> t \<notin> tab_name ` set s \<and> targets_exist s t (tab_constraints ?x) \<and> table_ok ?x \<and>
      distinct (block_indexes b) \<and> set (block_indexes b) \<inter> schema_indexes s = {} \<and>
      list_all (\<lambda>(n, cs, u). list_all (\<lambda>c. has_column c ?x) cs) ixs \<and> s' = s @ [built b]"
    by (rule conj_cong [OF refl], subst run_indexes [where x = ?x])
      (auto simp: x block_indexes_def b built_def index_names_def)
  finally show ?thesis unfolding tg by (auto simp: b block_ok_def)
qed

lemma names_ok_cong: "set seen = set seen' \<Longrightarrow> names_ok seen bs = names_ok seen' bs"
proof (induction bs arbitrary: seen seen')
  case (Cons b bs)
  obtain t rs where b: "b = (t, rs)" by (cases b)
  from Cons.prems Cons.IH [of "t # seen" "t # seen'"] show ?case unfolding b names_ok.simps by simp
qed simp

definition block_names :: "block \<Rightarrow> string \<times> string list" where
  "block_names b = (fst b, block_targets b)"

lemma index_names_built: "index_names (built b) = block_indexes b"
  by (auto simp: index_names_def built_def block_indexes_def split: prod.splits)

lemma run_blocks:
  "run_schema (concat (map block_ops bs)) s = Inr s' \<longleftrightarrow> list_all block_ok bs \<and>
     names_ok (map tab_name s) (map block_names bs) \<and> distinct (concat (map block_indexes bs)) \<and>
     set (concat (map block_indexes bs)) \<inter> schema_indexes s = {} \<and> s' = s @ map built bs"
proof (induction bs arbitrary: s)
  case (Cons b bs)
  have n: "names_ok (map tab_name (s @ [built b])) ns = names_ok (fst b # map tab_name s) ns" for ns
    by (rule names_ok_cong) simp
  have "run_schema (concat (map block_ops (b # bs))) s = Inr s' \<longleftrightarrow>
      (\<exists>s1. run_schema (block_ops b) s = Inr s1 \<and> run_schema (concat (map block_ops bs)) s1 = Inr s')"
    by (simp add: run_schema_append sum_bind_Inr_iff)
  also have "\<dots> \<longleftrightarrow> fst b \<notin> tab_name ` set s \<and> block_ok b \<and>
      list_all (\<lambda>r. r \<in> insert (fst b) (tab_name ` set s)) (block_targets b) \<and>
      distinct (block_indexes b) \<and> set (block_indexes b) \<inter> schema_indexes s = {} \<and>
      run_schema (concat (map block_ops bs)) (s @ [built b]) = Inr s'"
    unfolding run_block by blast
  also have "\<dots> \<longleftrightarrow> list_all block_ok (b # bs) \<and> names_ok (map tab_name s) (map block_names (b # bs)) \<and>
     distinct (concat (map block_indexes (b # bs))) \<and>
     set (concat (map block_indexes (b # bs))) \<inter> schema_indexes s = {} \<and> s' = s @ map built (b # bs)"
    unfolding Cons.IH n by (auto simp: block_names_def index_names_built)
  finally show ?case .
qed auto

subsection \<open>Altering tables\<close>

fun alters :: "operation list \<Rightarrow> table_def \<Rightarrow> table_def option" where
  \<comment> \<open>what a list of operations makes of one table\<close>
  "alters [] x = Some x"
| "alters (op # ops) x =
     (if op_table op = tab_name x then if alter_ok op x then alters ops (alter op x) else None else alters ops x)"

fun created_index :: "operation \<Rightarrow> string list" where
  "created_index (CreateIndex n t cs u) = [n]"
| "created_index _ = []"

fun plain_alter :: "operation \<Rightarrow> bool" where
  \<comment> \<open>operations that need of the other tables at most that an index name is free\<close>
  "plain_alter (CreateTable t items) = False"
| "plain_alter (DropTable t) = False"
| "plain_alter (DropColumn t c) = (c \<noteq> ''id'')"
| "plain_alter _ = True"

lemma apply_plain_alter:
  "plain_alter op \<Longrightarrow> apply_schema op s =
     (if set (created_index op) \<inter> schema_indexes s = {} then on_table (op_table op) (alter_ok op) (alter op) s
      else Inl (ddl_error (op_table op)))"
  by (cases op) (auto simp: apply_schema_def schema_indexes_def index_names_def list_ex_iff)

lemma schema_indexes_alter:
  "schema_indexes (map (\<lambda>x. if tab_name x = t then alter op x else x) s) \<subseteq> schema_indexes s \<union> set (created_index op)"
proof -
  have "set (index_names (alter op x)) \<subseteq> set (index_names x) \<union> set (created_index op)" for x
    by (cases op) (auto simp: index_names_def on_column_def)
  then show ?thesis by (fastforce simp: schema_indexes_def)
qed

lemma run_alters:
  assumes "list_all plain_alter ops" and "distinct (map tab_name s)"
    and "list_all (\<lambda>op. op_table op \<in> tab_name ` set s) ops" and "list_all (\<lambda>x. alters ops x \<noteq> None) s"
    and "distinct (concat (map created_index ops))" and "set (concat (map created_index ops)) \<inter> schema_indexes s = {}"
  shows "run_schema ops s = Inr (map (\<lambda>x. the (alters ops x)) s)"
  using assms
proof (induction ops arbitrary: s)
  case (Cons op ops)
  define s1 where "s1 = map (\<lambda>x. if tab_name x = op_table op then alter op x else x) s"
  from Cons.prems(3) obtain x where x: "x \<in> set s" "tab_name x = op_table op" by auto
  with Cons.prems(4) have "alter_ok op x" by (fastforce simp: list_all_iff split: if_splits)
  with x have "on_table (op_table op) (alter_ok op) (alter op) s = Inr s1"
    by (auto simp: on_table_def s1_def list_ex_iff)
  with Cons.prems(1,6) have a: "apply_schema op s = Inr s1" by (simp add: apply_plain_alter Int_Un_distrib2)
  define f where "f y = (if tab_name y = op_table op then alter op y else y)" for y
  have s1: "s1 = map f s" by (simp add: s1_def f_def)
  have "tab_name (f y) = tab_name y" for y by (simp add: f_def)
  then have n: "tab_name ` set s1 = tab_name ` set s" "map tab_name s1 = map tab_name s" by (simp_all add: s1 image_image)
  have f: "alters ops (f y) = alters (op # ops) y" if "y \<in> set s" for y
    using that Cons.prems(4) by (auto simp: list_all_iff f_def split: if_splits)
  have "set (concat (map created_index ops)) \<inter> schema_indexes s1 = {}"
    using schema_indexes_alter [of "op_table op" op s] Cons.prems(5,6) unfolding s1_def by auto
  moreover have "list_all (\<lambda>x. alters ops x \<noteq> None) s1"
    using Cons.prems(4) f unfolding s1 list_all_iff by simp
  ultimately have "run_schema ops s1 = Inr (map (\<lambda>x. the (alters ops x)) s1)"
    using Cons.prems(1,2,3,5) by (intro Cons.IH) (simp_all add: n)
  moreover have "map (\<lambda>x. the (alters ops x)) s1 = map (\<lambda>x. the (alters (op # ops) x)) s"
    using f by (simp add: s1)
  ultimately show ?case by (simp add: a)
qed simp

fun keeps_indexes :: "operation \<Rightarrow> bool" where
  "keeps_indexes (DropColumn t c) = False"
| "keeps_indexes (DropIndex n t) = False"
| "keeps_indexes _ = True"

lemma index_names_keep: "keeps_indexes op \<Longrightarrow> set (index_names x) \<subseteq> set (index_names (alter op x))"
  by (cases op) (auto simp: index_names_def on_column_def)

lemma run_alters_Inr:
  assumes "run_schema ops s = Inr s'" and "list_all plain_alter ops" and "distinct (map tab_name s)"
  shows "(\<forall>x \<in> set s. alters ops x \<noteq> None) \<and> s' = map (\<lambda>x. the (alters ops x)) s \<and>
    op_table ` set ops \<subseteq> tab_name ` set s \<and>
    (list_all keeps_indexes ops \<longrightarrow> set (concat (map created_index ops)) \<inter> schema_indexes s = {})"
  using assms
proof (induction ops arbitrary: s)
  case (Cons op ops)
  define f where "f y = (if tab_name y = op_table op then alter op y else y)" for y
  from Cons.prems(1) obtain s1 where s1: "apply_schema op s = Inr s1" "run_schema ops s1 = Inr s'"
    by (auto simp: sum_bind_Inr_iff)
  then have i: "set (created_index op) \<inter> schema_indexes s = {}" and o: "on_table (op_table op) (alter_ok op) (alter op) s = Inr s1"
    using Cons.prems(2) by (auto simp: apply_plain_alter split: if_splits)
  from o Cons.prems(3) obtain x where x: "x \<in> set s" "tab_name x = op_table op" "alter_ok op x" and m: "s1 = map f s"
    by (auto simp: on_table_def list_ex_iff f_def [abs_def] split: if_splits)
  have ok: "alter_ok op y" if "y \<in> set s" "tab_name y = op_table op" for y
    using that x inj_onD [of tab_name "set s" y x] Cons.prems(3) by (simp add: distinct_map)
  have name: "tab_name (f y) = tab_name y" for y by (simp add: f_def)
  then have n: "map tab_name s1 = map tab_name s" "tab_name ` set s1 = tab_name ` set s" by (simp_all add: m image_image)
  have a: "alters (op # ops) y = alters ops (f y)" if "y \<in> set s" for y using that ok by (simp add: f_def)
  have "list_all plain_alter ops" using Cons.prems(2) by simp
  then have IH: "(\<forall>x \<in> set s1. alters ops x \<noteq> None) \<and> s' = map (\<lambda>x. the (alters ops x)) s1 \<and>
      op_table ` set ops \<subseteq> tab_name ` set s1 \<and>
      (list_all keeps_indexes ops \<longrightarrow> set (concat (map created_index ops)) \<inter> schema_indexes s1 = {})"
    using s1(2) Cons.prems(3) by (intro Cons.IH) (simp_all add: n)
  have "schema_indexes s \<subseteq> schema_indexes s1" if "keeps_indexes op"
    using index_names_keep [OF that] by (fastforce simp: schema_indexes_def m f_def)
  then have "set (concat (map created_index (op # ops))) \<inter> schema_indexes s = {}" if "list_all keeps_indexes (op # ops)"
    using IH i that by (simp add: Int_Un_distrib2) blast
  moreover from x(1,2) have "op_table op \<in> tab_name ` set s" by (metis imageI)
  ultimately show ?case using IH a unfolding n(2) by (simp add: m)
qed simp

subsection \<open>Dropping tables\<close>

fun drops_ok :: "(string \<times> string list) list \<Rightarrow> string list \<Rightarrow> bool" where
  \<comment> \<open>the tables can be dropped in this order, and no table is left\<close>
  "drops_ok bs [] = (bs = [])"
| "drops_ok bs (t # ts) = (if list_ex (\<lambda>b. fst b = t) bs
     then list_all (\<lambda>b. if fst b = t then True else t \<notin> set (snd b)) bs \<and> drops_ok (filter (\<lambda>b. fst b \<noteq> t) bs) ts
     else False)"

lemma run_drops:
  assumes "drops_ok (map block_names bs) ts"
    and "\<And>x t. x \<in> set s \<Longrightarrow> t \<in> set ts \<Longrightarrow> tab_name x \<noteq> t \<and> t \<notin> targets x"
  shows "run_schema (map DropTable ts) (s @ map built bs) = Inr s"
  using assms
proof (induction ts arbitrary: bs)
  case (Cons t ts)
  define bs' where "bs' = filter (\<lambda>b. fst b \<noteq> t) bs"
  have m: "filter (\<lambda>b. fst b \<noteq> t) (map block_names bs) = map block_names bs'"
    by (simp add: bs'_def filter_map comp_def block_names_def)
  from Cons.prems(1) [unfolded drops_ok.simps m] have d: "\<exists>b \<in> set bs. fst b = t" "drops_ok (map block_names bs') ts"
    and r: "\<And>b. b \<in> set bs \<Longrightarrow> fst b \<noteq> t \<Longrightarrow> t \<notin> targets (built b)"
    by (auto simp: list_ex_iff list_all_iff block_names_def block_targets_iff split: if_splits)
  have "schema_ok (DropTable t) (s @ map built bs)"
    using r Cons.prems(2) by (auto simp: list_ex_iff refers_to_iff targets_def)
  moreover have "has_table t (s @ map built bs)" 
  proof -
    from d(1) obtain b where "built b \<in> set (s @ map built bs)" "tab_name (built b) = t" by auto
    then show ?thesis unfolding has_table_def list_ex_iff by blast
  qed
  moreover have "filter (\<lambda>x. tab_name x \<noteq> t) (s @ map built bs) = s @ map built bs'"
    using Cons.prems(2) by (auto simp: bs'_def filter_map comp_def intro!: filter_True)
  ultimately have "apply_schema (DropTable t) (s @ map built bs) = Inr (s @ map built bs')"
    by (simp add: apply_schema_def)
  with Cons.IH [OF d(2)] Cons.prems(2) show ?case by simp
qed simp

end
