(* ===== verification/Schema_Undo.thy ===== *)
theory Schema_Undo
  imports Schema_Build
begin

section \<open>Undoing operations\<close>

text \<open>
  A table with some columns, constraints and indexes appended is its \<open>extend\<close>. Operations that add to a table extend
  it, operations that drop what was added take the extension back, and meanwhile the table's
  own part does not change. So whether one list of operations undoes another is decided on the
  extension of an empty table.
\<close>

subsection \<open>Tables with an extension\<close>

definition blank :: "string \<Rightarrow> table_def" where
  "blank t = \<lparr>tab_name = t, tab_columns = [], tab_constraints = [], tab_indexes = []\<rparr>"

definition extend :: "table_def \<Rightarrow> table_def \<Rightarrow> table_def" where
  "extend x e = \<lparr>tab_name = tab_name x, tab_columns = tab_columns x @ tab_columns e,
     tab_constraints = tab_constraints x @ tab_constraints e, tab_indexes = tab_indexes x @ tab_indexes e\<rparr>"

lemma extend_simps [simp]:
  "tab_name (extend x e) = tab_name x" "tab_columns (extend x e) = tab_columns x @ tab_columns e"
  "tab_constraints (extend x e) = tab_constraints x @ tab_constraints e"
  "tab_indexes (extend x e) = tab_indexes x @ tab_indexes e" "extend x (blank t) = x"
  by (simp_all add: extend_def blank_def)

lemma extend_column_names [simp]: "column_names (extend x e) = column_names x @ column_names e"
  by (simp add: column_names_def)

fun leaves :: "operation \<Rightarrow> table_def \<Rightarrow> bool" where
  \<comment> \<open>the operation does not touch the table's own part\<close>
  "leaves (DropDefault t c) x = (c \<notin> set (column_names x))"
| "leaves (SetNotNull t c) x = (c \<notin> set (column_names x))"
| "leaves (DropColumn t c) x = (c \<notin> set (column_names x))"
| "leaves (DropCheck t n) x = (\<not> list_ex (is_check (check_name t n)) (tab_constraints x))"
| "leaves (DropIndex n t) x = (n \<notin> set (index_names x))"
| "leaves _ x = True"

lemma map_columns_id: "c \<notin> set (column_names x) \<Longrightarrow> map (\<lambda>y. if col_name y = c then f y else y) (tab_columns x) = tab_columns x"
  by (auto simp: column_names_def intro!: map_idI)

lemma alter_extend:
  assumes "table_ok x" and "leaves op x"
  shows "alter op (extend x e) = extend x (alter op e)"
proof (cases op)
  case (DropColumn t c)
  with assms have "filter (\<lambda>y. col_name y \<noteq> c) (tab_columns x) = tab_columns x"
    "filter (\<lambda>k. c \<notin> set (constraint_columns k)) (tab_constraints x) = tab_constraints x"
    "filter (\<lambda>i. c \<notin> set (ix_columns i)) (tab_indexes x) = tab_indexes x"
    using table_okD [OF assms(1)] by (auto simp: column_names_def intro!: filter_True)
  with DropColumn show ?thesis by (simp add: extend_def)
next
  case (DropCheck t n)
  with assms(2) have "filter (\<lambda>k. \<not> is_check (check_name t n) k) (tab_constraints x) = tab_constraints x"
    by (auto simp: list_ex_iff intro!: filter_True)
  with DropCheck show ?thesis by (simp add: extend_def)
next
  case (DropIndex n t)
  with assms(2) have "filter (\<lambda>i. ix_name i \<noteq> n) (tab_indexes x) = tab_indexes x"
    by (auto simp: index_names_def intro!: filter_True)
  with DropIndex show ?thesis by (simp add: extend_def)
qed (use assms in \<open>simp_all add: extend_def on_column_def map_columns_id\<close>)

subsection \<open>Operations that add\<close>

fun added_column :: "operation \<Rightarrow> string list" where
  "added_column (AddColumn t c) = [col_name c]"
| "added_column _ = []"

fun added_check :: "operation \<Rightarrow> string list" where
  "added_check (CreateCheck t n c) = [check_name t n]"
| "added_check _ = []"

fun adds_only :: "string list \<Rightarrow> operation list \<Rightarrow> bool" where
  \<comment> \<open>the operations add, and change only columns that were added\<close>
  "adds_only cs [] = True"
| "adds_only cs (op # ops) =
     ((case op of
         AddColumn t c \<Rightarrow> True
       | CreateIndex n t ds u \<Rightarrow> True
       | CreateCheck t n c \<Rightarrow> True
       | DropDefault t c \<Rightarrow> c \<in> set cs
       | SetNotNull t c \<Rightarrow> c \<in> set cs
       | CopyColumn t a b \<Rightarrow> a \<in> set cs
       | _ \<Rightarrow> False) \<and> adds_only (added_column op @ cs) ops)"

definition grown :: "operation list \<Rightarrow> table_def \<Rightarrow> table_def" where
  "grown ops e = fold alter ops e"

lemma adds_only_keeps: "adds_only cs ops \<Longrightarrow> list_all plain_alter ops \<and> list_all keeps_indexes ops"
proof (induction ops arbitrary: cs)
  case (Cons op ops)
  then show ?case by (cases op) auto
qed simp

lemma grow:
  assumes "table_ok x" and "alters ops (extend x e) = Some y" and "list_all (\<lambda>op. op_table op = tab_name x) ops"
    and "adds_only cs ops" and "set cs \<inter> set (column_names x) = {}"
  shows "y = extend x (grown ops e) \<and> set (concat (map added_column ops)) \<inter> set (column_names x) = {} \<and>
    (\<forall>n \<in> set (concat (map added_check ops)). \<not> list_ex (is_check n) (tab_constraints x))"
  using assms(2-)
proof (induction ops arbitrary: e cs)
  case (Cons op ops)
  then have ok: "alter_ok op (extend x e)" and a: "alters ops (alter op (extend x e)) = Some y"
    by (auto split: if_splits)
  have new: "set (added_column op) \<inter> set (column_names x) = {}" "\<forall>n \<in> set (added_check op). \<not> list_ex (is_check n) (tab_constraints x)"
    using ok by (cases op; auto simp: has_column_iff)+
  have "leaves op x" using Cons.prems(3,4) by (cases op) auto
  with a assms(1) have "alters ops (extend x (alter op e)) = Some y" by (simp add: alter_extend)
  with Cons.IH [of "alter op e" "added_column op @ cs"] Cons.prems(2,3,4) new show ?case
    by (auto simp: grown_def)
qed (simp add: grown_def)

subsection \<open>Operations that drop\<close>

fun is_drop :: "operation \<Rightarrow> bool" where
  "is_drop (DropColumn t c) = True"
| "is_drop (DropCheck t n) = True"
| "is_drop (DropIndex n t) = True"
| "is_drop _ = False"

lemma alter_ok_extend: "is_drop op \<Longrightarrow> alter_ok op e \<Longrightarrow> alter_ok op (extend x e)"
  by (cases op) (auto simp: has_column_iff)

lemma shrink:
  assumes "table_ok x" and "alters ops e = Some e'" and "tab_name e = tab_name x"
    and "list_all (\<lambda>op. is_drop op \<and> leaves op x \<and> op_table op = tab_name x) ops"
  shows "alters ops (extend x e) = Some (extend x e')"
  using assms(2-)
proof (induction ops arbitrary: e)
  case (Cons op ops)
  then have "alter_ok op e" "alters ops (alter op e) = Some e'" by (auto split: if_splits)
  with Cons assms(1) show ?case by (simp add: alter_ok_extend alter_extend)
qed simp

text \<open>One list of operations against another, on one table and on all.\<close>

fun dropped :: "operation \<Rightarrow> string list \<times> string list \<times> string list" where
  \<comment> \<open>the columns, CHECKs and indexes an operation drops\<close>
  "dropped (DropColumn t c) = ([c], [], [])"
| "dropped (DropCheck t n) = ([], [check_name t n], [])"
| "dropped (DropIndex n t) = ([], [], [n])"
| "dropped _ = ([], [], [])"

definition ops_on :: "string \<Rightarrow> operation list \<Rightarrow> operation list" where
  "ops_on t ops = filter (\<lambda>op. op_table op = t) ops"

definition undoes_on :: "string \<Rightarrow> operation list \<Rightarrow> operation list \<Rightarrow> bool" where
  "undoes_on t ups downs = (let us = ops_on t ups; ds = ops_on t downs in
     adds_only [] us \<and> list_all is_drop ds \<and> alters ds (grown us (blank t)) = Some (blank t) \<and>
     list_all (\<lambda>c. c \<in> set (concat (map (\<lambda>op. fst (dropped op)) ds))) (concat (map added_column us)) \<and>
     list_all (\<lambda>op. case dropped op of (cs, ks, is) \<Rightarrow> list_all (\<lambda>c. c \<in> set (concat (map added_column us))) cs \<and>
       list_all (\<lambda>k. k \<in> set (concat (map added_check us))) ks \<and>
       list_all (\<lambda>i. i \<in> set (concat (map created_index us))) is) ds)"

lemma alters_ops_on: "alters (ops_on (tab_name x) ops) x = alters ops x"
proof (induction ops arbitrary: x)
  case (Cons op ops)
  then show ?case using Cons [of "alter op x"] by (auto simp: ops_on_def)
qed (simp add: ops_on_def)

lemma tab_name_grown [simp]: "tab_name (grown ops e) = tab_name e"
  unfolding grown_def by (induction ops arbitrary: e) simp_all

lemma added_to_table:
  assumes "table_ok x" and "alters ups x = Some y" and "adds_only [] (ops_on (tab_name x) ups)"
  defines "us \<equiv> ops_on (tab_name x) ups"
  shows "y = extend x (grown us (blank (tab_name x)))" and "set (concat (map added_column us)) \<inter> set (column_names x) = {}"
    and "\<forall>n \<in> set (concat (map added_check us)). \<not> list_ex (is_check n) (tab_constraints x)"
proof -
  have "alters us (extend x (blank (tab_name x))) = Some y" using assms(2) by (simp add: alters_ops_on us_def)
  moreover have "list_all (\<lambda>op. op_table op = tab_name x) us" by (simp add: ops_on_def list_all_iff us_def)
  moreover have "adds_only [] us" using assms(3) by (simp add: us_def)
  ultimately have "y = extend x (grown us (blank (tab_name x))) \<and> set (concat (map added_column us)) \<inter> set (column_names x) = {} \<and>
      (\<forall>n \<in> set (concat (map added_check us)). \<not> list_ex (is_check n) (tab_constraints x))"
    by (rule grow [OF assms(1)]) simp
  then show "y = extend x (grown us (blank (tab_name x)))" "set (concat (map added_column us)) \<inter> set (column_names x) = {}"
    "\<forall>n \<in> set (concat (map added_check us)). \<not> list_ex (is_check n) (tab_constraints x)" by blast+
qed

lemma undo_table:
  assumes "table_ok x" and "alters ups x = Some y" and "undoes_on (tab_name x) ups downs"
    and "set (concat (map created_index ups)) \<inter> set (index_names x) = {}"
  shows "alters downs y = Some x"
proof -
  let ?t = "tab_name x" let ?us = "ops_on ?t ups" let ?ds = "ops_on ?t downs" let ?e = "grown ?us (blank ?t)"
  have us: "adds_only [] ?us" "list_all is_drop ?ds" "alters ?ds ?e = Some (blank ?t)"
    and dr: "\<And>op cs ks is. op \<in> set ?ds \<Longrightarrow> dropped op = (cs, ks, is) \<Longrightarrow> set cs \<subseteq> set (concat (map added_column ?us)) \<and>
       set ks \<subseteq> set (concat (map added_check ?us)) \<and> set is \<subseteq> set (concat (map created_index ?us))"
    using assms(3) unfolding undoes_on_def Let_def by (auto simp: list_all_iff split: prod.splits)
  note g = added_to_table [OF assms(1,2) us(1)]
  have i: "set (concat (map created_index ?us)) \<inter> set (index_names x) = {}"
    using assms(4) by (auto simp: ops_on_def)
  have "leaves op x" if op: "op \<in> set ?ds" for op
  proof (cases op)
    case (DropColumn t c) with dr [OF op] g(2) show ?thesis by auto
  next
    case (DropCheck t n) with dr [OF op] g(3) show ?thesis by auto
  next
    case (DropIndex n t) with dr [OF op] i show ?thesis by auto
  qed (use us(2) op in \<open>auto simp: list_all_iff\<close>)
  then have "list_all (\<lambda>op. is_drop op \<and> leaves op x \<and> op_table op = ?t) ?ds"
    using us(2) by (auto simp: list_all_iff ops_on_def)
  from shrink [OF assms(1) us(3) _ this] have "alters ?ds y = Some x" by (simp add: g(1) blank_def)
  then show ?thesis using alters_ops_on [of y downs] by (simp add: g(1))
qed

definition undoes :: "operation list \<Rightarrow> operation list \<Rightarrow> bool" where
  "undoes ups downs = (list_all plain_alter downs \<and> list_all plain_alter ups \<and> list_all keeps_indexes ups \<and>
     list_all (\<lambda>op. created_index op = []) downs \<and> list_all (\<lambda>op. op_table op \<in> set (map op_table ups)) downs \<and>
     list_all (\<lambda>t. undoes_on t ups downs) (remdups (map op_table ups)))"

lemma undoesD:
  assumes "undoes ups downs"
  shows "list_all plain_alter ups" and "list_all keeps_indexes ups" and "list_all plain_alter downs"
    and "op \<in> set downs \<Longrightarrow> created_index op = []" and "op_table ` set downs \<subseteq> op_table ` set ups" and "undoes_on t ups downs"
proof -
  show u: "list_all plain_alter ups" "list_all keeps_indexes ups" "list_all plain_alter downs"
    "op \<in> set downs \<Longrightarrow> created_index op = []" "op_table ` set downs \<subseteq> op_table ` set ups"
    using assms unfolding undoes_def list_all_iff set_remdups set_map by (blast, blast, blast, blast, blast)
  show "undoes_on t ups downs"
  proof (cases "t \<in> op_table ` set ups")
    case True
    then show ?thesis using assms unfolding undoes_def list_all_iff set_remdups set_map by blast
  next
    case False
    with u(5) have "t \<notin> op_table ` set downs" by blast
    with False have "ops_on t ups = []" "ops_on t downs = []" unfolding ops_on_def filter_empty_conv notin_image_iff by blast+
    then show ?thesis by (simp add: undoes_on_def grown_def)
  qed
qed

lemma undo_schema:
  assumes "run_schema ups s = Inr s'" and "undoes ups downs" and "wf_schema s"
  shows "run_schema downs s' = Inr s"
proof -
  have d: "distinct (map tab_name s)" and x: "\<And>x. x \<in> set s \<Longrightarrow> table_ok x" using assms(3) by (auto simp: wf_schema_iff)
  note u = undoesD [OF assms(2)]
  have some: "\<forall>y \<in> set s. alters ups y \<noteq> None" and s': "s' = map (\<lambda>x. the (alters ups x)) s"
    and t: "op_table ` set ups \<subseteq> tab_name ` set s" and i: "set (concat (map created_index ups)) \<inter> schema_indexes s = {}"
    using run_alters_Inr [OF assms(1) u(1) d] u(2) by blast+
  have undone: "alters downs (the (alters ups y)) = Some y" if "y \<in> set s" for y
  proof -
    from some that obtain z where z: "alters ups y = Some z" by blast
    have "set (concat (map created_index ups)) \<inter> set (index_names y) = {}"
      using i that by (auto simp: schema_indexes_def)
    from undo_table [OF x [OF that] z u(6) this] z show ?thesis by simp
  qed
  have nm: "tab_name (the (alters ops y)) = tab_name y" if "alters ops y \<noteq> None" for ops y
    using that by (induction ops arbitrary: y) (auto split: if_splits)
  then have n: "map tab_name s' = map tab_name s" using some unfolding s' by simp
  have c: "concat (map created_index downs) = []" using u(4) by simp
  have "run_schema downs s' = Inr (map (\<lambda>x. the (alters downs x)) s')"
  proof (rule run_alters [OF u(3)], unfold n c)
    show "list_all (\<lambda>op. op_table op \<in> tab_name ` set s') downs"
      using u(5) t arg_cong [OF n, of set] by (auto simp: list_all_iff)
    show "list_all (\<lambda>x. alters downs x \<noteq> None) s'" using undone by (simp add: list_all_iff s')
  qed (simp_all add: d)
  also have "map (\<lambda>x. the (alters downs x)) s' = s" unfolding s' using undone by (simp add: map_idI)
  finally show ?thesis .
qed

subsection \<open>Rows\<close>

definition rows_after :: "int \<Rightarrow> operation list \<Rightarrow> string \<Rightarrow> sql_row \<Rightarrow> sql_row" where
  "rows_after now ops t r = fold (row_change now) (ops_on t ops) r"

lemma apply_contents_plain:
  "plain_alter op \<Longrightarrow> apply_contents now op d = on_rows (op_table op) (row_ok op) (row_change now op) d"
  by (cases op) (simp_all add: row_functions on_rows_def list_all_iff)

lemma rows_after_Cons:
  "map (rows_after now ops t) ((d(op_table op := map (row_change now op) (d (op_table op)))) t) =
     map (rows_after now (op # ops) t) (d t)"
  by (simp add: rows_after_def [abs_def] ops_on_def)

lemma run_contents_alters:
  assumes "list_all plain_alter ops" and "run_contents now ops d = Inr d'"
  shows "d' = (\<lambda>t. map (rows_after now ops t) (d t))"
  using assms
proof (induction ops arbitrary: d)
  case (Cons op ops)
  let ?d = "d(op_table op := map (row_change now op) (d (op_table op)))"
  from Cons.prems have "run_contents now ops ?d = Inr d'"
    by (auto simp: apply_contents_plain on_rows_def sum_bind_Inr_iff split: if_splits)
  moreover have "list_all plain_alter ops" using Cons.prems(1) by simp
  ultimately have "d' = (\<lambda>t. map (rows_after now ops t) (?d t))" by (intro Cons.IH)
  then show ?case unfolding rows_after_Cons .
qed (simp add: rows_after_def [abs_def] ops_on_def)

lemma run_contents_drops:
  assumes "list_all plain_alter ops" and "list_all is_drop ops"
  shows "run_contents now ops d = Inr (\<lambda>t. map (rows_after now ops t) (d t))"
  using assms
proof (induction ops arbitrary: d)
  case (Cons op ops)
  have "row_ok op r" for r using Cons.prems(2) by (cases op) auto
  with Cons have "run_contents now (op # ops) d =
      run_contents now ops (d(op_table op := map (row_change now op) (d (op_table op))))"
    by (simp add: apply_contents_plain on_rows_def list_all_iff)
  also have "\<dots> = Inr (\<lambda>t. map (rows_after now (op # ops) t) (d t))"
    using Cons.prems by (subst Cons.IH) (simp_all del: fun_upd_apply add: rows_after_Cons)
  finally show ?case .
qed (simp add: rows_after_def [abs_def] ops_on_def)

lemma fold_adds:
  assumes "adds_only cs us" and "c \<notin> set cs" and "c \<notin> set (concat (map added_column us))"
  shows "fold (row_change now) us r c = r c"
  using assms
proof (induction us arbitrary: cs r)
  case (Cons op us)
  have "row_change now op r c = r c" using Cons.prems by (cases op) auto
  with Cons.IH [of "added_column op @ cs"] Cons.prems show ?case by simp
qed simp

lemma fold_drops:
  "list_all is_drop ds \<Longrightarrow> fold (row_change now) ds r c = (if c \<in> set (concat (map (\<lambda>op. fst (dropped op)) ds)) then SNull else r c)"
proof (induction ds arbitrary: r)
  case (Cons op ds)
  then show ?case by (cases op) auto
qed simp

lemma undo_row:
  assumes "undoes_on t ups downs" and "\<And>c. c \<in> set (concat (map added_column (ops_on t ups))) \<Longrightarrow> r c = SNull"
  shows "rows_after now' downs t (rows_after now ups t r) = r"
proof
  fix c
  let ?us = "ops_on t ups" let ?ds = "ops_on t downs"
  have u: "adds_only [] ?us" "list_all is_drop ?ds" using assms(1) by (simp_all add: undoes_on_def Let_def)
  have sub: "set (fst (dropped op)) \<subseteq> set (concat (map added_column ?us))" if "op \<in> set ?ds" for op
    using assms(1) that unfolding undoes_on_def Let_def by (cases "dropped op") (auto simp: list_all_iff)
  have dr: "c \<in> set (concat (map (\<lambda>op. fst (dropped op)) ?ds)) \<longleftrightarrow> c \<in> set (concat (map added_column ?us))"
  proof
    show "c \<in> set (concat (map added_column ?us)) \<Longrightarrow> c \<in> set (concat (map (\<lambda>op. fst (dropped op)) ?ds))"
      using assms(1) unfolding undoes_on_def Let_def list_all_iff by blast
    assume "c \<in> set (concat (map (\<lambda>op. fst (dropped op)) ?ds))"
    then obtain op where "op \<in> set ?ds" "c \<in> set (fst (dropped op))" by auto
    with sub show "c \<in> set (concat (map added_column ?us))" by blast
  qed
  show "rows_after now' downs t (rows_after now ups t r) c = r c"
    unfolding rows_after_def fold_drops [OF u(2)] dr using fold_adds [OF u(1)] assms(2) by simp
qed

lemma undo_contents:
  assumes "run_schema ups s = Inr s'" and "run_contents now ups d = Inr d'" and "undoes ups downs"
    and "wf_schema s" and "rows_within s d"
  shows "run_contents now' downs d' = Inr d"
proof -
  note u = undoesD [OF assms(3)]
  have "list_all is_drop downs"
    using u(6) unfolding list_all_iff by (auto simp: undoes_on_def Let_def ops_on_def list_all_iff)
  then have "run_contents now' downs d' = Inr (\<lambda>t. map (rows_after now' downs t) (d' t))" by (rule run_contents_drops [OF u(3)])
  moreover have "map (rows_after now' downs t) (d' t) = d t" for t
  proof (cases "t \<in> tab_name ` set s")
    case False
    with assms(5) run_contents_alters [OF u(1) assms(2)] show ?thesis by (simp add: rows_within_def)
  next
    case True
    then obtain x where x: "x \<in> set s" "tab_name x = t" by blast
    with assms(4) have ok: "table_ok x" "distinct (map tab_name s)" by (auto simp: wf_schema_iff)
    from run_alters_Inr [OF assms(1) u(1) ok(2)] x obtain y where y: "alters ups x = Some y" by blast
    have "adds_only [] (ops_on (tab_name x) ups)" using u(6) by (simp add: undoes_on_def Let_def)
    from added_to_table(2) [OF ok(1) y this] have "r c = SNull"
      if "r \<in> set (d t)" "c \<in> set (concat (map added_column (ops_on t ups)))" for r c
      using that assms(5) x unfolding rows_within_def by blast
    then have "map (\<lambda>r. rows_after now' downs t (rows_after now ups t r)) (d t) = d t"
      using undo_row [OF u(6)] by (auto intro!: map_idI)
    with run_contents_alters [OF u(1) assms(2)] show ?thesis by (simp add: comp_def)
  qed
  ultimately show ?thesis by simp
qed

end
