(* ===== verification/Schema_Head.thy ===== *)
theory Schema_Head
  imports Schema_Undo
begin

section \<open>The schema at the head of the chain\<close>

text \<open>
  The tables of the foundation, group by group as the first revision creates them, and what the later revisions make
  of each: the table that the ORM declares.
\<close>

definition head_operations :: "operation list" where
  "head_operations = upgrade_0002 @ upgrade_0003 @ upgrade_0004 @ upgrade_0005"

definition foundation_groups :: "operation list list" where
  "foundation_groups = [create_identity_tables, create_conversation_tables, create_tool_and_memory_tables,
     create_file_and_usage_tables, create_task_and_record_tables]"

definition foundation :: "block list" where
  "foundation = concat (map blocks_of foundation_groups)"

definition becomes :: "block \<Rightarrow> table_def \<Rightarrow> bool" where
  "becomes b m = (if fst b = tab_name m then
     (case alters head_operations (built b) of None \<Rightarrow> False | Some y \<Rightarrow> same_table y m) else False)"

definition become :: "operation list \<Rightarrow> table_def list \<Rightarrow> bool" where
  \<comment> \<open>the tables of a group become exactly these tables of the ORM\<close>
  "become xs ms = (list_all (\<lambda>b. list_ex (becomes b) ms) (blocks_of xs) \<and>
     list_all (\<lambda>m. list_ex (\<lambda>b. becomes b m) (blocks_of xs)) ms)"

lemma groups_have_block_form: "list_all block_form foundation_groups"
  by code_simp

lemma groups_are_consistent: "list_all (\<lambda>xs. list_all block_ok (blocks_of xs)) foundation_groups"
  by code_simp

lemma identity_tables_become_models:
  "become create_identity_tables [user_model, role_model, permission_model, user_roles_table,
     role_permissions_table, telegram_identity_model]"
  by code_simp

lemma conversation_tables_become_models:
  "become create_conversation_tables [conversation_model, message_model, agent_run_model, agent_step_model]"
  by code_simp

lemma tool_and_memory_tables_become_models:
  "become create_tool_and_memory_tables [tool_model, tool_execution_model, memory_model, memory_item_model]"
  by code_simp

lemma file_and_usage_tables_become_models:
  "become create_file_and_usage_tables [file_model, file_chunk_model, usage_record_model, subscription_model]"
  by code_simp

lemma task_and_record_tables_become_models:
  "become create_task_and_record_tables [task_model, task_attempt_model, idempotency_record_model, audit_log_model]"
  by code_simp

lemma foundation_names_ok: "names_ok [] (map block_names foundation)"
  by code_simp

lemma foundation_indexes_distinct: "distinct (''ix_idempotency_records_state_claimed_at'' # concat (map block_indexes foundation))"
  by code_simp

lemma head_operations_alter:
  "list_all plain_alter head_operations" "concat (map created_index head_operations) = [''ix_idempotency_records_state_claimed_at'']"
  "list_all (\<lambda>op. op_table op \<in> set (map fst foundation)) head_operations"
  by code_simp+

lemma foundation_droppable:
  "downgrade_0001 = map DropTable (map op_table downgrade_0001)"
  "list_all (\<lambda>t. t \<in> set (map fst foundation)) (map op_table downgrade_0001)"
  "drops_ok (map block_names foundation) (map op_table downgrade_0001)"
  by code_simp+

lemma upgrades_undone:
  "undoes upgrade_0002 downgrade_0002" "undoes upgrade_0003 downgrade_0003"
  "undoes upgrade_0004 downgrade_0004" "undoes upgrade_0005 downgrade_0005"
  by code_simp+

subsection \<open>The schema that the chain builds\<close>

lemma upgrade_0001_blocks: "upgrade_0001 = concat (map block_ops foundation)"
proof -
  have "concat (map block_ops (concat (map blocks_of gs))) = concat gs" if "list_all block_form gs" for gs
    using that by (induction gs) (auto simp: block_form_def)
  from this [OF groups_have_block_form] show ?thesis
    by (simp add: foundation_def foundation_groups_def upgrade_0001_def)
qed

lemma foundation_built: "run_schema upgrade_0001 [] = Inr (map built foundation)"
proof -
  have "list_all block_ok (concat (map blocks_of gs))" if "list_all (\<lambda>xs. list_all block_ok (blocks_of xs)) gs" for gs
    using that by (induction gs) auto
  from this [OF groups_are_consistent] show ?thesis
    unfolding upgrade_0001_blocks run_blocks
    using foundation_names_ok foundation_indexes_distinct by (simp add: foundation_def)
qed

definition model_groups :: "table_def list list" where
  "model_groups =
     [[user_model, role_model, permission_model, user_roles_table, role_permissions_table, telegram_identity_model],
      [conversation_model, message_model, agent_run_model, agent_step_model],
      [tool_model, tool_execution_model, memory_model, memory_item_model],
      [file_model, file_chunk_model, usage_record_model, subscription_model],
      [task_model, task_attempt_model, idempotency_record_model, audit_log_model]]"

lemma model_groups_metadata: "set (concat model_groups) = set orm_metadata"
proof
  show "set (concat model_groups) \<subseteq> set orm_metadata" by (simp add: model_groups_def orm_metadata_def)
  show "set orm_metadata \<subseteq> set (concat model_groups)" by (simp add: model_groups_def orm_metadata_def)
qed

lemma groups_become_models: "list_all2 become foundation_groups model_groups"
  by (simp add: foundation_groups_def model_groups_def identity_tables_become_models conversation_tables_become_models
      tool_and_memory_tables_become_models file_and_usage_tables_become_models task_and_record_tables_become_models)

lemma foundation_becomes_metadata:
  "\<forall>b \<in> set foundation. \<exists>m \<in> set orm_metadata. becomes b m" "\<forall>m \<in> set orm_metadata. \<exists>b \<in> set foundation. becomes b m"
proof -
  have "(\<forall>b \<in> set (concat (map blocks_of gs)). \<exists>m \<in> set (concat mss). becomes b m) \<and>
      (\<forall>m \<in> set (concat mss). \<exists>b \<in> set (concat (map blocks_of gs)). becomes b m)" if "list_all2 become gs mss" for gs mss
    using that
  proof (induction rule: list_all2_induct)
    case (Cons g gs ms mss)
    then show ?case unfolding become_def list_all_iff list_ex_iff by simp blast
  qed simp
  from this [OF groups_become_models] show
    "\<forall>b \<in> set foundation. \<exists>m \<in> set orm_metadata. becomes b m" "\<forall>m \<in> set orm_metadata. \<exists>b \<in> set foundation. becomes b m"
    unfolding model_groups_metadata foundation_def by blast+
qed

lemma becomes_built:
  assumes "becomes b m"
  shows "alters head_operations (built b) \<noteq> None" and "same_table (the (alters head_operations (built b))) m"
  using assms by (auto simp: becomes_def split: if_splits option.splits)

definition head_schema :: schema where
  "head_schema = map (\<lambda>b. the (alters head_operations (built b))) foundation"

lemma head_built: "run_schema head_operations (map built foundation) = Inr head_schema"
proof -
  have n: "map tab_name (map built foundation) = map fst (map block_names foundation)"
    by (simp add: block_names_def)
  have "distinct (map fst bs) \<and> set seen \<inter> set (map fst bs) = {}" if "names_ok seen bs" for seen bs
    using that by (induction seen bs rule: names_ok.induct) (auto split: if_splits)
  from this [OF foundation_names_ok] have d: "distinct (map tab_name (map built foundation))" unfolding n by simp
  have "run_schema head_operations (map built foundation) = Inr (map (\<lambda>x. the (alters head_operations x)) (map built foundation))"
  proof (rule run_alters [OF head_operations_alter(1) d], unfold head_operations_alter(2))
    show "list_all (\<lambda>op. op_table op \<in> tab_name ` set (map built foundation)) head_operations"
      using head_operations_alter(3) by (simp add: image_image list_all_iff)
    show "list_all (\<lambda>x. alters head_operations x \<noteq> None) (map built foundation)"
      using foundation_becomes_metadata(1) becomes_built(1) unfolding list_all_iff list.set_map by blast
    show "set [''ix_idempotency_records_state_claimed_at''] \<inter> schema_indexes (map built foundation) = {}"
      using foundation_indexes_distinct by (auto simp: schema_indexes_def index_names_built)
  qed simp
  then show ?thesis by (simp add: head_schema_def comp_def)
qed

lemma head_schema_is_metadata: "same_schema head_schema orm_metadata"
  unfolding same_schema_def head_schema_def list_all_iff list_ex_iff list.set_map
  using foundation_becomes_metadata becomes_built(2) by blast

lemma contents_empty: "run_contents now ops (\<lambda>_. []) = Inr (\<lambda>_. [])"
proof (induction ops)
  case (Cons op ops)
  have "(\<lambda>_. [])(t := []) = (\<lambda>_. [])" for t :: string by auto
  then have "apply_contents now op (\<lambda>_. []) = Inr (\<lambda>_. [])" by (cases op) (simp_all add: on_rows_def)
  with Cons show ?case by simp
qed simp

lemma path_of_chain: "concat (map rev_upgrade (upgrade_path (length revisions) None)) = upgrade_0001 @ head_operations"
  by (simp add: chain_defs head_operations_def)

lemma upgrade_from_nothing: "upgrade_head now None ([], \<lambda>_. []) = Inr (head_schema, \<lambda>_. [])"
  unfolding upgrade_head_def path_of_chain run_operations_Inr
  by (simp add: run_schema_append foundation_built head_built contents_empty)

end
