(* ===== verification/Migration_Properties.thy ===== *)
theory Migration_Properties
  imports Migrations Schema
begin

section \<open>Properties of the migrations and of the tables' constraints\<close>

text \<open>
  The CHECK conditions of the ORM as SQL evaluates them are the checks of the repositories' schema; an
  upgrade to the head keeps the rows, fills the new columns and leaves every row acceptable; a succeeded
  run from before the response column exists stops it.
\<close>

subsection \<open>The ORM's conditions and the checks of the schema\<close>

definition text_or_null :: "string option \<Rightarrow> sql_value" where
  "text_or_null v = (case v of None \<Rightarrow> SNull | Some s \<Rightarrow> SText s)"

definition time_value :: "datetime \<Rightarrow> sql_value" where
  "time_value t = (case t of Utc i \<Rightarrow> STime i | Naive i \<Rightarrow> STime i)"

definition time_or_null :: "datetime option \<Rightarrow> sql_value" where
  "time_or_null v = (case v of None \<Rightarrow> SNull | Some t \<Rightarrow> time_value t)"

definition columns_of :: "(string \<times> sql_value) list \<Rightarrow> sql_row" where
  "columns_of kvs c = (case map_of kvs c of None \<Rightarrow> SNull | Some v \<Rightarrow> v)"

definition user_columns :: "user_row \<Rightarrow> sql_row" where
  "user_columns r = columns_of [(''id'', SText (uuid_str (ur_id r))), (''status'', SText (ur_status r)),
     (''created_at'', time_value (ur_created_at r)), (''updated_at'', time_value (ur_updated_at r))]"

definition conversation_columns :: "conversation_row \<Rightarrow> sql_row" where
  "conversation_columns r = columns_of [(''id'', SText (uuid_str (cr_id r))),
     (''owner_id'', SText (uuid_str (cr_owner_id r))), (''status'', SText (cr_status r)),
     (''title'', text_or_null (cr_title r)), (''created_at'', time_value (cr_created_at r)),
     (''updated_at'', time_value (cr_updated_at r))]"

definition message_columns :: "message_row \<Rightarrow> sql_row" where
  "message_columns r = columns_of [(''id'', SText (uuid_str (mr_id r))),
     (''conversation_id'', SText (uuid_str (mr_conversation_id r))), (''role'', SText (mr_role r)),
     (''content'', SText (mr_content r)), (''created_at'', time_value (mr_created_at r))]"

definition run_columns :: "agent_run_row \<Rightarrow> sql_row" where
  "run_columns r = columns_of [(''id'', SText (uuid_str (ar_id r))), (''user_id'', SText (uuid_str (ar_user_id r))),
     (''conversation_id'', SText (uuid_str (ar_conversation_id r))), (''status'', SText (ar_status r)),
     (''provider'', SText (ar_provider r)), (''model'', SText (ar_model r)),
     (''started_at'', time_or_null (ar_started_at r)), (''finished_at'', time_or_null (ar_finished_at r)),
     (''failure_reason'', text_or_null (ar_failure_reason r)), (''final_response'', text_or_null (ar_final_response r)),
     (''max_steps'', SInt (ar_max_steps r)), (''max_tool_calls'', SInt (ar_max_tool_calls r)),
     (''max_retries'', SInt (ar_max_retries r)), (''max_execution_seconds'', SInt (ar_max_execution_seconds r)),
     (''max_context_tokens'', SInt (ar_max_context_tokens r))]"

definition step_columns :: "agent_step_row \<Rightarrow> sql_row" where
  "step_columns r = columns_of [(''id'', SText (uuid_str (sr_id r))), (''run_id'', SText (uuid_str (sr_run_id r))),
     (''index'', SInt (sr_index r)), (''type'', SText (sr_type r)), (''created_at'', time_value (sr_created_at r))]"

definition idempotency_columns :: "idempotency_row \<Rightarrow> sql_row" where
  "idempotency_columns r = columns_of [(''id'', SText (uuid_str (ir_id r))), (''namespace'', SText (ir_namespace r)),
     (''key'', SText (ir_key r)), (''state'', SText (ir_state r)), (''claimed_at'', time_value (ir_claimed_at r)),
     (''claim_token'', SText (uuid_str (ir_claim_token r)))]"

fun arg_check :: "table_arg \<Rightarrow> condition list" where
  "arg_check (ArgCheck n c) = [c]"
| "arg_check _ = []"

lemma model_checks_declarative: "model_checks (declarative t fs args) = concat (map arg_check args)"
proof -
  define conds :: "table_constraint \<Rightarrow> condition list" where "conds k = (case k of CheckRow n c \<Rightarrow> [c] | _ \<Rightarrow> [])" for k
  have f: "concat (map conds (field_constraints t f)) = []" for f by (cases f) (simp_all add: conds_def)
  have a: "concat (map conds (arg_constraints t a)) = arg_check a" for a by (cases a) (simp_all add: conds_def)
  have "concat (map conds (concat (map (field_constraints t) gs))) = []" for gs by (induction gs) (simp_all add: f)
  moreover have "concat (map conds (concat (map (arg_constraints t) as))) = concat (map arg_check as)" for as
    by (induction as) (simp_all add: a)
  ultimately show ?thesis by (simp add: model_checks_def declarative_def conds_def [abs_def])
qed

lemma model_checks_eq:
  "model_checks user_model = [IsIn ''status'' [''active'', ''banned'', ''disabled'']]"
  "model_checks conversation_model = [IsIn ''status'' [''active'', ''archived'', ''deleted'']]"
  "model_checks message_model = [IsIn ''role'' [''system'', ''user'', ''assistant'', ''tool''], Differs ''content'' []]"
  "model_checks agent_step_model = [AtLeast ''index'' 1]"
  "model_checks idempotency_record_model = [IsIn ''state'' [''started'', ''completed'', ''failed'']]"
  unfolding user_model_def conversation_model_def message_model_def agent_step_model_def idempotency_record_model_def
    model_checks_declarative by simp_all

lemma and3_false: "(and3 a b \<noteq> Some False) = (a \<noteq> Some False \<and> b \<noteq> Some False)"
  by (cases a; cases "the a"; cases b; cases "the b") auto

lemma test_false:
  "(text_test p v \<noteq> Some False) = (case v of SText s \<Rightarrow> p s | _ \<Rightarrow> True)"
  "(int_test q v \<noteq> Some False) = (case v of SInt i \<Rightarrow> q i | _ \<Rightarrow> True)"
  by (cases v; simp)+

lemma or_not_null:
  "(or3 b (Some x) \<noteq> Some False) = (b \<noteq> Some False \<or> x)"
  by (cases b; cases "the b"; cases x) (simp_all add: or3_def not3_def)

lemma not_in_text: "not3 (text_test p v) = text_test (\<lambda>s. \<not> p s) v"
  by (cases v) (simp_all add: not3_def)

lemma check_passes_simps:
  "check_passes (And a b) r = (check_passes a r \<and> check_passes b r)"
  "check_passes (IsIn c vs) r = (case r c of SText s \<Rightarrow> s \<in> set vs | _ \<Rightarrow> True)"
  "check_passes (Differs c v) r = (case r c of SText s \<Rightarrow> s \<noteq> v | _ \<Rightarrow> True)"
  "check_passes (Greater c i) r = (case r c of SInt x \<Rightarrow> x > i | _ \<Rightarrow> True)"
  "check_passes (AtLeast c i) r = (case r c of SInt x \<Rightarrow> x \<ge> i | _ \<Rightarrow> True)"
  "check_passes (Or (Neg (IsIn c vs)) (IsNotNull k)) r = ((case r c of SText s \<Rightarrow> s \<notin> set vs | _ \<Rightarrow> True) \<or> r k \<noteq> SNull)"
  "check_passes (Or (Differs c v) (IsNotNull k)) r = ((case r c of SText s \<Rightarrow> s \<noteq> v | _ \<Rightarrow> True) \<or> r k \<noteq> SNull)"
  by (simp_all add: check_passes_def and3_false or_not_null not_in_text test_false)

lemma run_model_checks:
  "model_checks agent_run_model =
     [IsIn ''status'' [''pending'', ''running'', ''succeeded'', ''failed'', ''cancelled''],
      And (And (And (And (Greater ''max_steps'' 0) (Greater ''max_tool_calls'' 0)) (Greater ''max_retries'' 0))
        (Greater ''max_execution_seconds'' 0)) (Greater ''max_context_tokens'' 0),
      And (And (Or (Neg (IsIn ''status'' [''succeeded'', ''failed'', ''cancelled''])) (IsNotNull ''finished_at''))
        (Or (Differs ''status'' ''succeeded'') (IsNotNull ''final_response'')))
        (Or (Differs ''status'' ''failed'') (IsNotNull ''failure_reason''))]"
  unfolding agent_run_model_def model_checks_declarative by simp


subsection \<open>Rows of an upgraded database\<close>

lemma path_to_head:
  "upgrade_path (length revisions) None = revisions"
  "map rev_id (upgrade_path (length revisions) (Some ''20260824_0001'')) =
     [''20260908_0002'', ''20260917_0003'', ''20260924_0004'', ''20260924_0005'']"
  by code_simp+

lemma operations_to_head:
  "concat (map rev_upgrade (upgrade_path (length revisions) (Some ''20260824_0001''))) =
     upgrade_0002 @ upgrade_0003 @ upgrade_0004 @ upgrade_0005"
  by (simp add: chain_defs)

definition limited_run :: "sql_row \<Rightarrow> sql_row" where
  "limited_run r = r(''max_steps'' := SInt 12, ''max_tool_calls'' := SInt 6, ''max_retries'' := SInt 2,
     ''max_execution_seconds'' := SInt 60, ''max_context_tokens'' := SInt 12000, ''final_response'' := SNull)"

definition claimed_record :: "int \<Rightarrow> sql_row \<Rightarrow> sql_row" where
  "claimed_record now r = r(''claimed_at'' := STime now, ''claim_token'' := r ''id'')"

lemma on_rows_Inr: "on_rows t ok f d = Inr d' \<longleftrightarrow> list_all (\<lambda>r. ok (f r)) (d t) \<and> d' = d(t := map f (d t))"
  by (auto simp: on_rows_def)

lemma contents_0002:
  "run_contents now upgrade_0002 d = Inr d' \<longleftrightarrow> d' = d(''agent_runs'' := map limited_run (d ''agent_runs''))"
  by (auto simp: upgrade_0002_def sum_bind_Inr_iff on_rows_Inr limit_column_def plain_column_def default_value_def
      list_all_iff comp_def limited_run_def [abs_def])

lemma contents_0003:
  "run_contents now upgrade_0003 d = Inr d' \<longleftrightarrow>
     d' = d(''idempotency_records'' := map (\<lambda>r. r(''claimed_at'' := STime now)) (d ''idempotency_records''))"
  by (auto simp: upgrade_0003_def sum_bind_Inr_iff on_rows_Inr plain_column_def default_value_def list_all_iff)

lemma contents_0004:
  "run_contents now upgrade_0004 d = Inr d' \<longleftrightarrow>
     (\<forall>r \<in> set (d ''idempotency_records''). r ''id'' \<noteq> SNull \<and>
        check_passes (IsIn ''state'' [''started'', ''completed'', ''failed'']) r) \<and>
     d' = d(''idempotency_records'' := map (\<lambda>r. r(''claim_token'' := r ''id'')) (d ''idempotency_records''))"
  by (auto simp: upgrade_0004_def sum_bind_Inr_iff on_rows_Inr plain_column_def default_value_def list_all_iff
      check_passes_simps comp_def)

lemma contents_checks:
  "run_contents now (map (\<lambda>(t, n, c). CreateCheck t n c) ks) d = Inr d' \<longleftrightarrow>
     d' = d \<and> list_all (\<lambda>(t, n, c). list_all (check_passes c) (d t)) ks"
proof (induction ks)
  case (Cons k ks)
  obtain t n c where k: "k = (t, n, c)" by (cases k)
  have "run_contents now (map (\<lambda>(t, n, c). CreateCheck t n c) (k # ks)) d = Inr d' \<longleftrightarrow>
      list_all (check_passes c) (d t) \<and> run_contents now (map (\<lambda>(t, n, c). CreateCheck t n c) ks) d = Inr d'"
    by (auto simp: k sum_bind_Inr_iff on_rows_Inr)
  with Cons show ?case by (auto simp: k)
qed auto

lemma contents_to_head:
  "run_contents now (upgrade_0002 @ upgrade_0003 @ upgrade_0004 @ upgrade_0005) d = Inr d' \<longleftrightarrow>
     d' = d(''agent_runs'' := map limited_run (d ''agent_runs''),
            ''idempotency_records'' := map (claimed_record now) (d ''idempotency_records'')) \<and>
     list_all (\<lambda>r. r ''claim_token'' \<noteq> SNull \<and> row_accepted idempotency_record_model r) (d' ''idempotency_records'') \<and>
     list_all (\<lambda>(t, n, c). list_all (check_passes c) (d' t)) domain_checks"
proof -
  let ?i = "''idempotency_records''"
  define d3 where "d3 = d(''agent_runs'' := map limited_run (d ''agent_runs''),
    ?i := map (\<lambda>r. r(''claimed_at'' := STime now)) (d ?i))"
  define d4 where "d4 = d3(?i := map (\<lambda>r. r(''claim_token'' := r ''id'')) (d3 ?i))"
  have d4: "d4 = d(''agent_runs'' := map limited_run (d ''agent_runs''), ?i := map (claimed_record now) (d ?i))"
    by (simp add: d4_def d3_def claimed_record_def [abs_def] comp_def)
  have "(\<forall>r \<in> set (d3 ?i). r ''id'' \<noteq> SNull \<and> check_passes (IsIn ''state'' [''started'', ''completed'', ''failed'']) r) \<longleftrightarrow>
      list_all (\<lambda>r. r ''claim_token'' \<noteq> SNull \<and> row_accepted idempotency_record_model r) (d4 ?i)"
    unfolding row_accepted_def model_checks_eq by (simp add: d4_def list_all_iff check_passes_simps)
  moreover have "run_contents now (upgrade_0002 @ upgrade_0003 @ upgrade_0004 @ upgrade_0005) d = Inr d' \<longleftrightarrow>
      (\<forall>r \<in> set (d3 ?i). r ''id'' \<noteq> SNull \<and> check_passes (IsIn ''state'' [''started'', ''completed'', ''failed'']) r) \<and>
      d' = d4 \<and> list_all (\<lambda>(t, n, c). list_all (check_passes c) (d4 t)) domain_checks"
  proof -
    have d3: "(d(''agent_runs'' := map limited_run (d ''agent_runs'')))(?i := map (\<lambda>r. r(''claimed_at'' := STime now))
        ((d(''agent_runs'' := map limited_run (d ''agent_runs''))) ?i)) = d3" by (simp add: d3_def)
    show ?thesis
      unfolding run_contents_append sum_bind_Inr_iff contents_0002 contents_0003 contents_0004 upgrade_0005_def contents_checks
      by (simp only: simp_thms ex_simps d3 d4_def [symmetric]) blast
  qed
  ultimately show ?thesis unfolding d4 by auto
qed

lemma upgrade_head_Inr:
  "upgrade_head now (Some ''20260824_0001'') (s, d) = Inr (s', d') \<Longrightarrow>
     run_contents now (upgrade_0002 @ upgrade_0003 @ upgrade_0004 @ upgrade_0005) d = Inr d'"
  unfolding upgrade_head_def operations_to_head run_operations_Inr by simp

text \<open>C26: an upgrade from the foundation to the head keeps every row: agent runs get the limits' defaults
  and no response, idempotency records a claim time and their own key as token, nothing else changes,
  and afterwards the CHECK constraints of the ORM accept every row.\<close>

theorem upgrade_keeps_rows:
  assumes "upgrade_head now (Some ''20260824_0001'') (s, d) = Inr (s', d')"
  shows "d' = d(''agent_runs'' := map limited_run (d ''agent_runs''),
      ''idempotency_records'' := map (claimed_record now) (d ''idempotency_records'')) \<and>
    list_all (row_accepted user_model) (d' ''users'') \<and> list_all (row_accepted conversation_model) (d' ''conversations'') \<and>
    list_all (row_accepted message_model) (d' ''messages'') \<and> list_all (row_accepted agent_run_model) (d' ''agent_runs'') \<and>
    list_all (row_accepted agent_step_model) (d' ''agent_steps'') \<and>
    list_all (\<lambda>r. r ''claim_token'' \<noteq> SNull \<and> row_accepted idempotency_record_model r) (d' ''idempotency_records'')"
proof -
  from upgrade_head_Inr [OF assms] have c: "d' = d(''agent_runs'' := map limited_run (d ''agent_runs''),
      ''idempotency_records'' := map (claimed_record now) (d ''idempotency_records''))"
    "list_all (\<lambda>r. r ''claim_token'' \<noteq> SNull \<and> row_accepted idempotency_record_model r) (d' ''idempotency_records'')"
    "list_all (\<lambda>(t, n, c). list_all (check_passes c) (d' t)) domain_checks"
    unfolding contents_to_head by blast+
  from c(3) have "list_all (row_accepted user_model) (d' ''users'')"
    "list_all (row_accepted conversation_model) (d' ''conversations'')"
    "list_all (row_accepted message_model) (d' ''messages'')" "list_all (row_accepted agent_run_model) (d' ''agent_runs'')"
    "list_all (row_accepted agent_step_model) (d' ''agent_steps'')"
    unfolding domain_checks_def row_accepted_def [abs_def] model_checks_eq run_model_checks by (simp_all add: list_all_iff)
  with c(1,2) show ?thesis by blast
qed

definition small_table :: "string \<Rightarrow> string list \<Rightarrow> operation" where
  "small_table t cs = CreateTable t (pk # map (\<lambda>c. col c TText True) cs)"

definition small_foundation :: schema where
  "small_foundation = (case run_schema
     [small_table ''users'' [''status''], small_table ''conversations'' [''status''], small_table ''messages'' [''role'', ''content''],
      small_table ''agent_runs'' [''status'', ''finished_at'', ''failure_reason''], small_table ''agent_steps'' [''index''],
      small_table ''idempotency_records'' [''state'']] [] of Inl _ \<Rightarrow> [] | Inr s \<Rightarrow> s)"

definition stored_run_rows :: "string \<Rightarrow> contents" where
  "stored_run_rows st t = (if t = ''agent_runs'' then [columns_of [(''id'', SText ''r''), (''status'', SText st),
     (''finished_at'', STime 7)]] else [])"

lemma small_upgrade:
  "case run_schema (upgrade_0002 @ upgrade_0003 @ upgrade_0004 @ upgrade_0005) small_foundation of Inl _ \<Rightarrow> False | Inr s \<Rightarrow> length s = 6"
  by code_simp

text \<open>C28: a database that held a succeeded run before the response column was added can never be upgraded to
  the head: the new column is NULL for that run, and the last revision's CHECK refuses it.\<close>

theorem succeeded_run_blocks_the_migration:
  assumes "r \<in> set (d ''agent_runs'')" and "r ''status'' = SText ''succeeded''"
  shows "\<exists>e. upgrade_head now (Some ''20260824_0001'') (s, d) = Inl e"
proof (cases "upgrade_head now (Some ''20260824_0001'') (s, d)")
  case (Inr st)
  obtain s' d' where "st = (s', d')" by (cases st)
  with Inr have "upgrade_head now (Some ''20260824_0001'') (s, d) = Inr (s', d')" by simp
  from upgrade_head_Inr [OF this] assms have "list_all (check_passes (Or (Differs ''status'' ''succeeded'') (IsNotNull ''final_response'')))
      [limited_run r]"
    unfolding contents_to_head domain_checks_def by (auto simp: list_all_iff check_passes_simps(1))
  with assms(2) show ?thesis by (simp add: check_passes_simps limited_run_def)
qed blast

theorem succeeded_run_blocks_the_migration_witness:
  "\<exists>e. upgrade_head 0 (Some ''20260824_0001'') (small_foundation, stored_run_rows ''succeeded'') = Inl e"
  by (rule succeeded_run_blocks_the_migration [of "columns_of [(''id'', SText ''r''), (''status'', SText ''succeeded''),
     (''finished_at'', STime 7)]"]) (simp_all add: stored_run_rows_def columns_of_def)

theorem upgrade_keeps_rows_witness:
  "\<exists>s' d'. upgrade_head 0 (Some ''20260824_0001'') (small_foundation, stored_run_rows ''running'') = Inr (s', d') \<and>
     map (\<lambda>r. r ''max_steps'') (d' ''agent_runs'') = [SInt 12]"
proof -
  obtain s' where s: "run_schema (upgrade_0002 @ upgrade_0003 @ upgrade_0004 @ upgrade_0005) small_foundation = Inr s'"
    using small_upgrade by (auto split: sum.splits)
  define d' where "d' = (stored_run_rows ''running'')(''agent_runs'' := map limited_run (stored_run_rows ''running'' ''agent_runs''),
      ''idempotency_records'' := map (claimed_record 0) (stored_run_rows ''running'' ''idempotency_records''))"
  have "run_contents 0 (upgrade_0002 @ upgrade_0003 @ upgrade_0004 @ upgrade_0005) (stored_run_rows ''running'') = Inr d'"
    unfolding contents_to_head
    by (simp add: d'_def stored_run_rows_def domain_checks_def check_passes_simps limited_run_def columns_of_def)
  with s have u: "upgrade_head 0 (Some ''20260824_0001'') (small_foundation, stored_run_rows ''running'') = Inr (s', d')"
    unfolding upgrade_head_def operations_to_head run_operations_Inr by simp
  from upgrade_keeps_rows [OF u] u show ?thesis by (simp add: stored_run_rows_def limited_run_def)
qed

end
