(* ===== verification/Schema_Properties.thy ===== *)
theory Schema_Properties
  imports Schema_Head Migration_Properties
begin

section \<open>Properties of the chain of migrations\<close>

text \<open>
  The chain builds what the ORM declares, keeps rows well typed, and can be undone without loss, revision by
  revision; the walk to the head ends there.
\<close>

subsection \<open>What the chain builds\<close>

text \<open>C24: upgrading an empty database to the head succeeds and builds the schema that the ORM's classes declare:
  the same tables with the same columns, constraints, CHECK conditions and indexes, and no others.\<close>

theorem migrations_build_the_models:
  "\<exists>s. upgrade_head now None ([], \<lambda>_. []) = Inr (s, \<lambda>_. []) \<and> same_schema s orm_metadata"
  using upgrade_from_nothing head_schema_is_metadata by blast

subsection \<open>Typed rows\<close>


definition running_run_rows :: contents where
  "running_run_rows t = (if t = ''agent_runs'' then [columns_of [(''id'', SText ''r''), (''status'', SText ''running'')]] else [])"

lemma small_foundation_typed: "wf_schema small_foundation" "rows_fit small_foundation running_run_rows"
  by code_simp+

lemma small_foundation_runs:
  "has_table ''agent_runs'' small_foundation"
  "list_all (\<lambda>x. if tab_name x = ''agent_runs'' then has_column ''id'' x \<and> has_column ''status'' x else True) small_foundation"
  by code_simp+

lemma small_foundation_within: "rows_within small_foundation running_run_rows"
  using small_foundation_runs unfolding rows_within_def running_run_rows_def columns_of_def
  by (auto simp: has_table_iff has_column_iff list_all_iff split: option.splits)

lemma small_upgrade_succeeds:
  "\<exists>s' d'. upgrade_head 0 (Some ''20260824_0001'') (small_foundation, running_run_rows) = Inr (s', d')"
proof -
  obtain s' where s: "run_schema (upgrade_0002 @ upgrade_0003 @ upgrade_0004 @ upgrade_0005) small_foundation = Inr s'"
    using small_upgrade by (auto split: sum.splits)
  have "run_contents 0 (upgrade_0002 @ upgrade_0003 @ upgrade_0004 @ upgrade_0005) running_run_rows =
      Inr (running_run_rows(''agent_runs'' := map limited_run (running_run_rows ''agent_runs''),
        ''idempotency_records'' := map (claimed_record 0) (running_run_rows ''idempotency_records'')))"
    unfolding contents_to_head
    by (simp add: running_run_rows_def domain_checks_def check_passes_simps limited_run_def columns_of_def)
  with s show ?thesis unfolding upgrade_head_def operations_to_head run_operations_Inr by blast
qed


subsection \<open>Undoing revisions\<close>

lemma contents_unchanged:
  "(\<And>op. op \<in> set ops \<Longrightarrow> apply_contents now op d = Inr d) \<Longrightarrow> run_contents now ops d = Inr d"
  by (induction ops) simp_all

lemma undo_foundation:
  assumes "run_operations now upgrade_0001 (s, d) = Inr (s', d')" and "wf_schema s" and "rows_within s d"
  shows "run_operations now' downgrade_0001 (s', d') = Inr (s, d)"
proof -
  let ?ts = "map op_table downgrade_0001"
  from assms(1) have s: "run_schema upgrade_0001 s = Inr s'" and d: "run_contents now upgrade_0001 d = Inr d'"
    by (simp_all add: run_operations_Inr)
  from s have s': "s' = s @ map built foundation" and n: "names_ok (map tab_name s) (map block_names foundation)"
    unfolding upgrade_0001_blocks run_blocks by blast+
  have "set (map fst bs) \<inter> set seen = {}" if "names_ok seen bs" for seen bs
    using that by (induction seen bs rule: names_ok.induct) (auto split: if_splits)
  from this [OF n] have f: "set (map fst foundation) \<inter> tab_name ` set s = {}" by (simp add: block_names_def image_image)
  have new: "t \<notin> tab_name ` set s" if "t \<in> set (map fst foundation)" for t using f that by blast
  have ts: "t \<notin> tab_name ` set s" if "t \<in> set ?ts" for t
    using that foundation_droppable(2) unfolding list_all_iff by (intro new) blast
  have "run_schema (map DropTable ?ts) (s @ map built foundation) = Inr s"
  proof (rule run_drops [OF foundation_droppable(3)])
    fix x t assume "x \<in> set s" "t \<in> set ?ts"
    with ts [of t] assms(2) show "tab_name x \<noteq> t \<and> t \<notin> targets x" unfolding wf_schema_iff by blast
  qed
  then have "run_schema downgrade_0001 s' = Inr s" unfolding s' by (subst foundation_droppable(1))
  moreover have z: "d(t := []) = d" if "t \<notin> tab_name ` set s" for t
    using that assms(3) by (auto simp: rows_within_def fun_eq_iff)
  have "apply_contents now op d = Inr d" if op: "op \<in> set upgrade_0001" for op
  proof -
    from op obtain b where b: "b \<in> set foundation" "op \<in> set (block_ops b)" unfolding upgrade_0001_blocks by auto
    with new [of "fst b"] z show ?thesis by (auto simp: block_ops_def split: prod.splits)
  qed
  then have "run_contents now upgrade_0001 d = Inr d" by (rule contents_unchanged)
  with d have "d' = d" by simp
  moreover have "run_contents now' (map DropTable ?ts) d = Inr d" using z ts by (intro contents_unchanged) auto
  then have "run_contents now' downgrade_0001 d = Inr d" by (subst foundation_droppable(1))
  ultimately show ?thesis by (simp add: run_operations_Inr)
qed

lemma undo_operations:
  assumes "undoes ups downs" and "run_operations now ups (s, d) = Inr (s', d')" and "wf_schema s" and "rows_within s d"
  shows "run_operations now' downs (s', d') = Inr (s, d)"
proof -
  from assms(2) have s: "run_schema ups s = Inr s'" and d: "run_contents now ups d = Inr d'" by (simp_all add: run_operations_Inr)
  from undo_schema [OF s assms(1,3)] undo_contents [OF s d assms(1,3,4)] show ?thesis by (simp add: run_operations_Inr)
qed

lemma undo_revision:
  assumes "r \<in> set revisions" and "run_operations now (rev_upgrade r) (s, d) = Inr (s', d')" and "wf_schema s" and "rows_within s d"
  shows "run_operations now' (rev_downgrade r) (s', d') = Inr (s, d)"
proof -
  from assms(1) consider "rev_upgrade r = upgrade_0001" "rev_downgrade r = downgrade_0001" | "undoes (rev_upgrade r) (rev_downgrade r)"
    using upgrades_undone by (auto simp: chain_defs)
  then show ?thesis
  proof cases
    case 1
    with assms undo_foundation show ?thesis by simp
  next
    case 2
    from undo_operations [OF this assms(2-4)] show ?thesis .
  qed
qed

lemma run_operations_append:
  "run_operations now (xs @ ys) st = sum_bind (run_operations now xs st) (run_operations now ys)"
proof (induction xs arbitrary: st)
  case (Cons x xs)
  obtain s d where "st = (s, d)" by (cases st)
  with Cons show ?case by (cases "apply_schema x s"; cases "apply_contents now x d") simp_all
qed (auto split: prod.splits)

text \<open>C27: revisions can be undone without loss: after any revisions were applied to a consistent database, their
  downgrades, applied in the opposite order, succeed and lead back to exactly the schema and the rows
  from before, although downgrades drop columns and tables.\<close>

theorem downgrade_undoes_upgrade:
  assumes "set rs \<subseteq> set revisions" and "wf_schema s" and "rows_within s d"
    and "run_operations now (concat (map rev_upgrade rs)) (s, d) = Inr (s', d')"
  shows "run_operations now' (concat (map rev_downgrade (rev rs))) (s', d') = Inr (s, d)"
  using assms
proof (induction rs arbitrary: s d)
  case (Cons r rs)
  from Cons.prems(4) obtain s1 d1 where 1: "run_operations now (rev_upgrade r) (s, d) = Inr (s1, d1)"
    "run_operations now (concat (map rev_upgrade rs)) (s1, d1) = Inr (s', d')"
    by (auto simp: run_operations_append sum_bind_Inr_iff)
  from run_operations_preserves [OF 1(1) Cons.prems(2)] Cons.prems(3) have "wf_schema s1" "rows_within s1 d1" by blast+
  with Cons 1(2) have "run_operations now' (concat (map rev_downgrade (rev rs))) (s', d') = Inr (s1, d1)" by simp
  moreover from undo_revision [OF _ 1(1) Cons.prems(2,3)] Cons.prems(1)
  have "run_operations now' (rev_downgrade r) (s1, d1) = Inr (s, d)" by simp
  ultimately show ?case by (simp add: run_operations_append)
qed simp

theorem downgrade_undoes_upgrade_witness:
  "run_operations 1 (concat (map rev_downgrade (rev revisions))) (head_schema, \<lambda>_. []) = Inr ([], \<lambda>_. [])"
proof (rule downgrade_undoes_upgrade [where now = 0])
  show "run_operations 0 (concat (map rev_upgrade revisions)) ([], \<lambda>_. []) = Inr (head_schema, \<lambda>_. [])"
    using upgrade_from_nothing [of 0] unfolding upgrade_head_def path_to_head(1) .
qed (simp_all add: wf_schema_def rows_within_def)

subsection \<open>The walk along the chain\<close>

definition at_head :: "string option \<Rightarrow> bool" where
  "at_head cur = (find (\<lambda>r. rev_down r = cur) revisions = None)"

definition arrives :: "string option \<Rightarrow> revision list \<Rightarrow> string option" where
  "arrives cur rs = (if rs = [] then cur else Some (rev_id (last rs)))"

lemma upgrade_path_head: "upgrade_path n (Some ''20260924_0005'') = []"
  by (cases n) (simp_all add: chain_defs)

lemma upgrade_path_from:
  "upgrade_path (Suc (Suc (Suc (Suc (Suc n))))) None = revisions"
  "upgrade_path (Suc (Suc (Suc (Suc (Suc n))))) (Some ''20260824_0001'') = drop 1 revisions"
  "upgrade_path (Suc (Suc (Suc (Suc (Suc n))))) (Some ''20260908_0002'') = drop 2 revisions"
  "upgrade_path (Suc (Suc (Suc (Suc (Suc n))))) (Some ''20260917_0003'') = drop 3 revisions"
  "upgrade_path (Suc (Suc (Suc (Suc (Suc n))))) (Some ''20260924_0004'') = drop 4 revisions"
  by (simp_all add: chain_defs upgrade_path_head)

lemma rev_down_cases:
  "cur = None \<or> cur = Some ''20260824_0001'' \<or> cur = Some ''20260908_0002'' \<or> cur = Some ''20260917_0003'' \<or>
   cur = Some ''20260924_0004'' \<or> find (\<lambda>r. rev_down r = cur) revisions = None"
  by (auto simp: chain_defs)

lemma upgrade_path_stops: "find (\<lambda>r. rev_down r = cur) revisions = None \<Longrightarrow> upgrade_path n cur = []"
  by (cases n) simp_all



end
