(* ===== verification/Ports.thy ===== *)
theory Ports
  imports Llm_Gateway User_Repo Conversation_Repo Agent_Run_Repo Idempotency_Repo
begin

section \<open>The ports (ports/repositories, ports/unit_of_work.py, ports/queue, ports/storage)\<close>

text \<open>
  A protocol is a record of its operations. \<open>sqlalchemy_unit_of_work\<close> is the unit of work that
  \<open>SqlAlchemyUnitOfWork.__aenter__\<close> exposes: the four SQLAlchemy repositories bound to the session of
  the environment \<open>E\<close>. The language model, the queue and the blob storage are stated as their
  data and operations; the latter two have no implementation.

  The locale \<open>idempotency_contract\<close> holds what the idempotency port promises its callers, over the
  claim that is recorded under a key; what a caller may conclude from it is proved there, and the
  interpretation shows that the SQLAlchemy repository keeps the promises when no fault and no other
  worker interferes.
\<close>

subsection \<open>Repositories and the unit of work\<close>

record 'z user_repository =
  up_get :: "uuid \<Rightarrow> ('z, user option) io"
  up_get_by_telegram_identity :: "int \<Rightarrow> ('z, user option) io"
  up_add :: "user \<Rightarrow> ('z, unit) io"
  up_save :: "user \<Rightarrow> ('z, unit) io"
  up_attach_telegram_identity :: "uuid \<Rightarrow> telegram_identity \<Rightarrow> ('z, unit) io"

record 'z conversation_repository =
  cp_get :: "uuid \<Rightarrow> int \<Rightarrow> ('z, conversation option) io"
  cp_get_active_for_user :: "uuid \<Rightarrow> int \<Rightarrow> ('z, conversation option) io"
  cp_add :: "conversation \<Rightarrow> ('z, unit) io"
  cp_save :: "conversation \<Rightarrow> ('z, unit) io"
  cp_append_message :: "message \<Rightarrow> ('z, unit) io"
  cp_recent_messages :: "uuid \<Rightarrow> int \<Rightarrow> ('z, message list) io"

record 'z agent_run_repository =
  ap_get :: "uuid \<Rightarrow> ('z, agent_run option) io"
  ap_add :: "agent_run \<Rightarrow> ('z, unit) io"
  ap_save :: "agent_run \<Rightarrow> ('z, unit) io"
  ap_append_step :: "agent_step \<Rightarrow> ('z, unit) io"

record 'z idempotency_repository =
  ip_start :: "string \<Rightarrow> string \<Rightarrow> int \<Rightarrow> ('z, idem_record) io"
  ip_complete :: "string \<Rightarrow> string \<Rightarrow> pydict \<Rightarrow> uuid \<Rightarrow> ('z, unit) io"
  ip_fail :: "string \<Rightarrow> string \<Rightarrow> string \<Rightarrow> uuid \<Rightarrow> ('z, unit) io"

record 'z unit_of_work =
  uow_users :: "'z user_repository"
  uow_conversations :: "'z conversation_repository"
  uow_agent_runs :: "'z agent_run_repository"
  uow_idempotency :: "'z idempotency_repository"

definition sqlalchemy_idempotency :: "env \<Rightarrow> 'z idempotency_repository" where
  "sqlalchemy_idempotency E =
     \<lparr>ip_start = idem_start E, ip_complete = idem_complete E, ip_fail = idem_fail E\<rparr>"

definition sqlalchemy_unit_of_work :: "env \<Rightarrow> 'z unit_of_work" where
  \<comment> \<open>the attributes set by \<open>__aenter__\<close>; \<open>open_session\<close> is its session\<close>
  "sqlalchemy_unit_of_work E =
     \<lparr>uow_users = \<lparr>up_get = users_get E, up_get_by_telegram_identity = get_by_telegram_identity E,
        up_add = users_add E, up_save = users_save E, up_attach_telegram_identity = attach_identity E\<rparr>,
      uow_conversations = \<lparr>cp_get = conversations_get E, cp_get_active_for_user = get_active_for_user E,
        cp_add = conversations_add E, cp_save = conversations_save E,
        cp_append_message = conversations_append_message E, cp_recent_messages = conversations_recent_messages E\<rparr>,
      uow_agent_runs = \<lparr>ap_get = runs_get E, ap_add = runs_add E, ap_save = runs_save E, ap_append_step = append_step E\<rparr>,
      uow_idempotency = sqlalchemy_idempotency E\<rparr>"

definition in_unit_of_work :: "env \<Rightarrow> ('z unit_of_work \<Rightarrow> ('z, 'a) io) \<Rightarrow> ('z, 'a) io" where
  \<comment> \<open>\<open>async with uow_factory() as uow: body(uow)\<close> with the factory of the SQLAlchemy adapter\<close>
  "in_unit_of_work E body = uow E (body (sqlalchemy_unit_of_work E))"

subsection \<open>Language model, queue and blob storage\<close>

record 's llm_gateway =
  lg_complete :: "llm_request \<Rightarrow> ('s, exn, llm_response) prog"

datatype task_state = TaskPending | TaskRunning | TaskSucceeded | TaskFailed | TaskCancelled

fun task_state_value :: "task_state \<Rightarrow> string" where
  "task_state_value TaskPending = ''pending''"
| "task_state_value TaskRunning = ''running''"
| "task_state_value TaskSucceeded = ''succeeded''"
| "task_state_value TaskFailed = ''failed''"
| "task_state_value TaskCancelled = ''cancelled''"

definition task_states :: "task_state list" where
  "task_states = [TaskPending, TaskRunning, TaskSucceeded, TaskFailed, TaskCancelled]"

interpretation task_state_enum: str_enum task_states task_state_value
proof
  show "e \<in> set task_states" for e by (cases e) (simp_all add: task_states_def)
  show "task_state_value e = task_state_value e' \<Longrightarrow> e = e'" for e e'
    by (cases e; cases e') simp_all
qed

record task_envelope =
  env_id :: uuid
  env_type :: string
  env_payload :: pydict
  env_idempotency_key :: "string option"
  env_metadata :: pydict

definition mk_task_envelope ::
  "uuid \<Rightarrow> string \<Rightarrow> pydict \<Rightarrow> string option \<Rightarrow> pydict option \<Rightarrow> task_envelope" where
  "mk_task_envelope i t payload key metadata = \<lparr>env_id = i, env_type = t, env_payload = payload,
     env_idempotency_key = key, env_metadata = (case metadata of None \<Rightarrow> [] | Some m \<Rightarrow> m)\<rparr>"

record 's task_queue =
  tq_enqueue :: "task_envelope \<Rightarrow> ('s, exn, unit) prog"
  tq_dequeue :: "int \<Rightarrow> ('s, exn, task_envelope option) prog"
  tq_acknowledge :: "uuid \<Rightarrow> ('s, exn, unit) prog"

definition default_dequeue_timeout :: int where "default_dequeue_timeout = 5"

record stored_blob =
  blob_storage_key :: string
  blob_size_bytes :: int
  blob_checksum_sha256 :: string
  blob_content_type :: string

record 's blob_storage =
  \<comment> \<open>a stream of chunks is the list of them; \<open>put\<close> takes owner, file name and content type\<close>
  bs_put :: "string \<Rightarrow> string \<Rightarrow> string \<Rightarrow> string list \<Rightarrow> ('s, exn, stored_blob) prog"
  bs_open :: "string \<Rightarrow> ('s, exn, string list) prog"
  bs_delete :: "string \<Rightarrow> ('s, exn, unit) prog"

subsection \<open>What the idempotency port promises\<close>

datatype claim_status = Unclaimed | Held uuid | Settled idem_state pydict

locale idempotency_contract =
  fixes repo :: "'z idempotency_repository"
    and status :: "string \<Rightarrow> string \<Rightarrow> 'z world_scheme \<Rightarrow> claim_status"
    and good :: "'z world_scheme \<Rightarrow> bool"
    and fresh :: "'z world_scheme \<Rightarrow> bool"
  assumes start_unclaimed: "good w \<Longrightarrow> fresh w \<Longrightarrow> status ns key w = Unclaimed \<Longrightarrow>
      \<exists>rec w' token. ip_start repo ns key ttl w = (Inr rec, w') \<and> rec_owned rec \<and> rec_claim_token rec = Some token \<and>
        status ns key w' = Held token \<and> good w'"
    and start_settled: "good w \<Longrightarrow> status ns key w = Settled st result \<Longrightarrow>
      \<exists>rec w'. ip_start repo ns key ttl w = (Inr rec, w') \<and> \<not> rec_owned rec \<and> rec_state rec = st \<and>
        rec_result rec = result \<and> status ns key w' = Settled st result \<and> good w'"
    and complete_held: "good w \<Longrightarrow> status ns key w = Held token \<Longrightarrow> json_dict result \<Longrightarrow>
      \<exists>w'. ip_complete repo ns key result token w = (Inr (), w') \<and>
        status ns key w' = Settled IdemCompleted result \<and> good w'"
    and fail_held: "good w \<Longrightarrow> status ns key w = Held token \<Longrightarrow>
      \<exists>w' result. ip_fail repo ns key reason token w = (Inr (), w') \<and>
        status ns key w' = Settled IdemFailed result \<and> good w'"
    and complete_stale: "good w \<Longrightarrow> status ns key w \<noteq> Unclaimed \<Longrightarrow> status ns key w \<noteq> Held token \<Longrightarrow>
      json_dict result \<Longrightarrow> \<exists>e w'. ip_complete repo ns key result token w = (Inl e, w') \<and>
        status ns key w' = status ns key w \<and> good w'"
begin

lemma work_is_replayed:
  \<comment> \<open>claim, complete, and claim again: the second caller gets the first one's result and may not work\<close>
  assumes "good w" and "fresh w" and "status ns key w = Unclaimed" and "json_dict result"
  shows "\<exists>rec token w1 w2 rec' w3. ip_start repo ns key ttl w = (Inr rec, w1) \<and> rec_claim_token rec = Some token \<and>
    ip_complete repo ns key result token w1 = (Inr (), w2) \<and>
    ip_start repo ns key ttl' w2 = (Inr rec', w3) \<and> \<not> rec_owned rec' \<and> rec_result rec' = result"
  using start_unclaimed [OF assms(1-3)] complete_held [OF _ _ assms(4)] start_settled by metis

lemma settled_stays:
  assumes "good w" and "status ns key w = Settled st result" and "json_dict result'"
  shows "\<exists>e w'. ip_complete repo ns key result' token w = (Inl e, w') \<and> status ns key w' = Settled st result"
  using complete_stale [OF assms(1) _ _ assms(3)] assms(2) by (metis claim_status.distinct(4,6))

end


subsection \<open>The SQLAlchemy repository keeps the promises\<close>

definition claim_of_row :: "idempotency_row \<Rightarrow> claim_status" where
  "claim_of_row r =
     (if ir_state r = idem_state_value IdemStarted then Held (ir_claim_token r)
      else if ir_state r = idem_state_value IdemCompleted then Settled IdemCompleted (ir_result r)
      else Settled IdemFailed (ir_result r))"

definition claim_in :: "string \<Rightarrow> string \<Rightarrow> db \<Rightarrow> claim_status" where
  \<comment> \<open>the claim recorded under a key\<close>
  "claim_in ns key d =
     (case filter (at_key ns key) (tbl_idem d) of [] \<Rightarrow> Unclaimed | r # _ \<Rightarrow> claim_of_row r)"

definition undisturbed :: "env \<Rightarrow> 'z world_scheme \<Rightarrow> bool" where
  "undisturbed E w \<longleftrightarrow> reliable E \<and> valid_db (committed w) \<and> valid_db (view w)"

definition fresh_ids :: "env \<Rightarrow> 'z world_scheme \<Rightarrow> bool" where
  "fresh_ids E w \<longleftrightarrow> uuids E (Suc (uuid_count w)) \<notin> ir_id ` set (tbl_idem (view w))"

lemma claim_in_row:
  assumes "valid_db d" and "r \<in> set (tbl_idem d)" and "at_key ns key r"
  shows "filter (at_key ns key) (tbl_idem d) = [r]" and "claim_in ns key d = claim_of_row r"
proof -
  show f: "filter (at_key ns key) (tbl_idem d) = [r]"
    using idem_row_only(4) [OF assms(1,2)] assms(3) by (simp add: at_key_def)
  show "claim_in ns key d = claim_of_row r" by (simp add: claim_in_def f)
qed

lemma claim_inE:
  assumes "claim_in ns key d \<noteq> Unclaimed" and "valid_db d"
  obtains r where "r \<in> set (tbl_idem d)" "at_key ns key r" "claim_in ns key d = claim_of_row r"
    "filter (at_key ns key) (tbl_idem d) = [r]"
proof -
  obtain r rs where "filter (at_key ns key) (tbl_idem d) = r # rs"
    using assms(1) by (auto simp: claim_in_def split: list.splits)
  then have "r \<in> set (filter (at_key ns key) (tbl_idem d))" by simp
  then have r: "r \<in> set (tbl_idem d)" "at_key ns key r" by auto
  from that [OF r] claim_in_row [OF assms(2) r] show thesis by blast
qed

lemma claim_of_row_iff:
  "idempotency_check r \<Longrightarrow> claim_of_row r = Settled st x \<Longrightarrow> ir_state r = idem_state_value st \<and> st \<noteq> IdemStarted \<and> ir_result r = x"
  "claim_of_row r = Held token \<longleftrightarrow> ir_state r = started \<and> ir_claim_token r = token"
  "claim_of_row r \<noteq> Unclaimed"
  by (auto simp: claim_of_row_def idempotency_check_def started_def split: if_splits)

lemma undisturbedD:
  "undisturbed E w \<Longrightarrow> reliable E" "undisturbed E w \<Longrightarrow> valid_db (view w)"
  by (auto simp: undisturbed_def)

lemma undisturbed_after:
  assumes "undisturbed E w" and "lawful E m" and "m w = (r, w')"
  shows "undisturbed E w'"
  using lawful_valid [OF assms(2) reliable_peers, of w] assms(1,3) by (auto simp: undisturbed_def)

lemma claim_checked: "valid_db d \<Longrightarrow> r \<in> set (tbl_idem d) \<Longrightarrow> idempotency_check r"
  by (simp add: valid_db_def checks_hold_def)

lemma settling_changes_status:
  assumes "undisturbed E w" and "claim_in ns key (view w) = Held token" and "json_dict result"
    and "st \<noteq> IdemStarted"
  shows "\<exists>w'. idem_settle E ns key token st result w = (Inr (), w') \<and>
    claim_in ns key (view w') = Settled st result \<and> undisturbed E w'"
proof -
  note E = undisturbedD [OF assms(1)]
  from assms(2) have "claim_in ns key (view w) \<noteq> Unclaimed" by simp
  then obtain r where r: "r \<in> set (tbl_idem (view w))" "at_key ns key r" and "claim_of_row r = Held token"
    using assms(2) E(2) by (metis claim_inE)
  from this(3) have h: "ir_state r = started" "ir_claim_token r = token" by (simp_all add: claim_of_row_iff(2))
  let ?r' = "r\<lparr>ir_state := idem_state_value st, ir_result := result\<rparr>"
  from idem_settle_owner [OF E r h assms(3), of st] obtain w' where
    s: "idem_settle E ns key token st result w = (Inr (), w')"
    and v: "view w' = (view w)\<lparr>tbl_idem := map (\<lambda>x. if x = r then ?r' else x) (tbl_idem (view w))\<rparr>" by blast
  note u = undisturbed_after [OF assms(1) lawful_idem_settle s]
  have "?r' \<in> set (tbl_idem (view w'))" and "at_key ns key ?r'"
    using r by (auto simp: v at_key_def intro: image_eqI [of _ _ r])
  from claim_in_row(2) [OF undisturbedD(2) [OF u] this] assms(4)
  have "claim_in ns key (view w') = Settled st result"
    by (cases st) (auto simp: claim_of_row_def started_def)
  with s u show ?thesis by blast
qed

interpretation sql_idempotency: idempotency_contract
  "sqlalchemy_idempotency E" "\<lambda>ns key w. claim_in ns key (view w)" "undisturbed E" "fresh_ids E" for E
proof
  fix w :: "'z world_scheme" and ns key ttl
  assume good: "undisturbed E w" and "fresh_ids E w" and none: "claim_in ns key (view w) = Unclaimed"
  have "filter (at_key ns key) (tbl_idem (view w)) = []"
    using none by (auto simp: claim_in_def claim_of_row_iff(3) split: list.splits)
  from idem_start_fresh [OF undisturbedD(1) [OF good] this, of ttl] \<open>fresh_ids E w\<close>
  obtain rec w' where s: "idem_start E ns key ttl w = (Inr rec, w')" "rec_owned rec"
      "rec_claim_token rec = Some (uuids E (uuid_count w))"
    and v: "view w' = (view w)\<lparr>tbl_idem := tbl_idem (view w) @
      [claim_row (uuids E (Suc (uuid_count w))) ns key (Utc (clock E (clock_count w))) (uuids E (uuid_count w))]\<rparr>"
    by (auto simp: fresh_ids_def)
  note u = undisturbed_after [OF good lawful_idem_start s(1)]
  let ?r = "claim_row (uuids E (Suc (uuid_count w))) ns key (Utc (clock E (clock_count w))) (uuids E (uuid_count w))"
  have "?r \<in> set (tbl_idem (view w'))" and "at_key ns key ?r" by (auto simp: v claim_row_def at_key_def)
  from claim_in_row(2) [OF undisturbedD(2) [OF u] this]
  have "claim_in ns key (view w') = Held (uuids E (uuid_count w))"
    by (simp add: claim_of_row_def claim_row_def)
  with s u show "\<exists>rec w' token. ip_start (sqlalchemy_idempotency E) ns key ttl w = (Inr rec, w') \<and> rec_owned rec \<and>
      rec_claim_token rec = Some token \<and> claim_in ns key (view w') = Held token \<and> undisturbed E w'"
    by (auto simp: sqlalchemy_idempotency_def)
next
  fix w :: "'z world_scheme" and ns key st result ttl
  assume good: "undisturbed E w" and st: "claim_in ns key (view w) = Settled st result"
  note E = undisturbedD [OF good]
  from st E(2) obtain r where r: "r \<in> set (tbl_idem (view w))" "filter (at_key ns key) (tbl_idem (view w)) = [r]"
    and c: "claim_of_row r = Settled st result"
    by (metis claim_inE claim_status.distinct(3))
  note f = claim_of_row_iff(1) [OF claim_checked [OF E(2) r(1)] c]
  have "idem_start E ns key ttl w = (Inr \<lparr>rec_namespace = ir_namespace r, rec_key = ir_key r, rec_state = st,
      rec_result = ir_result r, rec_owned = False, rec_claim_token = None\<rparr>, w\<lparr>sql_count := Suc (sql_count w)\<rparr>)"
    unfolding idem_start_existing [OF E(1) r(2)] by (rule claim_existing_settled) (use f in auto)
  with f obtain rec w' where s: "idem_start E ns key ttl w = (Inr rec, w')" and rec: "\<not> rec_owned rec" "rec_state rec = st"
    "rec_result rec = result" and v: "view w' = view w" by auto
  from undisturbed_after [OF good lawful_idem_start s] s rec v st
  show "\<exists>rec w'. ip_start (sqlalchemy_idempotency E) ns key ttl w = (Inr rec, w') \<and> \<not> rec_owned rec \<and>
      rec_state rec = st \<and> rec_result rec = result \<and> claim_in ns key (view w') = Settled st result \<and> undisturbed E w'"
    by (auto simp: sqlalchemy_idempotency_def)
next
  fix w :: "'z world_scheme" and ns key token and result :: pydict
  assume "undisturbed E w" and "claim_in ns key (view w) = Held token" and "json_dict result"
  from settling_changes_status [OF this, of IdemCompleted]
  show "\<exists>w'. ip_complete (sqlalchemy_idempotency E) ns key result token w = (Inr (), w') \<and>
      claim_in ns key (view w') = Settled IdemCompleted result \<and> undisturbed E w'"
    by (simp add: sqlalchemy_idempotency_def idem_complete_def)
next
  fix w :: "'z world_scheme" and ns key token reason
  assume "undisturbed E w" and "claim_in ns key (view w) = Held token"
  from settling_changes_status [OF this, of "[(''reason'', PStr reason)]" IdemFailed]
  show "\<exists>w' result. ip_fail (sqlalchemy_idempotency E) ns key reason token w = (Inr (), w') \<and>
      claim_in ns key (view w') = Settled IdemFailed result \<and> undisturbed E w'"
    by (auto simp: sqlalchemy_idempotency_def idem_fail_def json_dict_def)
next
  fix w :: "'z world_scheme" and ns key token and result :: pydict
  assume good: "undisturbed E w" and c: "claim_in ns key (view w) \<noteq> Unclaimed" "claim_in ns key (view w) \<noteq> Held token"
    and j: "json_dict result"
  note E = undisturbedD [OF good]
  from c(1) E(2) obtain r where r: "r \<in> set (tbl_idem (view w))" "at_key ns key r"
    "claim_in ns key (view w) = claim_of_row r" by (rule claim_inE)
  with c(2) have "ir_state r \<noteq> started \<or> ir_claim_token r \<noteq> token" by (auto simp: claim_of_row_iff(2))
  from idem_settle_refused [OF E r(1,2) this j, of IdemCompleted] obtain e w' where
    s: "idem_settle E ns key token IdemCompleted result w = (Inl e, w')" and v: "view w' = view w" by blast
  from undisturbed_after [OF good lawful_idem_settle s] s v
  show "\<exists>e w'. ip_complete (sqlalchemy_idempotency E) ns key result token w = (Inl e, w') \<and>
      claim_in ns key (view w') = claim_in ns key (view w) \<and> undisturbed E w'"
    by (auto simp: sqlalchemy_idempotency_def idem_complete_def)
qed

text \<open>Claiming, completing and claiming again through the SQLAlchemy repository.\<close>

lemma completed_work_is_replayed:
  assumes "undisturbed E w" and "fresh_ids E w" and "claim_in ns key (view w) = Unclaimed" and "json_dict result"
  shows "\<exists>rec token w1 w2 rec' w3. idem_start E ns key ttl w = (Inr rec, w1) \<and> rec_claim_token rec = Some token \<and>
    idem_complete E ns key result token w1 = (Inr (), w2) \<and>
    idem_start E ns key ttl' w2 = (Inr rec', w3) \<and> \<not> rec_owned rec' \<and> rec_result rec' = result"
  using sql_idempotency.work_is_replayed [OF assms] by (simp add: sqlalchemy_idempotency_def)

end
