(* ===== verification/Tool_Contracts.thy ===== *)
theory Tool_Contracts
  imports Complex_Main Identity
begin

section \<open>Tool contracts (domain/tools/contracts.py)\<close>

text \<open>
  The data of a tool and its protocol. Pydantic models are parameters: \<open>'m\<close> stands for a model
  class and \<open>'i\<close>, \<open>'o\<close> for its values. The timeout of ten seconds is a float that is a whole number.

  The lemmas say when the key of a tool names it: two identities share a key exactly when one spelling
  splits in two places at an @, so keys are unique among versions without one.
\<close>

datatype tool_sensitivity = ToolSafe | ToolSensitive | ToolAdmin

fun tool_sensitivity_value :: "tool_sensitivity \<Rightarrow> string" where
  "tool_sensitivity_value ToolSafe = ''safe''"
| "tool_sensitivity_value ToolSensitive = ''sensitive''"
| "tool_sensitivity_value ToolAdmin = ''admin''"

definition tool_sensitivities :: "tool_sensitivity list" where
  "tool_sensitivities = [ToolSafe, ToolSensitive, ToolAdmin]"

interpretation tool_sensitivity_enum: str_enum tool_sensitivities tool_sensitivity_value
proof
  show "e \<in> set tool_sensitivities" for e by (cases e) (simp_all add: tool_sensitivities_def)
  show "tool_sensitivity_value e = tool_sensitivity_value e' \<Longrightarrow> e = e'" for e e'
    by (cases e; cases e') simp_all
qed

record tool_identity =
  tool_name :: string
  tool_version :: string

definition mk_tool_identity :: "string \<Rightarrow> string option \<Rightarrow> tool_identity" where
  \<comment> \<open>a version that is left out is 1.0\<close>
  "mk_tool_identity name version =
     \<lparr>tool_name = name, tool_version = (case version of None \<Rightarrow> ''1.0'' | Some v \<Rightarrow> v)\<rparr>"

definition tool_key :: "tool_identity \<Rightarrow> string" where
  "tool_key t = tool_name t @ ''@'' @ tool_version t"

record tool_timeout_policy =
  timeout_seconds :: rat

definition default_timeout_policy :: tool_timeout_policy where
  "default_timeout_policy = \<lparr>timeout_seconds = 10\<rparr>"

record 'm tool_definition =
  td_identity :: tool_identity
  td_description :: string
  td_input_model :: 'm
  td_output_model :: 'm
  td_sensitivity :: tool_sensitivity
  td_timeout :: tool_timeout_policy

definition mk_tool_definition ::
  "tool_identity \<Rightarrow> string \<Rightarrow> 'm \<Rightarrow> 'm \<Rightarrow> tool_sensitivity option \<Rightarrow> tool_timeout_policy option \<Rightarrow> 'm tool_definition" where
  "mk_tool_definition i d inp out sensitivity timeout =
     \<lparr>td_identity = i, td_description = d, td_input_model = inp, td_output_model = out,
      td_sensitivity = (case sensitivity of None \<Rightarrow> ToolSafe | Some s \<Rightarrow> s),
      td_timeout = (case timeout of None \<Rightarrow> default_timeout_policy | Some t \<Rightarrow> t)\<rparr>"

record 'o tool_result =
  tr_output :: 'o
  tr_metadata :: pydict

definition mk_tool_result :: "'o \<Rightarrow> pydict option \<Rightarrow> 'o tool_result" where
  "mk_tool_result out metadata =
     \<lparr>tr_output = out, tr_metadata = (case metadata of None \<Rightarrow> [] | Some m \<Rightarrow> m)\<rparr>"

record ('s, 'm, 'i, 'o) tool =
  \<comment> \<open>the protocol: its definition and \<open>execute\<close> as a program over any state\<close>
  tool_definition_of :: "'m tool_definition"
  tool_execute :: "user \<Rightarrow> 'i \<Rightarrow> ('s, exn, 'o tool_result) prog"

subsection \<open>When a key names its tool\<close>

lemma split_at_last:
  assumes "c \<notin> set ys" and "c \<notin> set ys'"
  shows "xs @ c # ys = xs' @ c # ys' \<longleftrightarrow> xs = xs' \<and> ys = ys'"
proof
  assume eq: "xs @ c # ys = xs' @ c # ys'"
  from arg_cong [OF eq, of rev] have "rev ys @ c # rev xs = rev ys' @ c # rev xs'" by simp
  then have "takeWhile (\<lambda>x. x \<noteq> c) (rev ys @ c # rev xs) = takeWhile (\<lambda>x. x \<noteq> c) (rev ys' @ c # rev xs')"
    by simp
  moreover have "\<forall>x \<in> set ys. x \<noteq> c" and "\<forall>x \<in> set ys'. x \<noteq> c" using assms by auto
  ultimately have "rev ys = rev ys'" by (simp add: takeWhile_append)
  with eq show "xs = xs' \<and> ys = ys'" by simp
qed simp

lemma tool_key_injective:
  assumes "CHR ''@'' \<notin> set (tool_version t)" and "CHR ''@'' \<notin> set (tool_version t')"
  shows "tool_key t = tool_key t' \<longleftrightarrow> t = t'"
  using split_at_last [OF assms] by (auto simp: tool_key_def intro: tool_identity.equality)

lemma default_versions_are_told_apart:
  "tool_key (mk_tool_identity n None) = tool_key (mk_tool_identity n' None) \<longleftrightarrow> n = n'"
  by (simp add: tool_key_def mk_tool_identity_def)

lemma tool_keys_collide:
  "tool_key (mk_tool_identity ''a'' (Some ''b@c'')) = tool_key (mk_tool_identity ''a@b'' (Some ''c''))"
  by (simp add: tool_key_def mk_tool_identity_def)

end
