(* ===== verification/Migration_Env.thy ===== *)
theory Migration_Env
  imports "HOL-Library.AList" Migrations Settings Unit_Of_Work
begin

section \<open>The migration environment (migrations/env.py)\<close>

text \<open>
  How a migration run finds its database, what it configures Alembic with, and what it leaves behind.
  Alembic's command line (the revision the database is at, the offline switch), the file of the
  configuration and the connection are parameters: \<open>cur\<close> is the stamped revision, \<open>connecting\<close> the
  outcome of opening the connection and \<open>disposing\<close> that of disposing of the engine. Offline mode
  renders the operations into a script instead of running them (\<open>mr_script\<close>).

  A connection's transaction is \<open>context.begin_transaction()\<close>: it commits what \<open>upgrade_head\<close> returns,
  and an exception leaves the database as it was.
\<close>

record attribute =
  \<comment> \<open>an object in \<open>config.attributes\<close>: whether it is true, and its text\<close>
  attr_truthy :: bool
  attr_str :: string

definition get_database_url :: "attribute option \<Rightarrow> environ \<Rightarrow> exn + string" where
  "get_database_url override src =
     (case override of
        Some a \<Rightarrow> if attr_truthy a then Inr (attr_str a)
                  else sum_bind (load src) (\<lambda>s. Inr (database_url (set_database s)))
      | None \<Rightarrow> sum_bind (load src) (\<lambda>s. Inr (database_url (set_database s))))"

record alembic_config =
  al_url :: "string option"
  al_metadata :: schema
  al_literal_binds :: bool
  al_paramstyle :: "string option"
  al_compare_type :: bool
  al_compare_server_default :: bool

definition target_metadata :: schema where
  "target_metadata = orm_metadata"

definition offline_config :: "string \<Rightarrow> alembic_config" where
  "offline_config url = \<lparr>al_url = Some url, al_metadata = target_metadata, al_literal_binds = True,
     al_paramstyle = Some ''named'', al_compare_type = True, al_compare_server_default = True\<rparr>"

definition online_config :: alembic_config where
  "online_config = \<lparr>al_url = None, al_metadata = target_metadata, al_literal_binds = False,
     al_paramstyle = None, al_compare_type = True, al_compare_server_default = True\<rparr>"

record migration_engine =
  me_section :: "(string \<times> string) list"
  me_pooled :: bool

record migration_run =
  mr_database :: "schema \<times> contents"
  mr_configured :: "alembic_config list"
  mr_script :: "operation list"
  mr_created :: "migration_engine list"
  mr_disposed :: "migration_engine list"

type_synonym 'a migrating = "(migration_run, exn, 'a) prog"

definition configure :: "alembic_config \<Rightarrow> unit migrating" where
  "configure c = modify (\<lambda>m. m\<lparr>mr_configured := mr_configured m @ [c]\<rparr>)"

definition run_migrations_offline :: "attribute option \<Rightarrow> environ \<Rightarrow> string option \<Rightarrow> unit migrating" where
  "run_migrations_offline override src cur =
     bnd (lift_sum (get_database_url override src)) (\<lambda>url.
     bnd (configure (offline_config url)) (\<lambda>_.
     modify (\<lambda>m. m\<lparr>mr_script := mr_script m @ concat (map rev_upgrade (upgrade_path (length revisions) cur))\<rparr>)))"

definition do_run_migrations :: "int \<Rightarrow> string option \<Rightarrow> unit migrating" where
  "do_run_migrations now cur =
     bnd (configure online_config) (\<lambda>_.
     bnd (gets mr_database) (\<lambda>db.
     bnd (lift_sum (upgrade_head now cur db)) (\<lambda>db'.
     modify (\<lambda>m. m\<lparr>mr_database := db'\<rparr>))))"

definition run_async_migrations ::
  "attribute option \<Rightarrow> environ \<Rightarrow> (string \<times> string) list \<Rightarrow> (exn + unit) \<Rightarrow> (exn + unit) \<Rightarrow> int \<Rightarrow> string option \<Rightarrow>
   unit migrating" where
  "run_async_migrations override src sec connecting disposing now cur =
     bnd (lift_sum (get_database_url override src)) (\<lambda>url.
     let connectable = \<lparr>me_section = AList.update ''sqlalchemy.url'' url sec, me_pooled = False\<rparr> in
     bnd (modify (\<lambda>m. m\<lparr>mr_created := mr_created m @ [connectable]\<rparr>)) (\<lambda>_.
     finally_do
       (bnd (lift_sum connecting) (\<lambda>_. do_run_migrations now cur))
       (bnd (modify (\<lambda>m. m\<lparr>mr_disposed := mr_disposed m @ [connectable]\<rparr>)) (\<lambda>_. lift_sum disposing))))"

definition run_migrations ::
  "bool \<Rightarrow> attribute option \<Rightarrow> environ \<Rightarrow> (string \<times> string) list \<Rightarrow> (exn + unit) \<Rightarrow> (exn + unit) \<Rightarrow> int \<Rightarrow>
   string option \<Rightarrow> unit migrating" where
  \<comment> \<open>the module's last statement\<close>
  "run_migrations is_offline override src sec connecting disposing now cur =
     (if is_offline then run_migrations_offline override src cur
      else run_async_migrations override src sec connecting disposing now cur)"

subsection \<open>What a run leaves\<close>

lemma offline_script_is_the_upgrade:
  \<comment> \<open>the script does to a database what the run would, and rendering it touches none\<close>
  assumes "run_migrations_offline override src cur m = (Inr (), m')" and "mr_script m = []"
  shows "run_operations now (mr_script m') db = upgrade_head now cur db" and "mr_database m' = mr_database m"
  using assms by (auto simp: run_migrations_offline_def configure_def upgrade_head_def elim!: bnd_InrE)

lemma override_wins:
  "attr_truthy a \<Longrightarrow> get_database_url (Some a) src = Inr (attr_str a)"
  by (simp add: get_database_url_def)

lemma no_override_means_settings:
  assumes "get_database_url override src = Inr url" and "\<And>a. override = Some a \<Longrightarrow> \<not> attr_truthy a"
  shows "\<exists>s. load src = Inr s \<and> url = database_url (set_database s)"
  using assms by (auto simp: get_database_url_def sum_bind_Inr_iff split: option.splits)

lemma configurations_agree:
  \<comment> \<open>a script rendered offline compares the same metadata as a run\<close>
  "al_metadata (offline_config url) = al_metadata online_config \<and>
   al_compare_type (offline_config url) = al_compare_type online_config \<and>
   al_compare_server_default (offline_config url) = al_compare_server_default online_config"
  by (simp add: offline_config_def online_config_def)

lemma do_run_migrations_database:
  "snd (do_run_migrations now cur m) = m\<lparr>mr_configured := mr_configured m @ [online_config],
     mr_database := (case upgrade_head now cur (mr_database m) of Inl _ \<Rightarrow> mr_database m | Inr db \<Rightarrow> db)\<rparr>"
  by (cases "upgrade_head now cur (mr_database m)") (simp_all add: do_run_migrations_def configure_def bnd_apply)

lemma async_run_disposes:
  "mr_created m = mr_disposed m \<Longrightarrow>
   mr_created (snd (run_async_migrations override src sec connecting disposing now cur m)) =
   mr_disposed (snd (run_async_migrations override src sec connecting disposing now cur m))"
  by (cases "get_database_url override src"; cases connecting; cases "upgrade_head now cur (mr_database m)"; cases disposing)
    (simp_all add: run_async_migrations_def do_run_migrations_def configure_def finally_do_def bnd_apply Let_def)

lemma async_run_is_atomic:
  assumes "run_async_migrations override src sec connecting disposing now cur m = (r, m')"
  shows "mr_database m' = mr_database m \<or> upgrade_head now cur (mr_database m) = Inr (mr_database m')"
    and "r = Inr () \<Longrightarrow> upgrade_head now cur (mr_database m) = Inr (mr_database m')"
    and "upgrade_head now cur (mr_database m) = Inl e \<Longrightarrow> mr_database m' = mr_database m \<and> (\<exists>e'. r = Inl e')"
proof -
  have *: "(mr_database m' = mr_database m \<or> upgrade_head now cur (mr_database m) = Inr (mr_database m')) \<and>
      (r = Inr () \<longrightarrow> upgrade_head now cur (mr_database m) = Inr (mr_database m')) \<and>
      (upgrade_head now cur (mr_database m) = Inl e \<longrightarrow> mr_database m' = mr_database m \<and> (\<exists>e'. r = Inl e'))"
    using assms
    by (cases "get_database_url override src"; cases connecting; cases "upgrade_head now cur (mr_database m)"; cases disposing)
      (auto simp: run_async_migrations_def do_run_migrations_def configure_def finally_do_def bnd_apply Let_def)
  then show "mr_database m' = mr_database m \<or> upgrade_head now cur (mr_database m) = Inr (mr_database m')"
    and "r = Inr () \<Longrightarrow> upgrade_head now cur (mr_database m) = Inr (mr_database m')"
    and "upgrade_head now cur (mr_database m) = Inl e \<Longrightarrow> mr_database m' = mr_database m \<and> (\<exists>e'. r = Inl e')"
    by blast+
qed

end
