(* ===== verification/Spec2Isabelle.thy ===== *)
theory Spec2Isabelle
  imports Repo_Properties Turn_Recovery Turn_Faults Turn_Crash
    Idempotency_Protocol Log_Properties Api_Properties Schema_Properties
    Ports Tool_Contracts Migration_Env
begin

text \<open>
  NexaBot: a verification library of the agent service under src/src/nexabot.

  \<^bold>\<open>The program.\<close> NexaBot keeps users, conversations and agent runs in a relational database and
  answers a user's message with one call of a language model. A request runs one \<open>RunAgentTurn\<close>:
  it claims its idempotency key, opens a unit of work that resolves the actor, stores the message
  and a running run, calls the provider with no transaction open, and closes in a second unit of
  work that stores the answer, the finished run and the completed claim; a failure is settled in
  further units of work. Around it stand settings read from the environment, redacting logs, an
  HTTP interface with health endpoints, and the migrations that build the database.

  \<^bold>\<open>Theories and what they model.\<close>

  \<^item> \<open>Nexa_Prelude\<close>, \<open>Py_Values\<close>, \<open>Text_Search\<close>: programs that may raise, effectful programs
    over an explicit state, the locales of the shared contracts (\<open>lifecycle\<close>, \<open>refinement\<close>,
    \<open>str_enum\<close>, \<open>normaliser\<close>), and the Python values used: texts, metadata, times, UUIDs, patterns.
  \<^item> \<open>Errors\<close> (domain/common/errors.py), \<open>Identity\<close>, \<open>Conversations\<close>, \<open>Agent_Runs\<close>,
    \<open>Context_Window\<close> (domain/): one record per entity, one function per method, errors as values of
    a sum; the methods are the steps of a \<open>lifecycle\<close> with its invariant.
  \<^item> \<open>Llm_Gateway\<close> (ports/llm, infrastructure/llm): the port's data and the stub; any provider is a
    function from the number of the call and the request to an outcome and a duration.
  \<^item> \<open>Schema\<close> (infrastructure/database/models.py): rows, constraints and the statements the
    repositories issue, each refusing what the constraints refuse; \<open>db_change\<close> lists them.
  \<^item> \<open>Unit_Of_Work\<close> (unit_of_work.py, errors.py, base.py): sessions, commit and rollback over the
    world \<open>world\<close> and the environment \<open>env\<close>.
  \<^item> \<open>Conversation_Repo\<close>, \<open>Agent_Run_Repo\<close>, \<open>Idempotency_Repo\<close>, \<open>User_Repo\<close>
    (infrastructure/database/repositories), \<open>Use_Cases\<close> (application/identity,
    application/conversations), \<open>Agent_Turn\<close> (application/agent/use_cases.py).
  \<^item> \<open>Idempotency_Protocol\<close>: any number of workers interleaving the statements of the idempotency
    repository, as an inductive step relation, and the register it refines.
  \<^item> \<open>Ports\<close> (ports/): the protocols as records of their operations, the unit of work that the
    SQLAlchemy adapter exposes, and the contract of the idempotency port as a locale, interpreted on
    the SQLAlchemy repository. \<open>Tool_Contracts\<close> (domain/tools/contracts.py): the data of a tool.
  \<^item> \<open>Settings\<close> (config/settings.py), \<open>Log_Redaction\<close> (observability/), \<open>Api\<close> (interfaces/api,
    bootstrap, database/readiness.py, database/session.py).
  \<^item> \<open>Sql_Schema\<close>, \<open>Orm_Metadata\<close>, \<open>Migrations\<close>: the operations of the migrations on schema and
    rows, the metadata of all ORM classes, the five revisions and their chain. \<open>Migration_Env\<close>
    (migrations/env.py): which database a run is for, offline scripts and online runs.

  \<^bold>\<open>What the lemmas show.\<close> \<open>Turn_Proofs\<close>, \<open>Turn_Correct\<close>, \<open>Turn_Settlement\<close> and
  \<open>Turn_Outcome\<close> lead to the outcome of a started turn; \<open>Turn_Properties\<close> and \<open>Turn_Access\<close> hold the
  other properties of a turn: atomic units of work, one provider call outside transactions and within
  the token budget, replay and refusal of idempotency keys, ownership, and the exits that leave
  something behind; \<open>Turn_Recovery\<close> shows that the first request after the expiry of a claim takes
  it over and settles it; \<open>Turn_Faults\<close> drops the hypothesis that nothing interferes: under any faults
  and any other workers a key has one result. \<open>Turn_Crash\<close> follows a turn through every fault of its driver:
  an answer, a succeeded run and a completed claim are stored together or not at all. \<open>Repo_Properties\<close> holds round trips through the tables, history windows, and
  what a ban or a registration means to later requests. \<open>Idempotency_Protocol\<close> shows one
  settlement per key under every interleaving. \<open>Settings_Properties\<close> and \<open>Log_Properties\<close> show what
  a successful load guarantees and that summaries and JSON log lines do not depend on secrets.
  \<open>Api_Properties\<close> shows bounded request ids, error answers, closed routes and readiness.
  \<open>Migration_Properties\<close> ties the declared CHECK constraints to the repositories' checks and
  follows the rows of a database through an upgrade. \<open>Schema_Laws\<close> holds what every schema operation
  keeps (a consistent schema, rows of the columns' types), \<open>Schema_Build\<close> computes groups of
  operations at once, \<open>Schema_Undo\<close> says which operations undo which, \<open>Schema_Head\<close> computes the schema
  at the head table by table; from them \<open>Schema_Properties\<close> concludes that the migrations build the
  tables of the models, that downgrades undo upgrades and that upgrades keep types. \<open>Sample_World\<close> is
  the concrete world on which the witnesses run.

  \<^bold>\<open>The environment.\<close> The database driver's faults, the transactions of other workers (which run this
  program too: \<open>peers\<close>), the clock, the identifiers, the iteration order of frozensets, the backend's
  treatment of timestamps and foreign keys, and the provider are fields of \<open>env\<close> and arbitrary.
  \<open>reliable E\<close> is the hypothesis that no fault and no other worker interferes; properties that need
  it say so. URL percent coding and the check of bracketed hosts (\<open>url_lib\<close>), FastAPI's encoder, an ASGI
  application, an authenticator and a database probe are arguments.

  \<^bold>\<open>Bounds.\<close> All programs are total functions, so termination is part of their type; the loops of the
  source are bounded by lists. The only fuel is in \<open>upgrade_path\<close>: the number of revisions, enough for
  a chain (\<open>path_to_head\<close>). Texts consist of the code points U+0000 to U+00FF. Integers are Python's
  unbounded ones; \<open>int\<close> of a text keeps Python's limit of 4300 digits. Identifiers are 128-bit words.

  \<^bold>\<open>Not modelled.\<close> Column lengths and types are enforced on the rows of \<open>Sql_Schema\<close>, not on those of
  the repositories' \<open>Schema\<close> (a backend that refuses a value raises, which is one of the faults).
  \<open>Sql_Schema\<close> enforces CHECK constraints and types on rows; its unique and foreign key constraints are
  part of the schema, and \<open>Schema\<close> is where rows obey them. ORM tables without code that uses them
  appear in the metadata only. The tools, the task queue and the blob storage have no implementation, so
  only their data and protocols are stated. The server loop, Alembic's command line and the logging
  configuration file are input and output. Readiness checks run concurrently in the source; the model takes
  their outcomes.
\<close>

end
